(* ===== verification/Prelude.thy ===== *)
theory Prelude
  imports Main "HOL-Library.Sublist"
begin

text \<open>
  The part of the JavaScript standard library that the modelled TypeScript uses, and the
  lemmas every component shares.

  A JavaScript string is a \<open>string\<close>: a list of 8-bit characters, read as the UTF-16 code
  units 0 to 255. Case conversion and white space follow ECMAScript on that range (so the
  no-break space is trimmed and Latin-1 capitals are lowered). \<open>null\<close> and \<open>undefined\<close>
  are both \<open>None\<close>. Positions are \<open>nat\<close>; numbers that the code computes with are
  \<open>int\<close>, which is exact here because all of them are integral and far below $2^{53}$.
\<close>

named_theorems js_defs "definitions of the JavaScript string operations"

subsection \<open>Characters\<close>

abbreviation code :: "char \<Rightarrow> nat" where
  "code c \<equiv> of_char c"

definition is_js_space :: "char \<Rightarrow> bool" where
  "is_js_space c \<longleftrightarrow> code c \<in> {9, 10, 11, 12, 13, 32, 160}"

definition is_digit :: "char \<Rightarrow> bool" where
  "is_digit c \<longleftrightarrow> 48 \<le> code c \<and> code c \<le> 57"

definition is_alpha :: "char \<Rightarrow> bool" where
  "is_alpha c \<longleftrightarrow> 65 \<le> code c \<and> code c \<le> 90 \<or> 97 \<le> code c \<and> code c \<le> 122"

definition is_ascii :: "char \<Rightarrow> bool" where
  "is_ascii c \<longleftrightarrow> code c < 128"

definition lower_char :: "char \<Rightarrow> char" where
  "lower_char c =
     (let n = code c in
      if 65 \<le> n \<and> n \<le> 90 \<or> 192 \<le> n \<and> n \<le> 222 \<and> n \<noteq> 215 then char_of (n + 32) else c)"

subsection \<open>String operations\<close>

definition js_lower :: "string \<Rightarrow> string" where
  "js_lower s = map lower_char s"

definition trim_start :: "string \<Rightarrow> string" where
  "trim_start s = dropWhile is_js_space s"

definition trim_end :: "string \<Rightarrow> string" where
  "trim_end s = rev (dropWhile is_js_space (rev s))"

definition js_trim :: "string \<Rightarrow> string" where
  "js_trim s = trim_end (trim_start s)"

definition starts_with :: "string \<Rightarrow> string \<Rightarrow> bool" where
  "starts_with p s \<longleftrightarrow> take (length p) s = p"

definition ends_with :: "string \<Rightarrow> string \<Rightarrow> bool" where
  "ends_with p s \<longleftrightarrow> take (length p) (rev s) = rev p"

fun has_sub :: "string \<Rightarrow> string \<Rightarrow> bool" where
  "has_sub p [] \<longleftrightarrow> p = []"
| "has_sub p (c # s) \<longleftrightarrow> starts_with p (c # s) \<or> has_sub p s"

fun split_on :: "char \<Rightarrow> string \<Rightarrow> string list" where
  "split_on d [] = [[]]"
| "split_on d (c # s) =
     (if c = d then [] # split_on d s
      else (case split_on d s of [] \<Rightarrow> [[c]] | w # ws \<Rightarrow> (c # w) # ws))"

fun join_with :: "string \<Rightarrow> string list \<Rightarrow> string" where
  "join_with sep [] = []"
| "join_with sep [w] = w"
| "join_with sep (w # v # ws) = w @ sep @ join_with sep (v # ws)"

fun last_index :: "char \<Rightarrow> string \<Rightarrow> nat option" where
  "last_index d [] = None"
| "last_index d (c # s) =
     (case last_index d s of Some i \<Rightarrow> Some (Suc i) | None \<Rightarrow> if c = d then Some 0 else None)"

text \<open>\<open>s.replace(/ab/g, 'r')\<close> for a two-character pattern: left to right, no overlap.\<close>

fun replace2 :: "char \<Rightarrow> char \<Rightarrow> char \<Rightarrow> string \<Rightarrow> string" where
  "replace2 a b r (x # y # s) =
     (if x = a \<and> y = b then r # replace2 a b r s else x # replace2 a b r (y # s))"
| "replace2 a b r s = s"

text \<open>\<open>xs.slice(-n)\<close>\<close>

definition slice_last :: "nat \<Rightarrow> 'a list \<Rightarrow> 'a list" where
  "slice_last n xs = drop (length xs - n) xs"

subsection \<open>Numbers and strings\<close>

definition digit_char :: "nat \<Rightarrow> char" where
  "digit_char d = char_of (48 + d)"

fun show_nat :: "nat \<Rightarrow> string" where
  "show_nat n = (if n < 10 then [digit_char n] else show_nat (n div 10) @ [digit_char (n mod 10)])"

declare show_nat.simps [simp del]

definition show_int :: "int \<Rightarrow> string" where
  "show_int i = (if i < 0 then CHR ''-'' # show_nat (nat (- i)) else show_nat (nat i))"

definition digits_val :: "string \<Rightarrow> int" where
  "digits_val ds = foldl (\<lambda>a c. 10 * a + (int (code c) - 48)) 0 ds"

text \<open>\<open>parseInt(s, 10)\<close>: white space, an optional sign, the longest run of digits; \<open>NaN\<close> is
  \<open>None\<close>.\<close>

definition parse_digits :: "string \<Rightarrow> int option" where
  "parse_digits s = (let ds = takeWhile is_digit s in if ds = [] then None else Some (digits_val ds))"

definition parse_int :: "string \<Rightarrow> int option" where
  "parse_int s =
     (case trim_start s of
        [] \<Rightarrow> None
      | c # t \<Rightarrow>
          (if c = CHR ''-'' then map_option uminus (parse_digits t)
           else if c = CHR ''+'' then parse_digits t
           else parse_digits (c # t)))"

definition show_number :: "int option \<Rightarrow> string" where
  "show_number n = (case n of None \<Rightarrow> ''NaN'' | Some i \<Rightarrow> show_int i)"

text \<open>A string used as a condition: absent and empty are both false.\<close>

definition truthy :: "string option \<Rightarrow> bool" where
  "truthy s \<longleftrightarrow> (case s of None \<Rightarrow> False | Some t \<Rightarrow> t \<noteq> [])"

text \<open>\<open>a ?? b\<close>\<close>

definition or_else :: "'a option \<Rightarrow> 'a \<Rightarrow> 'a" where
  "or_else x d = (case x of None \<Rightarrow> d | Some v \<Rightarrow> v)"

lemma or_else_simps [simp]: "or_else None d = d" "or_else (Some v) d = v"
  by (simp_all add: or_else_def)

lemma truthy_simps [simp]: "truthy None = False" "truthy (Some t) = (t \<noteq> [])"
  by (simp_all add: truthy_def)

lemmas [js_defs] = is_js_space_def is_digit_def is_alpha_def is_ascii_def lower_char_def
  js_lower_def trim_start_def trim_end_def js_trim_def starts_with_def ends_with_def
  slice_last_def digit_char_def show_int_def digits_val_def parse_digits_def parse_int_def
  show_number_def

subsection \<open>Lemmas on case and white space\<close>

lemma lower_char_idem [simp]: "lower_char (lower_char c) = lower_char c"
  by (auto simp: lower_char_def Let_def)

lemma js_lower_idem [simp]: "js_lower (js_lower s) = js_lower s"
  by (simp add: js_lower_def)

lemma length_js_lower [simp]: "length (js_lower s) = length s"
  by (simp add: js_lower_def)

lemma js_lower_append [simp]: "js_lower (s @ t) = js_lower s @ js_lower t"
  by (simp add: js_lower_def)

lemma js_lower_Nil_iff [simp]: "js_lower s = [] \<longleftrightarrow> s = []"
  by (simp add: js_lower_def)

lemma trim_end_no_space: "s \<noteq> [] \<Longrightarrow> \<not> is_js_space (last s) \<Longrightarrow> trim_end s = s"
  by (cases s rule: rev_cases) (simp_all add: trim_end_def)

lemma trim_end_last: "trim_end s \<noteq> [] \<Longrightarrow> \<not> is_js_space (last (trim_end s))"
  unfolding trim_end_def
  by (metis hd_dropWhile hd_rev last_rev rev_is_Nil_conv rev_rev_ident)

lemma trim_end_idem [simp]: "trim_end (trim_end s) = trim_end s"
  by (cases "trim_end s = []") (simp add: trim_end_def, simp add: trim_end_no_space trim_end_last)

lemma trim_end_prefix: "\<exists>w. s = trim_end s @ w \<and> (\<forall>c \<in> set w. is_js_space c)"
proof -
  have "rev s = takeWhile is_js_space (rev s) @ dropWhile is_js_space (rev s)" by simp
  then have "s = trim_end s @ rev (takeWhile is_js_space (rev s))"
    by (metis rev_append rev_rev_ident trim_end_def)
  moreover have "\<forall>c \<in> set (rev (takeWhile is_js_space (rev s))). is_js_space c"
    by (auto dest: set_takeWhileD)
  ultimately show ?thesis by blast
qed

lemma js_trim_hd: "js_trim s \<noteq> [] \<Longrightarrow> \<not> is_js_space (hd (js_trim s))"
proof -
  assume ne: "js_trim s \<noteq> []"
  obtain w where w: "trim_start s = js_trim s @ w"
    using trim_end_prefix [of "trim_start s"] by (auto simp: js_trim_def)
  with ne have "hd (js_trim s) = hd (trim_start s)" "trim_start s \<noteq> []" by auto
  then show ?thesis by (simp add: trim_start_def hd_dropWhile)
qed

lemma js_trim_idem [simp]: "js_trim (js_trim s) = js_trim s"
proof (cases "js_trim s")
  case Nil
  moreover have "js_trim [] = []" by (simp add: js_trim_def trim_start_def trim_end_def)
  ultimately show ?thesis by simp
next
  case (Cons c t)
  with js_trim_hd [of s] have "trim_start (js_trim s) = js_trim s"
    by (simp add: trim_start_def)
  then show ?thesis by (metis js_trim_def trim_end_idem)
qed

subsection \<open>Lemmas on splitting, joining and searching\<close>

lemma split_on_not_Nil [simp]: "split_on d s \<noteq> []"
  by (induction s) (auto split: list.splits)

lemma join_split [simp]: "join_with [d] (split_on d s) = s"
proof (induction s)
  case (Cons c s)
  obtain w ws where sp: "split_on d s = w # ws"
    by (cases "split_on d s") auto
  with Cons show ?case by (cases ws) auto
qed simp

lemma split_on_no_sep: "w \<in> set (split_on d s) \<Longrightarrow> d \<notin> set w"
  by (induction s arbitrary: w) (auto split: list.splits if_splits)

lemma split_on_append:
  "split_on d (s @ t) = butlast (split_on d s) @
     ((last (split_on d s) @ hd (split_on d t)) # tl (split_on d t))"
proof (induction s)
  case Nil
  show ?case by (cases "split_on d t") auto
next
  case (Cons c s)
  obtain w ws where sp: "split_on d s = w # ws"
    by (cases "split_on d s") auto
  with Cons show ?case by (cases ws) auto
qed

lemma split_on_fresh: "d \<notin> set s \<Longrightarrow> split_on d s = [s]"
  by (induction s) auto

lemma split_on_sep: "d \<notin> set s \<Longrightarrow> split_on d (s @ d # t) = s # split_on d t"
  by (induction s) auto

lemma split_join:
  "ws \<noteq> [] \<Longrightarrow> (\<forall>w \<in> set ws. d \<notin> set w) \<Longrightarrow> split_on d (join_with [d] ws) = ws"
  by (induction "[d]" ws rule: join_with.induct) (auto simp: split_on_fresh split_on_sep)

lemma last_index_None_iff [simp]: "last_index d s = None \<longleftrightarrow> d \<notin> set s"
  by (induction s) (auto split: option.splits)

lemma last_index_append:
  "d \<notin> set t \<Longrightarrow> last_index d (s @ d # t) = Some (length s)"
proof -
  assume fresh: "d \<notin> set t"
  then have "last_index d (d # t) = Some 0" by (simp split: option.splits)
  then show ?thesis by (induction s) simp_all
qed

lemma last_index_Some:
  "last_index d s = Some i \<Longrightarrow> s = take i s @ d # drop (Suc i) s \<and> d \<notin> set (drop (Suc i) s) \<and> i < length s"
proof (induction s arbitrary: i)
  case (Cons c s)
  show ?case
  proof (cases "last_index d s")
    case None
    with Cons.prems show ?thesis by (auto split: if_splits)
  next
    case (Some j)
    with Cons.prems have i: "i = Suc j" by simp
    from Cons.IH [OF Some] have "s = take j s @ d # drop (Suc j) s"
      and "d \<notin> set (drop (Suc j) s)" and "j < length s" by blast+
    with i show ?thesis by simp
  qed
qed simp

lemma starts_with_iff: "starts_with p s \<longleftrightarrow> (\<exists>t. s = p @ t)"
  unfolding starts_with_def by (metis append_eq_conv_conj append_take_drop_id)

lemma ends_with_iff: "ends_with p s \<longleftrightarrow> (\<exists>t. s = t @ p)"
proof -
  have "ends_with p s \<longleftrightarrow> (\<exists>t. rev s = rev p @ t)"
    unfolding ends_with_def
    by (metis append_eq_conv_conj append_take_drop_id length_rev)
  also have "\<dots> \<longleftrightarrow> (\<exists>t. s = t @ p)"
    by (metis rev_append rev_rev_ident)
  finally show ?thesis .
qed

lemma starts_with_char: "starts_with [c] s \<longleftrightarrow> s \<noteq> [] \<and> hd s = c"
  by (cases s) (auto simp: starts_with_def)

lemma ends_with_char: "ends_with [c] s \<longleftrightarrow> s \<noteq> [] \<and> last s = c"
  by (cases s rule: rev_cases) (auto simp: ends_with_def)

lemma has_sub_iff: "has_sub p s \<longleftrightarrow> (\<exists>u v. s = u @ p @ v)"
proof (induction s)
  case (Cons c s)
  show ?case
  proof
    assume "has_sub p (c # s)"
    then consider "starts_with p (c # s)" | "has_sub p s" by auto
    then show "\<exists>u v. c # s = u @ p @ v"
    proof cases
      case 1
      then show ?thesis unfolding starts_with_iff by (metis append_Nil)
    next
      case 2
      with Cons.IH obtain u v where "s = u @ p @ v" by blast
      then have "c # s = (c # u) @ p @ v" by simp
      then show ?thesis by blast
    qed
  next
    assume "\<exists>u v. c # s = u @ p @ v"
    then obtain u v where uv: "c # s = u @ p @ v" by blast
    show "has_sub p (c # s)"
    proof (cases u)
      case Nil
      with uv have "starts_with p (c # s)" by (auto simp: starts_with_iff)
      then show ?thesis by simp
    next
      case (Cons a u')
      with uv have "s = u' @ p @ v" by simp
      with Cons.IH show ?thesis by auto
    qed
  qed
qed auto

lemma has_sub_char: "has_sub [c] s \<longleftrightarrow> c \<in> set s"
  by (auto simp: has_sub_iff in_set_conv_decomp)

lemma fold_invariant: "(\<And>x v. x \<in> set xs \<Longrightarrow> P v \<Longrightarrow> P (f x v)) \<Longrightarrow> P v \<Longrightarrow> P (fold f xs v)"
  by (induction xs arbitrary: v) auto

lemma find_SomeD: "List.find P xs = Some x \<Longrightarrow> x \<in> set xs \<and> P x"
  by (auto simp: find_Some_iff)

lemma find_None_iff_all: "List.find P xs = None \<longleftrightarrow> (\<forall>x \<in> set xs. \<not> P x)"
  by (auto simp: find_None_iff)

subsection \<open>Decimal notation\<close>

lemma is_digit_digit_char [simp]: "d < 10 \<Longrightarrow> is_digit (digit_char d)"
  by (simp add: is_digit_def digit_char_def)

lemma show_nat_digits: "\<forall>c \<in> set (show_nat n). is_digit c"
proof (induction n rule: show_nat.induct)
  case (1 n)
  then show ?case by (cases "n < 10") (auto simp: show_nat.simps [of n])
qed

lemma show_nat_not_Nil [simp]: "show_nat n \<noteq> []"
  by (simp add: show_nat.simps [of n])

lemma digits_val_show_nat: "digits_val (show_nat n) = int n"
proof (induction n rule: show_nat.induct)
  case (1 n)
  show ?case
  proof (cases "n < 10")
    case True
    then show ?thesis by (simp add: show_nat.simps [of n] digits_val_def digit_char_def)
  next
    case False
    with 1 have "digits_val (show_nat n) = 10 * int (n div 10) + int (n mod 10)"
      by (simp add: show_nat.simps [of n] digits_val_def digit_char_def)
    moreover have "int (10 * (n div 10) + n mod 10) = int n" by simp
    ultimately show ?thesis by (simp only: of_nat_add of_nat_mult of_nat_numeral)
  qed
qed

lemma parse_show_nat: "parse_int (show_nat n) = Some (int n)"
proof -
  obtain c t where ct: "show_nat n = c # t" by (cases "show_nat n") auto
  have dig: "\<forall>x \<in> set (c # t). is_digit x" using show_nat_digits [of n] ct by simp
  then have c: "is_digit c" by simp
  have ns: "\<not> is_js_space c" "c \<noteq> CHR ''-''" "c \<noteq> CHR ''+''"
    using c by (auto simp: is_digit_def is_js_space_def)
  have "takeWhile is_digit (c # t) = c # t"
    using dig by (simp add: takeWhile_eq_all_conv)
  then have "parse_digits (c # t) = Some (digits_val (c # t))"
    by (simp add: parse_digits_def)
  with ns show ?thesis
    using digits_val_show_nat [of n] ct by (simp add: parse_int_def trim_start_def)
qed

end
