(* ===== verification/Syntax.thy ===== *)
theory Syntax
  imports Prelude
begin

text \<open>
  \<^verbatim>\<open>src/engine/syntax.ts\<close>: the syntactic check of an e-mail address, with its error
  branches, and an independent grammar of addresses that the check is proved to decide.
  An error message of the code is a constructor of \<open>syntax_error\<close>, with the values the
  message interpolates.
\<close>

subsection \<open>Results\<close>

datatype syntax_error =
    NotAString
  | EmailEmpty
  | EmailTooLong
  | EmailNotAscii
  | NoAtSign
  | MultipleAtSigns
  | NothingBeforeAt
  | NothingAfterAt
  | LocalEmpty
  | LocalTooLong string
  | UnmatchedQuote
  | QuotedLocalEmpty
  | BadEscape
  | UnescapedQuote
  | ControlCharacter nat
  | QuoteOutsideQuoted
  | LocalLeadingDot
  | LocalTrailingDot
  | LocalDoubleDot
  | LocalBadChar "char option"
  | IpLiteral
  | DomainTooLong
  | DomainEmpty
  | DomainNoDot string
  | DomainDoubleDot
  | LabelTooLong string
  | LabelLeadingHyphen string
  | LabelTrailingHyphen string
  | LabelBadChar string "char option"
  | TldTooShort string
  | TldInvalid string

record syntax_result =
  sr_valid :: bool
  sr_reason :: "syntax_error option"

definition fail :: "syntax_error \<Rightarrow> syntax_result" where
  "fail r = \<lparr>sr_valid = False, sr_reason = Some r\<rparr>"

definition syntax_ok :: syntax_result where
  "syntax_ok = \<lparr>sr_valid = True, sr_reason = None\<rparr>"

lemma fail_simps [simp]: "sr_valid (fail r) = False" "sr_reason (fail r) = Some r"
  by (simp_all add: fail_def)

lemma syntax_ok_simps [simp]: "sr_valid syntax_ok = True" "sr_reason syntax_ok = None"
  by (simp_all add: syntax_ok_def)

definition MAX_EMAIL_LENGTH :: nat where "MAX_EMAIL_LENGTH = 254"

definition MAX_LOCAL_LENGTH :: nat where "MAX_LOCAL_LENGTH = 64"

definition MAX_DOMAIN_LENGTH :: nat where "MAX_DOMAIN_LENGTH = 253"

definition MAX_LABEL_LENGTH :: nat where "MAX_LABEL_LENGTH = 63"

lemmas max_lengths = MAX_EMAIL_LENGTH_def MAX_LOCAL_LENGTH_def MAX_DOMAIN_LENGTH_def
  MAX_LABEL_LENGTH_def

abbreviation dquote :: char where "dquote \<equiv> CHR 0x22"

abbreviation backslash :: char where "backslash \<equiv> CHR 0x5C"

subsection \<open>The local part\<close>

definition printable :: "char \<Rightarrow> bool" where
  "printable c \<longleftrightarrow> \<not> (code c < 32 \<or> code c > 126)"

text \<open>The character class of \<open>VALID_LOCAL_RE\<close>; it contains the dot.\<close>

definition local_char :: "char \<Rightarrow> bool" where
  "local_char c \<longleftrightarrow> is_alpha c \<or> is_digit c \<or>
     c \<in> set ''!#$%&*+-/=?^_{|}~.'' \<or> c = CHR 0x27 \<or> c = CHR 0x60"

text \<open>The loop over the characters between the quotes; \<open>i\<close> is the loop index.\<close>

fun scan_quoted :: "nat \<Rightarrow> string \<Rightarrow> syntax_result" where
  "scan_quoted i [] = syntax_ok"
| "scan_quoted i [ch] =
     (if ch = backslash then fail BadEscape
      else if ch = dquote then fail UnescapedQuote
      else if \<not> printable ch then fail (ControlCharacter (i + 1))
      else syntax_ok)"
| "scan_quoted i (ch # n # rest) =
     (if ch = backslash then
        (if \<not> printable n then fail BadEscape else scan_quoted (i + 2) rest)
      else if ch = dquote then fail UnescapedQuote
      else if \<not> printable ch then fail (ControlCharacter (i + 1))
      else scan_quoted (i + 1) (n # rest))"

definition validateLocal :: "string \<Rightarrow> syntax_result" where
  "validateLocal loc =
     (if loc = [] then fail LocalEmpty
      else if length loc > MAX_LOCAL_LENGTH then fail (LocalTooLong loc)
      else if starts_with [dquote] loc then
        (if \<not> ends_with [dquote] loc then fail UnmatchedQuote
         else if length loc \<le> 2 then fail QuotedLocalEmpty
         else scan_quoted 0 (butlast (tl loc)))
      else if has_sub [dquote] loc then fail QuoteOutsideQuoted
      else if starts_with ''.'' loc then fail LocalLeadingDot
      else if ends_with ''.'' loc then fail LocalTrailingDot
      else if has_sub ''..'' loc then fail LocalDoubleDot
      else if \<not> list_all local_char loc
        then fail (LocalBadChar (List.find (\<lambda>c. \<not> local_char c) loc))
      else syntax_ok)"

subsection \<open>The domain part\<close>

definition label_char :: "char \<Rightarrow> bool" where
  "label_char c \<longleftrightarrow> is_alpha c \<or> is_digit c \<or> c = CHR ''-''"

fun check_labels :: "string list \<Rightarrow> syntax_error option" where
  "check_labels [] = None"
| "check_labels (l # ls) =
     (if l = [] then Some DomainDoubleDot
      else if length l > MAX_LABEL_LENGTH then Some (LabelTooLong l)
      else if starts_with ''-'' l then Some (LabelLeadingHyphen l)
      else if ends_with ''-'' l then Some (LabelTrailingHyphen l)
      else if \<not> list_all label_char l
        then Some (LabelBadChar l (List.find (\<lambda>c. \<not> label_char c) l))
      else check_labels ls)"

definition validateDomain :: "string \<Rightarrow> syntax_result" where
  "validateDomain domain =
     (if starts_with ''['' domain \<and> ends_with '']'' domain then fail IpLiteral
      else if length domain > MAX_DOMAIN_LENGTH then fail DomainTooLong
      else
        let normalized = (if ends_with ''.'' domain then butlast domain else domain);
            labels = split_on (CHR ''.'') normalized
        in
          if normalized = [] then fail DomainEmpty
          else if length labels < 2 then fail (DomainNoDot normalized)
          else (case check_labels labels of
                  Some e \<Rightarrow> fail e
                | None \<Rightarrow>
                    let tld = last labels in
                    if length tld < 2 then fail (TldTooShort tld)
                    else if \<not> list_all is_alpha tld then fail (TldInvalid tld)
                    else syntax_ok))"

subsection \<open>The whole address\<close>

text \<open>The argument of \<open>checkSyntax\<close> at run time: a string, or a value of another type.\<close>

datatype js_email = Str string | NonStr

fun checkSyntax :: "js_email \<Rightarrow> syntax_result" where
  "checkSyntax NonStr = fail NotAString"
| "checkSyntax (Str email) =
     (let trimmed = js_trim email;
          atCount = length (filter (\<lambda>c. c = CHR ''@'') trimmed)
      in
        if length trimmed = 0 then fail EmailEmpty
        else if length trimmed > MAX_EMAIL_LENGTH then fail EmailTooLong
        else if \<not> list_all is_ascii trimmed then fail EmailNotAscii
        else if atCount = 0 then fail NoAtSign
        else if atCount > 1 \<and> \<not> starts_with [dquote] trimmed then fail MultipleAtSigns
        else (case last_index (CHR ''@'') trimmed of
                None \<Rightarrow> fail NoAtSign
              | Some atIndex \<Rightarrow>
                  if atIndex = 0 then fail NothingBeforeAt
                  else if atIndex = length trimmed - 1 then fail NothingAfterAt
                  else
                    let loc = take atIndex trimmed;
                        domain = drop (atIndex + 1) trimmed;
                        localResult = validateLocal loc;
                        domainResult = validateDomain domain
                    in if \<not> sr_valid localResult then localResult
                       else if \<not> sr_valid domainResult then domainResult
                       else syntax_ok))"

subsection \<open>A grammar of addresses\<close>

text \<open>Atoms separated by single dots.\<close>

definition atom_char :: "char \<Rightarrow> bool" where
  "atom_char c \<longleftrightarrow> local_char c \<and> c \<noteq> CHR ''.''"

definition dot_atom :: "string \<Rightarrow> bool" where
  "dot_atom s \<longleftrightarrow> (\<exists>as. as \<noteq> [] \<and> (\<forall>a \<in> set as. a \<noteq> [] \<and> list_all atom_char a) \<and>
     s = join_with ''.'' as)"

text \<open>The content of a quoted string: printable characters and escaped pairs.\<close>

inductive quoted_content :: "string \<Rightarrow> bool" where
  qc_Nil: "quoted_content []"
| qc_text: "printable c \<Longrightarrow> c \<noteq> backslash \<Longrightarrow> c \<noteq> dquote \<Longrightarrow> quoted_content s \<Longrightarrow>
    quoted_content (c # s)"
| qc_pair: "printable c \<Longrightarrow> quoted_content s \<Longrightarrow> quoted_content (backslash # c # s)"

inductive_simps quoted_content_Nil: "quoted_content []"

inductive_simps quoted_content_Cons: "quoted_content (c # s)"

definition quoted_string :: "string \<Rightarrow> bool" where
  "quoted_string s \<longleftrightarrow> (\<exists>q. q \<noteq> [] \<and> quoted_content q \<and> s = dquote # q @ [dquote])"

definition host_label :: "string \<Rightarrow> bool" where
  "host_label l \<longleftrightarrow> l \<noteq> [] \<and> length l \<le> MAX_LABEL_LENGTH \<and> list_all label_char l \<and>
     hd l \<noteq> CHR ''-'' \<and> last l \<noteq> CHR ''-''"

definition host_name :: "string \<Rightarrow> bool" where
  "host_name d \<longleftrightarrow> (\<exists>ls. length ls \<ge> 2 \<and> (\<forall>l \<in> set ls. host_label l) \<and>
     length (last ls) \<ge> 2 \<and> list_all is_alpha (last ls) \<and>
     (d = join_with ''.'' ls \<or> d = join_with ''.'' ls @ ''.'')) \<and>
     length d \<le> MAX_DOMAIN_LENGTH"

definition address :: "string \<Rightarrow> bool" where
  "address s \<longleftrightarrow> (\<exists>l d. s = l @ CHR ''@'' # d \<and> (dot_atom l \<or> quoted_string l) \<and>
     length l \<le> MAX_LOCAL_LENGTH \<and> host_name d \<and> length s \<le> MAX_EMAIL_LENGTH)"

subsection \<open>Splitting at a separator\<close>

lemma hd_split_on: "hd (split_on d s) \<noteq> [] \<longleftrightarrow> s \<noteq> [] \<and> hd s \<noteq> d"
  by (cases s) (auto split: list.splits)

lemma has_sub_pair: "has_sub [d, d] (c # s) \<longleftrightarrow> c = d \<and> s \<noteq> [] \<and> hd s = d \<or> has_sub [d, d] s"
  by (cases s) (auto simp: starts_with_def)

lemma tl_split_on:
  "(\<forall>w \<in> set (tl (split_on d s)). w \<noteq> []) \<longleftrightarrow> (s = [] \<or> last s \<noteq> d) \<and> \<not> has_sub [d, d] s"
proof (induction s)
  case (Cons c s)
  obtain w ws where sp: "split_on d s = w # ws"
    by (cases "split_on d s") auto
  show ?case
  proof (cases "c = d")
    case False
    with Cons sp show ?thesis by (simp add: has_sub_pair del: has_sub.simps)
  next
    case True
    have "(\<forall>v \<in> set (tl (split_on d (c # s))). v \<noteq> []) \<longleftrightarrow> hd (split_on d s) \<noteq> [] \<and>
        (\<forall>v \<in> set (tl (split_on d s)). v \<noteq> [])"
      using True sp by simp
    with True Cons show ?thesis by (auto simp: hd_split_on has_sub_pair simp del: has_sub.simps)
  qed
qed simp

lemma split_on_nonempty_parts:
  "(\<forall>w \<in> set (split_on d s). w \<noteq> []) \<longleftrightarrow>
     s \<noteq> [] \<and> hd s \<noteq> d \<and> last s \<noteq> d \<and> \<not> has_sub [d, d] s"
proof -
  have "(\<forall>w \<in> set (split_on d s). w \<noteq> []) \<longleftrightarrow> hd (split_on d s) \<noteq> [] \<and>
      (\<forall>w \<in> set (tl (split_on d s)). w \<noteq> [])"
    by (cases "split_on d s") auto
  then show ?thesis by (auto simp: hd_split_on tl_split_on)
qed

lemma split_on_all:
  "(\<forall>w \<in> set (split_on d s). list_all (\<lambda>c. P c \<and> c \<noteq> d) w) \<longleftrightarrow> list_all (\<lambda>c. P c \<or> c = d) s"
proof (induction s)
  case (Cons c s)
  obtain w ws where "split_on d s = w # ws"
    by (cases "split_on d s") auto
  with Cons show ?case by auto
qed simp

lemma last_join_with:
  "ws \<noteq> [] \<Longrightarrow> last ws \<noteq> [] \<Longrightarrow> join_with sep ws \<noteq> [] \<and> last (join_with sep ws) = last (last ws)"
  by (induction sep ws rule: join_with.induct) auto

lemma hd_join_with:
  "ws \<noteq> [] \<Longrightarrow> hd ws \<noteq> [] \<Longrightarrow> hd (join_with sep ws) = hd (hd ws)"
  by (induction sep ws rule: join_with.induct) auto

subsection \<open>The local part is decided\<close>

lemma scan_quoted_iff: "sr_valid (scan_quoted i s) \<longleftrightarrow> quoted_content s"
  by (induction i s rule: scan_quoted.induct)
    (auto simp: quoted_content_Nil quoted_content_Cons printable_def)

lemma local_char_dot: "local_char (CHR ''.'')" and local_char_dquote: "\<not> local_char dquote"
  by (simp_all add: local_char_def is_alpha_def is_digit_def)

lemma dot_atom_iff:
  "dot_atom s \<longleftrightarrow> s \<noteq> [] \<and> hd s \<noteq> CHR ''.'' \<and> last s \<noteq> CHR ''.'' \<and>
     \<not> has_sub ''..'' s \<and> list_all local_char s"
proof -
  let ?sp = "split_on (CHR ''.'') s"
  have "dot_atom s \<longleftrightarrow> (\<forall>w \<in> set ?sp. w \<noteq> [] \<and> list_all atom_char w)"
  proof
    assume "dot_atom s"
    then obtain as where as: "as \<noteq> []" "\<forall>a \<in> set as. a \<noteq> [] \<and> list_all atom_char a"
      and s: "s = join_with ''.'' as"
      by (auto simp: dot_atom_def)
    have "\<forall>a \<in> set as. CHR ''.'' \<notin> set a"
      using as(2) by (auto simp: atom_char_def list_all_iff)
    with as(1) s have "?sp = as" by (simp add: split_join)
    with as show "\<forall>w \<in> set ?sp. w \<noteq> [] \<and> list_all atom_char w" by simp
  next
    assume "\<forall>w \<in> set ?sp. w \<noteq> [] \<and> list_all atom_char w"
    moreover have "s = join_with ''.'' ?sp" by simp
    ultimately show "dot_atom s" unfolding dot_atom_def by (metis split_on_not_Nil)
  qed
  also have "\<dots> \<longleftrightarrow> (\<forall>w \<in> set ?sp. w \<noteq> []) \<and>
      (\<forall>w \<in> set ?sp. list_all (\<lambda>c. local_char c \<and> c \<noteq> CHR ''.'') w)"
    by (auto simp: atom_char_def [abs_def])
  also have "\<dots> \<longleftrightarrow> (s \<noteq> [] \<and> hd s \<noteq> CHR ''.'' \<and> last s \<noteq> CHR ''.'' \<and> \<not> has_sub ''..'' s) \<and>
      list_all (\<lambda>c. local_char c \<or> c = CHR ''.'') s"
    unfolding split_on_nonempty_parts split_on_all by (rule refl)
  also have "(\<lambda>c. local_char c \<or> c = CHR ''.'') = local_char"
    using local_char_dot by auto
  finally show ?thesis by blast
qed

lemma quoted_string_iff:
  "quoted_string s \<longleftrightarrow> starts_with [dquote] s \<and> ends_with [dquote] s \<and> length s > 2 \<and>
     quoted_content (butlast (tl s))"
proof
  assume "quoted_string s"
  then show "starts_with [dquote] s \<and> ends_with [dquote] s \<and> length s > 2 \<and>
      quoted_content (butlast (tl s))"
    by (auto simp: quoted_string_def starts_with_char ends_with_char neq_Nil_conv)
next
  assume r: "starts_with [dquote] s \<and> ends_with [dquote] s \<and> length s > 2 \<and>
      quoted_content (butlast (tl s))"
  then obtain t where s: "s = dquote # t" and "length t > 1" and "last t = dquote"
    by (cases s) (auto simp: starts_with_char ends_with_char split: if_splits)
  then have "t = butlast t @ [dquote]" "butlast t \<noteq> []"
    by (cases t rule: rev_cases; simp)+
  with r s show "quoted_string s" unfolding quoted_string_def by (metis list.sel(3))
qed

lemma validateLocal_iff:
  "sr_valid (validateLocal l) \<longleftrightarrow> length l \<le> MAX_LOCAL_LENGTH \<and> (dot_atom l \<or> quoted_string l)"
proof (cases "starts_with [dquote] l")
  case True
  then have "\<not> dot_atom l"
    using local_char_dquote by (cases l) (auto simp: dot_atom_iff starts_with_char)
  with True show ?thesis
    by (auto simp: validateLocal_def quoted_string_iff scan_quoted_iff starts_with_char)
next
  case False
  have nq: "list_all local_char l \<Longrightarrow> \<not> has_sub [dquote] l"
    using local_char_dquote by (auto simp: has_sub_char list_all_iff)
  have "\<not> quoted_string l" using False by (simp add: quoted_string_iff)
  with False nq show ?thesis
    by (auto simp: validateLocal_def dot_atom_iff starts_with_char ends_with_char)
qed

subsection \<open>The domain part is decided\<close>

lemma check_labels_None_iff: "check_labels ls = None \<longleftrightarrow> (\<forall>l \<in> set ls. host_label l)"
  by (induction ls) (auto simp: host_label_def starts_with_char ends_with_char)

lemma host_label_no_dot: "host_label l \<Longrightarrow> CHR ''.'' \<notin> set l"
  by (auto simp: host_label_def list_all_iff label_char_def is_alpha_def is_digit_def)

lemma label_char_not_bracket: "\<not> label_char (CHR ''['')"
  by (simp add: label_char_def is_alpha_def is_digit_def)

text \<open>The labels of a host name, read off the text without its final dot.\<close>

definition strip_dot :: "string \<Rightarrow> string" where
  "strip_dot d = (if ends_with ''.'' d then butlast d else d)"

lemma strip_dot_join:
  assumes "ls \<noteq> []" and "\<forall>l \<in> set ls. host_label l"
    and "d = join_with ''.'' ls \<or> d = join_with ''.'' ls @ ''.''"
  shows "split_on (CHR ''.'') (strip_dot d) = ls"
proof -
  have "last ls \<noteq> []" "CHR ''.'' \<notin> set (last ls)"
    using assms(1,2) host_label_no_dot by (auto simp: host_label_def)
  then have "last (join_with ''.'' ls) \<noteq> CHR ''.''"
    using last_join_with [OF assms(1), of "''.''"] by (metis last_in_set)
  then have "strip_dot d = join_with ''.'' ls"
    using assms(3) by (auto simp: strip_dot_def ends_with_char)
  then show ?thesis using assms(1,2) by (simp add: split_join host_label_no_dot)
qed

lemma strip_dot_cases: "d = strip_dot d \<or> d = strip_dot d @ ''.''"
  by (cases d rule: rev_cases) (auto simp: strip_dot_def ends_with_char)

lemma host_name_iff:
  "host_name d \<longleftrightarrow> (let ls = split_on (CHR ''.'') (strip_dot d) in
     length ls \<ge> 2 \<and> (\<forall>l \<in> set ls. host_label l) \<and> length (last ls) \<ge> 2 \<and>
     list_all is_alpha (last ls)) \<and> length d \<le> MAX_DOMAIN_LENGTH"
  (is "_ \<longleftrightarrow> ?R \<and> _")
proof -
  have "?R" if h: "length ls \<ge> 2" "\<forall>l \<in> set ls. host_label l" "length (last ls) \<ge> 2"
    "list_all is_alpha (last ls)" "d = join_with ''.'' ls \<or> d = join_with ''.'' ls @ ''.''" for ls
  proof -
    from h(1) have "ls \<noteq> []" by auto
    then have "split_on (CHR ''.'') (strip_dot d) = ls" using h(2,5) by (rule strip_dot_join)
    with h show ?thesis by (simp add: Let_def)
  qed
  moreover have "\<exists>ls. length ls \<ge> 2 \<and> (\<forall>l \<in> set ls. host_label l) \<and> length (last ls) \<ge> 2 \<and>
     list_all is_alpha (last ls) \<and> (d = join_with ''.'' ls \<or> d = join_with ''.'' ls @ ''.'')" if ?R
  proof -
    have "strip_dot d = join_with ''.'' (split_on (CHR ''.'') (strip_dot d))" by simp
    with that strip_dot_cases [of d] show ?thesis by (auto simp: Let_def)
  qed
  ultimately show ?thesis unfolding host_name_def by blast
qed

lemma host_name_not_literal: "host_name d \<Longrightarrow> \<not> starts_with ''['' d"
proof
  assume h: "host_name d" and b: "starts_with ''['' d"
  from h obtain ls where ls: "length ls \<ge> 2" "\<forall>l \<in> set ls. host_label l"
    and d: "d = join_with ''.'' ls \<or> d = join_with ''.'' ls @ ''.''"
    by (auto simp: host_name_def)
  then obtain l r where lr: "ls = l # r" by (cases ls) auto
  with ls have l: "host_label l" by simp
  then have "hd (join_with ''.'' ls) = hd l" "join_with ''.'' ls \<noteq> []"
    using lr hd_join_with [of ls "''.''"] by (cases r, auto simp: host_label_def)+
  with d b have "hd l = CHR ''[''" by (auto simp: starts_with_char)
  moreover have "label_char (hd l)" using l by (cases l) (auto simp: host_label_def)
  ultimately show False using label_char_not_bracket by simp
qed

lemma validateDomain_iff: "sr_valid (validateDomain d) \<longleftrightarrow> host_name d"
proof (cases "starts_with ''['' d \<and> ends_with '']'' d")
  case True
  then show ?thesis using host_name_not_literal [of d] by (auto simp: validateDomain_def)
next
  case False
  have one: "length (split_on (CHR ''.'') []) = 1" by simp
  have lens: "\<not> length ls < 2 \<Longrightarrow> ls \<noteq> []" for ls :: "string list" by auto
  from False show ?thesis
    unfolding validateDomain_def strip_dot_def [symmetric] host_name_iff
    using check_labels_None_iff [of "split_on (CHR ''.'') (strip_dot d)"]
    by (auto simp: Let_def split: option.split)
qed

subsection \<open>The whole address is decided\<close>

lemma is_ascii_classes:
  "local_char c \<Longrightarrow> is_ascii c" "label_char c \<Longrightarrow> is_ascii c" "printable c \<Longrightarrow> is_ascii c"
  by (auto simp: local_char_def label_char_def printable_def is_alpha_def is_digit_def is_ascii_def)

lemma quoted_content_ascii: "quoted_content s \<Longrightarrow> list_all is_ascii s"
  by (induction rule: quoted_content.induct)
    (auto intro: is_ascii_classes simp: is_ascii_def [of backslash])

lemma local_ascii: "dot_atom l \<or> quoted_string l \<Longrightarrow> list_all is_ascii l"
proof (erule disjE)
  show "dot_atom l \<Longrightarrow> list_all is_ascii l"
    by (auto simp: dot_atom_iff list_all_iff intro: is_ascii_classes)
  show "quoted_string l \<Longrightarrow> list_all is_ascii l"
    by (auto simp: quoted_string_def is_ascii_def dest: quoted_content_ascii)
qed

lemma set_join_with: "set (join_with sep ws) \<subseteq> (\<Union>w \<in> set ws. set w) \<union> set sep"
  by (induction sep ws rule: join_with.induct) auto

lemma host_name_chars: "host_name d \<Longrightarrow> c \<in> set d \<Longrightarrow> label_char c \<or> c = CHR ''.''"
proof -
  assume "host_name d" and c: "c \<in> set d"
  then obtain ls where ls: "\<forall>l \<in> set ls. host_label l"
    and d: "d = join_with ''.'' ls \<or> d = join_with ''.'' ls @ ''.''"
    by (auto simp: host_name_def)
  from c d have "c \<in> set (join_with ''.'' ls) \<or> c = CHR ''.''" by auto
  then have "(\<exists>l \<in> set ls. c \<in> set l) \<or> c = CHR ''.''"
    using set_join_with [of "''.''" ls] by auto
  with ls show ?thesis by (auto simp: host_label_def list_all_iff)
qed

lemma host_name_ascii: "host_name d \<Longrightarrow> list_all is_ascii d"
  by (auto simp: list_all_iff is_ascii_def [of "CHR ''.''"] dest!: host_name_chars
      intro: is_ascii_classes)

lemma host_name_no_at: "host_name d \<Longrightarrow> CHR ''@'' \<notin> set d"
  by (auto dest: host_name_chars simp: label_char_def is_alpha_def is_digit_def)

lemma dot_atom_no_at: "dot_atom l \<Longrightarrow> CHR ''@'' \<notin> set l"
  by (auto simp: dot_atom_iff list_all_iff local_char_def is_alpha_def is_digit_def)

lemma count_at: "CHR ''@'' \<notin> set l \<Longrightarrow> CHR ''@'' \<notin> set d \<Longrightarrow>
    length (filter (\<lambda>c. c = CHR ''@'') (l @ CHR ''@'' # d)) = 1"
  by (auto simp: filter_empty_conv)

lemma address_accepted:
  assumes "address t" and "js_trim e = t"
  shows "sr_valid (checkSyntax (Str e))"
proof -
  from assms(1) obtain l d where t: "t = l @ CHR ''@'' # d" and l: "dot_atom l \<or> quoted_string l"
    and ll: "length l \<le> MAX_LOCAL_LENGTH" and d: "host_name d" and tl: "length t \<le> MAX_EMAIL_LENGTH"
    unfolding address_def by blast
  have vl: "sr_valid (validateLocal l)" and vd: "sr_valid (validateDomain d)"
    using l ll d by (simp_all add: validateLocal_iff validateDomain_iff)
  have l0: "l \<noteq> []" using l by (auto simp: dot_atom_iff quoted_string_def)
  have d0: "d \<noteq> []" using vd by (auto simp: validateDomain_def Let_def ends_with_def)
  have asc: "list_all is_ascii t"
    using local_ascii [OF l] host_name_ascii [OF d] t by (simp add: is_ascii_def)
  have idx: "last_index (CHR ''@'') t = Some (length l)"
    using host_name_no_at [OF d] t by (simp add: last_index_append)
  have quo: "starts_with [dquote] t" if "CHR ''@'' \<in> set l"
  proof -
    have "quoted_string l" using that l dot_atom_no_at by blast
    then show ?thesis using t by (auto simp: quoted_string_def starts_with_char)
  qed
  have cnt: "length (filter (\<lambda>c. c = CHR ''@'') t) \<noteq> 0" using t by simp
  have one: "length (filter (\<lambda>c. c = CHR ''@'') t) > 1 \<Longrightarrow> starts_with [dquote] t"
    using quo count_at [of l d] host_name_no_at [OF d] t by fastforce
  from vl vd l0 d0 asc idx cnt one tl t show ?thesis
    by (auto simp: assms(2) Let_def)
qed

lemma accepted_address:
  assumes "sr_valid (checkSyntax (Str e))"
  shows "address (js_trim e)"
proof -
  let ?t = "js_trim e"
  have len: "length ?t \<le> MAX_EMAIL_LENGTH"
    using assms by (auto simp: Let_def not_less split: if_splits)
  obtain i where i: "last_index (CHR ''@'') ?t = Some i"
    and vl: "sr_valid (validateLocal (take i ?t))"
    and vd: "sr_valid (validateDomain (drop (i + 1) ?t))"
    using assms by (auto simp: Let_def split: if_splits option.splits)
  have "?t = take i ?t @ CHR ''@'' # drop (i + 1) ?t"
    using last_index_Some [OF i] by simp
  with vl vd len show ?thesis
    unfolding address_def validateLocal_iff validateDomain_iff by blast
qed

text \<open>C1: the check accepts exactly the strings that are, after trimming, addresses of the
  grammar: a dot-atom or a quoted string of at most 64 characters, one at sign, and a host
  name of at most 253 characters whose labels are well formed and whose last label is
  alphabetic, in at most 254 characters.\<close>

theorem checkSyntax_decides_address: "sr_valid (checkSyntax (Str e)) = address (js_trim e)"
  using address_accepted [of "js_trim e" e] accepted_address [of e] by blast

declare checkSyntax.simps [simp del]

end
