(* ===== verification/Domain.thy ===== *)
theory Domain
  imports Prelude
begin

text \<open>
  \<^verbatim>\<open>src/engine/domain.ts\<close>: taking an address apart and reducing a domain to its
  registrable part. A thrown \<open>Error\<close> is \<open>Inl\<close> with the address it names.
\<close>

text \<open>\<open>domain.trim().toLowerCase().replace(/\.$/, '')\<close>\<close>

definition normalizeDomain :: "string \<Rightarrow> string" where
  "normalizeDomain domain =
     (let d = js_lower (js_trim domain) in if ends_with ''.'' d then butlast d else d)"

definition extractDomain :: "string \<Rightarrow> string + string" where
  "extractDomain email =
     (case last_index (CHR ''@'') email of
        None \<Rightarrow> Inl email
      | Some atIndex \<Rightarrow> Inr (normalizeDomain (drop (atIndex + 1) email)))"

definition extractLocal :: "string \<Rightarrow> string + string" where
  "extractLocal email =
     (case last_index (CHR ''@'') email of
        None \<Rightarrow> Inl email
      | Some atIndex \<Rightarrow> Inr (js_lower (take atIndex email)))"

definition KNOWN_TWO_PART_TLDS :: "string list" where
  "KNOWN_TWO_PART_TLDS =
    [''co.uk'', ''me.uk'', ''org.uk'', ''ltd.uk'', ''plc.uk'', ''net.uk'', ''sch.uk'',
     ''ac.uk'', ''gov.uk'', ''nhs.uk'', ''police.uk'', ''mod.uk'',
     ''com.au'', ''net.au'', ''org.au'', ''edu.au'', ''gov.au'', ''asn.au'', ''id.au'',
     ''com.br'', ''net.br'', ''org.br'', ''gov.br'', ''edu.br'', ''mil.br'',
     ''co.in'', ''net.in'', ''org.in'', ''gov.in'', ''ac.in'', ''nic.in'',
     ''co.jp'', ''ne.jp'', ''or.jp'', ''ac.jp'', ''go.jp'', ''ad.jp'', ''ed.jp'',
     ''co.nz'', ''net.nz'', ''org.nz'', ''govt.nz'', ''ac.nz'', ''school.nz'',
     ''co.za'', ''net.za'', ''org.za'', ''gov.za'', ''ac.za'', ''web.za'',
     ''com.sg'', ''net.sg'', ''org.sg'', ''gov.sg'', ''edu.sg'',
     ''com.hk'', ''net.hk'', ''org.hk'', ''gov.hk'', ''edu.hk'', ''idv.hk'',
     ''com.ar'', ''net.ar'', ''org.ar'', ''gov.ar'', ''edu.ar'',
     ''com.mx'', ''net.mx'', ''org.mx'', ''gob.mx'', ''edu.mx'',
     ''co.ke'', ''net.ke'', ''org.ke'', ''go.ke'', ''ac.ke'',
     ''co.tz'', ''net.tz'', ''org.tz'', ''go.tz'', ''ac.tz'',
     ''com.pk'', ''net.pk'', ''org.pk'', ''gov.pk'', ''edu.pk'',
     ''com.co'', ''net.co'', ''org.co'', ''gov.co'', ''edu.co'']"

definition getRegistrableDomain :: "string \<Rightarrow> string" where
  "getRegistrableDomain domain =
     (let normalized = normalizeDomain domain;
          labels = split_on (CHR ''.'') normalized
      in if length labels \<le> 2 then normalized
         else let lastTwo = join_with ''.'' (slice_last 2 labels) in
           if lastTwo \<in> set KNOWN_TWO_PART_TLDS then
             (if length labels \<ge> 3 then join_with ''.'' (slice_last 3 labels) else normalized)
           else join_with ''.'' (slice_last 2 labels))"

definition getSmtpDomain :: "string \<Rightarrow> string" where
  "getSmtpDomain domain = getRegistrableDomain domain"

end
