(* ===== verification/Regex.thy ===== *)
theory Regex
  imports Prelude
begin

text \<open>
  The fragment of ECMAScript regular expressions that the code's \<open>RegExp.test\<close> calls use,
  and an executable matcher. \<open>ends r s i\<close> lists the positions where a match of \<open>r\<close> that
  starts at position \<open>i\<close> of \<open>s\<close> can end. \<open>test_ci\<close> asks whether some start position
  has a match, so the order in which a backtracking engine finds matches does not matter.
  Every modelled pattern is written in lower case and carries the \<open>i\<close> flag, which
  \<open>test_ci\<close> renders by lowering the ASCII letters of the subject.
\<close>

datatype regex =
    Lit string
  | OneOf string
  | AnyChar
  | Then regex regex
  | Or regex regex
  | Opt regex
  | Bol
  | Eol
  | WordB

definition ascii_lower :: "char \<Rightarrow> char" where
  "ascii_lower c = (if 65 \<le> code c \<and> code c \<le> 90 then char_of (code c + 32) else c)"

definition is_word :: "char \<Rightarrow> bool" where
  "is_word c \<longleftrightarrow> is_alpha c \<or> is_digit c \<or> c = CHR ''_''"

definition word_at :: "string \<Rightarrow> nat \<Rightarrow> bool" where
  "word_at s i \<longleftrightarrow> i < length s \<and> is_word (s ! i)"

definition word_boundary :: "string \<Rightarrow> nat \<Rightarrow> bool" where
  "word_boundary s i \<longleftrightarrow> (i > 0 \<and> word_at s (i - 1)) \<noteq> word_at s i"

fun ends :: "regex \<Rightarrow> string \<Rightarrow> nat \<Rightarrow> nat list" where
  "ends (Lit w) s i = (if take (length w) (drop i s) = w then [i + length w] else [])"
| "ends (OneOf cs) s i = (if i < length s \<and> s ! i \<in> set cs then [i + 1] else [])"
| "ends AnyChar s i = (if i < length s \<and> code (s ! i) \<notin> {10, 13} then [i + 1] else [])"
| "ends (Then r q) s i = concat (map (ends q s) (ends r s i))"
| "ends (Or r q) s i = ends r s i @ ends q s i"
| "ends (Opt r) s i = i # ends r s i"
| "ends Bol s i = (if i = 0 then [i] else [])"
| "ends Eol s i = (if i = length s then [i] else [])"
| "ends WordB s i = (if word_boundary s i then [i] else [])"

text \<open>\<open>/r/i.test(s)\<close>; the patterns are written in lower case.\<close>

definition test_ci :: "regex \<Rightarrow> string \<Rightarrow> bool" where
  "test_ci r s = (let t = map ascii_lower s in list_ex (\<lambda>i. ends r t i \<noteq> []) [0..<Suc (length t)])"

fun alternatives :: "string list \<Rightarrow> regex" where
  "alternatives [] = OneOf []"
| "alternatives [w] = Lit w"
| "alternatives (w # v # ws) = Or (Lit w) (alternatives (v # ws))"

text \<open>The matcher against the declarative meaning of a pattern: \<open>matches r s i j\<close> says that
  \<open>r\<close> matches the part of \<open>s\<close> from position \<open>i\<close> to position \<open>j\<close>.\<close>

inductive matches :: "regex \<Rightarrow> string \<Rightarrow> nat \<Rightarrow> nat \<Rightarrow> bool" where
  m_lit: "s = u @ w @ v \<Longrightarrow> i = length u \<Longrightarrow> j = length u + length w \<Longrightarrow> matches (Lit w) s i j"
| m_one: "i < length s \<Longrightarrow> s ! i \<in> set cs \<Longrightarrow> matches (OneOf cs) s i (i + 1)"
| m_any: "i < length s \<Longrightarrow> code (s ! i) \<notin> {10, 13} \<Longrightarrow> matches AnyChar s i (i + 1)"
| m_then: "matches r s i k \<Longrightarrow> matches q s k j \<Longrightarrow> matches (Then r q) s i j"
| m_left: "matches r s i j \<Longrightarrow> matches (Or r q) s i j"
| m_right: "matches q s i j \<Longrightarrow> matches (Or r q) s i j"
| m_skip: "matches (Opt r) s i i"
| m_take: "matches r s i j \<Longrightarrow> matches (Opt r) s i j"
| m_bol: "matches Bol s 0 0"
| m_eol: "matches Eol s (length s) (length s)"
| m_wordb: "word_boundary s i \<Longrightarrow> matches WordB s i i"

inductive_cases matches_LitE: "matches (Lit w) s i j"
inductive_cases matches_OneOfE: "matches (OneOf cs) s i j"
inductive_cases matches_AnyCharE: "matches AnyChar s i j"
inductive_cases matches_ThenE: "matches (Then r q) s i j"
inductive_cases matches_OrE: "matches (Or r q) s i j"
inductive_cases matches_OptE: "matches (Opt r) s i j"
inductive_cases matches_BolE: "matches Bol s i j"
inductive_cases matches_EolE: "matches Eol s i j"
inductive_cases matches_WordBE: "matches WordB s i j"

lemmas matches_elims = matches_LitE matches_OneOfE matches_AnyCharE matches_ThenE matches_OrE
  matches_OptE matches_BolE matches_EolE matches_WordBE

lemma ends_sound: "i \<le> length s \<Longrightarrow> j \<in> set (ends r s i) \<Longrightarrow> matches r s i j \<and> j \<le> length s"
proof (induction r arbitrary: i j)
  case (Lit w)
  then have tk: "take (length w) (drop i s) = w" and j: "j = i + length w"
    by (auto split: if_splits)
  define u v where "u = take i s" and "v = drop (length w) (drop i s)"
  have "s = u @ w @ v" unfolding u_def v_def by (metis tk append_take_drop_id)
  moreover have "length u = i" using Lit.prems(1) by (simp add: u_def)
  ultimately show ?case using j m_lit [of s u w v i j] by simp
next
  case (OneOf cs)
  then show ?case using m_one [of i s cs] by (auto split: if_splits)
next
  case AnyChar
  then show ?case using m_any [of i s] by (auto split: if_splits)
next
  case (Then r q)
  from Then.prems(2) obtain k where k: "k \<in> set (ends r s i)" "j \<in> set (ends q s k)" by auto
  from Then.IH(1) [OF Then.prems(1) k(1)] have r: "matches r s i k" "k \<le> length s" by auto
  from Then.IH(2) [OF r(2) k(2)] r(1) show ?case by (blast intro: m_then)
next
  case (Or r q)
  from Or.IH(1) [OF Or.prems(1)] Or.IH(2) [OF Or.prems(1)] Or.prems(2) show ?case
    by (auto intro: m_left m_right)
next
  case (Opt r)
  from Opt.IH [OF Opt.prems(1)] Opt.prems show ?case
    by (auto intro: m_skip m_take)
next
  case Bol
  then show ?case using m_bol [of s] by (simp split: if_splits)
next
  case Eol
  then show ?case using m_eol [of s] by (simp split: if_splits)
next
  case WordB
  then show ?case using m_wordb [of s i] by (simp split: if_splits)
qed

lemma ends_complete: "matches r s i j \<Longrightarrow> j \<in> set (ends r s i)"
  by (induction rule: matches.induct) auto

lemma ends_iff: "i \<le> length s \<Longrightarrow> j \<in> set (ends r s i) \<longleftrightarrow> matches r s i j"
  using ends_sound ends_complete by blast

lemma test_ci_iff: "test_ci r s \<longleftrightarrow> (\<exists>i j. i \<le> length s \<and> matches r (map ascii_lower s) i j)"
proof -
  let ?t = "map ascii_lower s"
  have "test_ci r s \<longleftrightarrow> (\<exists>i \<le> length ?t. \<exists>j. j \<in> set (ends r ?t i))"
    by (auto simp: test_ci_def Let_def list_ex_iff less_Suc_eq_le ex_in_conv simp del: upt_Suc)
  also have "\<dots> \<longleftrightarrow> (\<exists>i \<le> length ?t. \<exists>j. matches r ?t i j)"
    by (intro ex_cong1 conj_cong refl ends_iff)
  finally show ?thesis by auto
qed

lemma ascii_lower_idem [simp]: "ascii_lower (ascii_lower c) = ascii_lower c"
  by (auto simp: ascii_lower_def)

lemma ascii_lower_js_lower [simp]: "map ascii_lower (js_lower s) = js_lower s"
proof -
  have "ascii_lower (lower_char c) = lower_char c" for c
    by (auto simp: ascii_lower_def lower_char_def Let_def)
  then show ?thesis by (simp add: js_lower_def)
qed

lemma test_ci_lit: "test_ci (Lit w) s \<longleftrightarrow> has_sub w (map ascii_lower s)"
proof -
  have sub: "has_sub w t \<longleftrightarrow> (\<exists>i < Suc (length t). take (length w) (drop i t) = w)" for t
  proof
    assume "has_sub w t"
    then obtain u v where t: "t = u @ w @ v" by (auto simp: has_sub_iff)
    then have "take (length w) (drop (length u) t) = w" "length u < Suc (length t)" by simp_all
    then show "\<exists>i < Suc (length t). take (length w) (drop i t) = w" by blast
  next
    assume "\<exists>i < Suc (length t). take (length w) (drop i t) = w"
    then obtain i where i: "take (length w) (drop i t) = w" by blast
    have "t = take i t @ w @ drop (length w) (drop i t)"
      by (metis i append_take_drop_id)
    then show "has_sub w t" by (auto simp: has_sub_iff)
  qed
  have ex: "list_ex P [0..<Suc n] \<longleftrightarrow> (\<exists>i < Suc n. P i)" for P n
    by (simp add: list_ex_iff Bex_def del: upt_Suc)
  have "test_ci (Lit w) s \<longleftrightarrow>
      (\<exists>i < Suc (length (map ascii_lower s)). ends (Lit w) (map ascii_lower s) i \<noteq> [])"
    unfolding test_ci_def Let_def ex by (rule refl)
  also have "\<dots> \<longleftrightarrow> has_sub w (map ascii_lower s)"
    unfolding sub ends.simps by auto
  finally show ?thesis .
qed

end
