(* ===== verification/Disposable.thy ===== *)
theory Disposable
  imports Domain Regex
begin

text \<open>
  \<^verbatim>\<open>src/engine/disposable.ts\<close>: the disposable-domain blocklist. The module's three
  variables are a record; the file on disk is a parameter of the operations that read it.
\<close>

text \<open>What the read of \<open>BLOCKLIST_PATH\<close> yields: no such file, an exception, or the text.\<close>

datatype blocklist_file = FileMissing | ReadError | FileText string

record disposable_state =
  domainSet :: "string set option"
  wildcardSet :: "string set option"
  loadAttempted :: bool

definition disposable_init :: disposable_state where
  "disposable_init = \<lparr>domainSet = None, wildcardSet = None, loadAttempted = False\<rparr>"

text \<open>One line of the file: \<open>Inl\<close> an exact entry, \<open>Inr\<close> a wildcard without its prefix.\<close>

definition parse_line :: "string \<Rightarrow> (string + string) option" where
  "parse_line rawLine =
     (let line = js_lower (js_trim rawLine) in
      if length line = 0 \<or> starts_with ''#'' line then None
      else if starts_with ''*.'' line then Some (Inr (drop 2 line))
      else Some (Inl line))"

fun parse_lines :: "string list \<Rightarrow> string set \<Rightarrow> string set \<Rightarrow> string set \<times> string set" where
  "parse_lines [] exact wildcard = (exact, wildcard)"
| "parse_lines (l # ls) exact wildcard =
     (case parse_line l of
        None \<Rightarrow> parse_lines ls exact wildcard
      | Some (Inr w) \<Rightarrow> parse_lines ls exact (insert w wildcard)
      | Some (Inl e) \<Rightarrow> parse_lines ls (insert e exact) wildcard)"

definition newline :: char where "newline = CHR 0x0A"

fun readBlocklistFromDisk :: "blocklist_file \<Rightarrow> disposable_state \<Rightarrow> disposable_state" where
  "readBlocklistFromDisk FileMissing st = st\<lparr>domainSet := Some {}, wildcardSet := Some {}\<rparr>"
| "readBlocklistFromDisk ReadError st = st\<lparr>domainSet := Some {}, wildcardSet := Some {}\<rparr>"
| "readBlocklistFromDisk (FileText raw) st =
     (let (exact, wildcard) = parse_lines (split_on newline raw) {} {}
      in st\<lparr>domainSet := Some exact, wildcardSet := Some wildcard\<rparr>)"

definition loadDisposableList :: "blocklist_file \<Rightarrow> disposable_state \<Rightarrow> disposable_state" where
  "loadDisposableList f st =
     (if loadAttempted st then st else readBlocklistFromDisk f (st\<lparr>loadAttempted := True\<rparr>))"

definition reloadDisposableList :: "blocklist_file \<Rightarrow> disposable_state \<Rightarrow> disposable_state" where
  "reloadDisposableList f st = readBlocklistFromDisk f st"

definition getExactSet :: "blocklist_file \<Rightarrow> disposable_state \<Rightarrow> string set \<times> disposable_state" where
  "getExactSet f st =
     (let st' = (if domainSet st = None then loadDisposableList f st else st)
      in (or_else (domainSet st') {}, st'))"

definition getWildcardSet :: "blocklist_file \<Rightarrow> disposable_state \<Rightarrow> string set \<times> disposable_state" where
  "getWildcardSet f st =
     (let st' = (if wildcardSet st = None then loadDisposableList f st else st)
      in (or_else (wildcardSet st') {}, st'))"

text \<open>The suffixes the wildcard loop tries: \<open>labels.slice(i)\<close> for \<open>i = 1, 2, ...\<close>\<close>

fun label_suffixes :: "string list \<Rightarrow> string list" where
  "label_suffixes [] = []"
| "label_suffixes [l] = []"
| "label_suffixes (l # m # ls) = join_with ''.'' (m # ls) # label_suffixes (m # ls)"

definition in_blocklist :: "string set \<Rightarrow> string set \<Rightarrow> string \<Rightarrow> bool" where
  "in_blocklist exact wildcard domain =
     (if exact = {} then False
      else let normalized = normalizeDomain domain;
               registrable = getRegistrableDomain normalized
        in if normalized \<in> exact then True
           else if registrable \<noteq> normalized \<and> registrable \<in> exact then True
           else if wildcard \<noteq> {} then
             list_ex (\<lambda>s. s \<in> wildcard) (label_suffixes (split_on (CHR ''.'') normalized))
           else False)"

definition isDisposableDomain ::
  "blocklist_file \<Rightarrow> string \<Rightarrow> disposable_state \<Rightarrow> bool \<times> disposable_state" where
  "isDisposableDomain f domain st =
     (let (exact, st1) = getExactSet f st;
          (wildcard, st2) = getWildcardSet f st1
      in (in_blocklist exact wildcard domain, st2))"

definition getBlocklistStats :: "blocklist_file \<Rightarrow> disposable_state \<Rightarrow> (nat \<times> nat) \<times> disposable_state" where
  "getBlocklistStats f st =
     (let (exact, st1) = getExactSet f st;
          (wildcard, st2) = getWildcardSet f st1
      in ((card exact, card wildcard), st2))"

subsection \<open>The blocklist, abstractly\<close>

text \<open>What the text of a blocklist file says: the entries of either kind.\<close>

definition exact_entries :: "string \<Rightarrow> string set" where
  "exact_entries raw = {e. \<exists>l \<in> set (split_on newline raw). parse_line l = Some (Inl e)}"

definition wildcard_entries :: "string \<Rightarrow> string set" where
  "wildcard_entries raw = {w. \<exists>l \<in> set (split_on newline raw). parse_line l = Some (Inr w)}"

lemma parse_lines_eq:
  "parse_lines ls exact wildcard =
     (exact \<union> {e. \<exists>l \<in> set ls. parse_line l = Some (Inl e)},
      wildcard \<union> {w. \<exists>l \<in> set ls. parse_line l = Some (Inr w)})"
  by (induction ls exact wildcard rule: parse_lines.induct)
    (auto split: option.splits sum.splits)

lemma readBlocklist_text:
  "readBlocklistFromDisk (FileText raw) st =
     st\<lparr>domainSet := Some (exact_entries raw), wildcardSet := Some (wildcard_entries raw)\<rparr>"
  by (simp add: parse_lines_eq exact_entries_def wildcard_entries_def)

text \<open>A state is loaded when both sets are present; every operation keeps it loaded, and a
  loaded list is never read again by a lookup.\<close>

definition loaded :: "disposable_state \<Rightarrow> bool" where
  "loaded st \<longleftrightarrow> domainSet st \<noteq> None \<and> wildcardSet st \<noteq> None"

lemma readBlocklist_loaded: "loaded (readBlocklistFromDisk f st)"
  by (cases f) (auto simp: loaded_def split: prod.splits)

lemma loadDisposableList_idem:
  "loadDisposableList g (loadDisposableList f st) = loadDisposableList f st"
proof -
  have "loadAttempted (readBlocklistFromDisk f (st\<lparr>loadAttempted := True\<rparr>))"
    by (cases f) (auto split: prod.splits)
  then show ?thesis by (simp add: loadDisposableList_def)
qed

lemma isDisposableDomain_loaded:
  "loaded st \<Longrightarrow> isDisposableDomain f d st =
     (in_blocklist (or_else (domainSet st) {}) (or_else (wildcardSet st) {}) d, st)"
  by (auto simp: loaded_def isDisposableDomain_def getExactSet_def getWildcardSet_def Let_def)

lemma isDisposableDomain_first:
  "isDisposableDomain (FileText raw) d disposable_init =
     (in_blocklist (exact_entries raw) (wildcard_entries raw) d,
      \<lparr>domainSet = Some (exact_entries raw), wildcardSet = Some (wildcard_entries raw),
       loadAttempted = True\<rparr>)"
  unfolding isDisposableDomain_def getExactSet_def getWildcardSet_def loadDisposableList_def
    disposable_init_def
  by (simp add: Let_def readBlocklist_text del: readBlocklistFromDisk.simps)

subsection \<open>Suffixes\<close>

lemma label_suffixes_drop:
  "set (label_suffixes ls) = {join_with ''.'' (drop i ls) | i. 0 < i \<and> i < length ls}"
proof (induction ls rule: label_suffixes.induct)
  case (3 l m ls)
  have "{join_with ''.'' (drop i (l # m # ls)) | i. 0 < i \<and> i < length (l # m # ls)} =
      insert (join_with ''.'' (m # ls))
        {join_with ''.'' (drop i (m # ls)) | i. 0 < i \<and> i < length (m # ls)}"
    (is "?A = insert ?x ?B")
  proof (intro equalityI subsetI)
    fix y assume "y \<in> ?A"
    then obtain i where y: "y = join_with ''.'' (drop i (l # m # ls))"
      and i: "0 < i" "i < length (l # m # ls)" by blast
    from i(1) obtain j where j: "i = Suc j" by (cases i) auto
    show "y \<in> insert ?x ?B"
    proof (cases "j = 0")
      case True
      with y j show ?thesis by simp
    next
      case False
      with y j i show ?thesis by auto
    qed
  next
    fix y assume "y \<in> insert ?x ?B"
    then consider "y = ?x" | i where "y = join_with ''.'' (drop i (m # ls))" "0 < i" "i < length (m # ls)"
      by blast
    then show "y \<in> ?A"
    proof cases
      case 1
      then show ?thesis by (intro CollectI exI [of _ 1]) simp
    next
      case 2
      then have "y = join_with ''.'' (drop (Suc i) (l # m # ls)) \<and> Suc i < length (l # m # ls)" by simp
      then show ?thesis by blast
    qed
  qed
  with 3 show ?case by simp
qed auto

lemma join_append:
  "us \<noteq> [] \<Longrightarrow> vs \<noteq> [] \<Longrightarrow> join_with sep (us @ vs) = join_with sep us @ sep @ join_with sep vs"
proof (induction sep us rule: join_with.induct)
  case (2 sep w)
  then show ?case by (cases vs) auto
qed auto

text \<open>\<open>p\<close> is a parent domain of \<open>d\<close> when \<open>d\<close> is \<open>p\<close> below one or more labels.\<close>

definition parent_domain :: "string \<Rightarrow> string \<Rightarrow> bool" where
  "parent_domain p d \<longleftrightarrow> (\<exists>u. d = u @ ''.'' @ p)"

lemma label_suffixes_parent:
  "p \<in> set (label_suffixes (split_on (CHR ''.'') d)) \<longleftrightarrow> parent_domain p d"
proof
  let ?ls = "split_on (CHR ''.'') d"
  assume "p \<in> set (label_suffixes ?ls)"
  then obtain i where p: "p = join_with ''.'' (drop i ?ls)" and i: "0 < i" "i < length ?ls"
    by (auto simp: label_suffixes_drop)
  have "d = join_with ''.'' (take i ?ls @ drop i ?ls)" by simp
  also have "\<dots> = join_with ''.'' (take i ?ls) @ ''.'' @ join_with ''.'' (drop i ?ls)"
    using i by (intro join_append) auto
  finally show "parent_domain p d" unfolding parent_domain_def p by blast
next
  assume "parent_domain p d"
  then obtain u where d: "d = u @ CHR ''.'' # p" by (auto simp: parent_domain_def)
  let ?us = "split_on (CHR ''.'') u" and ?ps = "split_on (CHR ''.'') p"
  have sp: "split_on (CHR ''.'') d = ?us @ ?ps"
    unfolding d split_on_append by simp
  then have "p = join_with ''.'' (drop (length ?us) (split_on (CHR ''.'') d))" by simp
  moreover have "0 < length ?us" "length ?us < length (split_on (CHR ''.'') d)"
    using sp by auto
  ultimately show "p \<in> set (label_suffixes (split_on (CHR ''.'') d))"
    unfolding label_suffixes_drop by blast
qed

subsection \<open>Registrable domains\<close>

lemma getRegistrableDomain_parent:
  "getRegistrableDomain d = normalizeDomain d \<or> parent_domain (getRegistrableDomain d) (normalizeDomain d)"
proof -
  let ?n = "normalizeDomain d"
  let ?ls = "split_on (CHR ''.'') ?n"
  have suffix: "join_with ''.'' (slice_last k ?ls) = ?n \<or> parent_domain (join_with ''.'' (slice_last k ?ls)) ?n"
    if "0 < k" for k
  proof (cases "k < length ?ls")
    case True
    then have "join_with ''.'' (slice_last k ?ls) \<in> set (label_suffixes ?ls)"
      using that unfolding label_suffixes_drop slice_last_def by force
    then show ?thesis by (simp add: label_suffixes_parent)
  next
    case False
    then show ?thesis by (simp add: slice_last_def)
  qed
  show ?thesis
    using suffix [of 2] suffix [of 3] by (auto simp: getRegistrableDomain_def Let_def)
qed

lemma parent_domain_trans: "parent_domain p q \<Longrightarrow> parent_domain q d \<Longrightarrow> parent_domain p d"
  unfolding parent_domain_def by (metis append.assoc)

text \<open>After the first lookup has loaded a blocklist file, a domain is reported disposable
  exactly when the list has an exact entry and the normalized domain is an exact entry, its
  registrable domain is one, or some proper parent domain is a wildcard entry; in particular
  a list of wildcards only blocks nothing. The state ends loaded with the parsed entries.\<close>

theorem isDisposableDomain_spec:
  "isDisposableDomain (FileText raw) d disposable_init =
     (let n = normalizeDomain d in
      exact_entries raw \<noteq> {} \<and>
      (n \<in> exact_entries raw \<or> getRegistrableDomain n \<in> exact_entries raw \<or>
       (\<exists>w \<in> wildcard_entries raw. parent_domain w n)),
      \<lparr>domainSet = Some (exact_entries raw), wildcardSet = Some (wildcard_entries raw),
       loadAttempted = True\<rparr>)"
proof -
  have "in_blocklist E W d = (let n = normalizeDomain d in
      E \<noteq> {} \<and> (n \<in> E \<or> getRegistrableDomain n \<in> E \<or> (\<exists>w \<in> W. parent_domain w n)))" for E W
  proof -
    have "list_ex (\<lambda>s. s \<in> W) (label_suffixes (split_on (CHR ''.'') n)) \<longleftrightarrow> (\<exists>w \<in> W. parent_domain w n)"
      for n
      by (auto simp: list_ex_iff label_suffixes_parent)
    then show ?thesis by (auto simp: in_blocklist_def Let_def)
  qed
  then show ?thesis unfolding isDisposableDomain_first by simp
qed

end
