(* ===== verification/RoleAccount.thy ===== *)
theory RoleAccount
  imports Regex
begin

text \<open>
  \<^verbatim>\<open>src/engine/roleAccount.ts\<close>: role-account detection by an exact table, by the table
  after stripping trailing digits, and by patterns.
\<close>

definition ROLE_EXACT :: "string list" where
  "ROLE_EXACT =
    [''postmaster'', ''hostmaster'', ''webmaster'', ''abuse'', ''security'', ''usenet'',
     ''news'', ''uucp'', ''ftp'', ''noreply'', ''no-reply'', ''no_reply'', ''donotreply'',
     ''do-not-reply'', ''do_not_reply'', ''donot-reply'', ''mailer'', ''mailer-daemon'',
     ''mailerdaemon'', ''daemon'', ''bounce'', ''bounces'', ''bounce-handler'', ''return'',
     ''returns'', ''notifications'', ''notify'', ''notification'', ''automated'', ''automailer'',
     ''auto'', ''robot'', ''autoresponder'', ''auto-responder'', ''system'', ''sys'', ''root'',
     ''info'', ''information'', ''informacao'', ''contact'', ''contacts'', ''contacto'',
     ''kontakt'', ''kontakte'', ''hello'', ''hi'', ''hey'', ''general'', ''enquiries'',
     ''enquiry'', ''inquiries'', ''inquiry'', ''inquery'', ''query'', ''queries'', ''support'',
     ''supports'', ''help'', ''helpdesk'', ''help-desk'', ''helpdesk'', ''helpline'', ''assist'',
     ''assistance'', ''care'', ''customercare'', ''customer-care'', ''service'', ''services'',
     ''customerservice'', ''customer-service'', ''customer_service'', ''customersupport'',
     ''customer-support'', ''clientservices'', ''client-services'', ''clients'', ''client'',
     ''techsupport'', ''tech-support'', ''itsupport'', ''it-support'', ''sales'', ''salesteam'',
     ''sale'', ''marketing'', ''mkt'', ''advertise'', ''advertising'', ''ads'', ''advert'',
     ''promo'', ''promotions'', ''promotion'', ''newsletter'', ''newsletters'', ''subscribe'',
     ''subscriptions'', ''subscription'', ''unsubscribe'', ''optout'', ''opt-out'', ''list'',
     ''lists'', ''listserv'', ''listserve'', ''mailing'', ''bulk'', ''mass'', ''campaigns'',
     ''campaign'', ''partnerships'', ''partners'', ''partner'', ''business'', ''biz'', ''deals'',
     ''offers'', ''admin'', ''administrator'', ''administration'', ''office'', ''reception'',
     ''receptionist'', ''frontdesk'', ''front-desk'', ''it'', ''hr'', ''humanresources'',
     ''human-resources'', ''legal'', ''compliance'', ''accounts'', ''accounting'', ''finance'',
     ''billing'', ''invoice'', ''invoices'', ''invoicing'', ''payment'', ''payments'',
     ''payroll'', ''procurement'', ''purchasing'', ''orders'', ''order'', ''ordering'',
     ''logistics'', ''shipping'', ''operations'', ''ops'', ''facilities'', ''dev'',
     ''developer'', ''developers'', ''development'', ''devops'', ''sre'', ''platform'',
     ''sysadmin'', ''infrastructure'', ''infra'', ''network'', ''networking'', ''noc'',
     ''monitoring'', ''alerts'', ''alarm'', ''alarms'', ''reports'', ''reporting'', ''logs'',
     ''logging'', ''errors'', ''error'', ''bugs'', ''bug'', ''issues'', ''status'', ''uptime'',
     ''api'', ''webhook'', ''webhooks'', ''privacy'', ''gdpr'', ''dpo'', ''ccpa'', ''dmca'',
     ''copyright'', ''takedowns'', ''security-alert'', ''securityalert'', ''phishing'',
     ''fraud'', ''abuse-report'', ''jobs'', ''careers'', ''career'', ''hiring'', ''recruitment'',
     ''recruiter'', ''apply'', ''applications'', ''applicants'', ''cvs'', ''resumes'', ''press'',
     ''media'', ''pr'', ''publicrelations'', ''public-relations'', ''news'', ''editorial'',
     ''editor'', ''team'', ''staff'', ''crew'', ''events'', ''event'', ''conference'',
     ''conferences'', ''webinar'', ''webinars'', ''seminar'', ''workshop'', ''feedback'',
     ''reviews'', ''review'', ''suggestions'', ''suggestion'', ''ideas'', ''community'',
     ''forum'', ''vendors'', ''vendor'', ''supplier'', ''suppliers'', ''contact'', ''bonjour'',
     ''aide'', ''assistance'', ''ventes'', ''kontakt'', ''hilfe'', ''verwaltung'', ''verkauf'',
     ''anfrage'', ''contacto'', ''soporte'', ''ventas'', ''consulta'', ''ayuda'', ''suporte'',
     ''vendas'', ''contato'', ''contatti'', ''assistenza'', ''vendite'']"

text \<open>The separator class \<open>[-_.]\<close>.\<close>

abbreviation sep_class :: regex where "sep_class \<equiv> OneOf ''-_.''"

abbreviation role_words :: regex where
  "role_words \<equiv> alternatives [''support'', ''help'', ''info'', ''admin'', ''sales'', ''contact'',
     ''team'', ''service'', ''noreply'', ''billing'']"

definition ROLE_PATTERNS :: "regex list" where
  "ROLE_PATTERNS =
    [Then Bol (Then (Lit ''no'') (Then (Opt sep_class) (Lit ''reply''))),
     Then Bol (Then (Lit ''do'') (Then (Opt sep_class) (Then (Lit ''not'')
       (Then (Opt sep_class) (Lit ''reply''))))),
     Lit ''noreply'',
     Then Bol (Then (Lit ''bounce'') (Then (Opt (OneOf ''sd'')) (Opt sep_class))),
     Then Bol (Then (Lit ''return'') (Then (Opt sep_class) (Lit ''path''))),
     Then Bol (Then (Lit ''mailer'') (Then (Opt sep_class) (Lit ''daemon''))),
     Then sep_class (Then role_words Eol),
     Then Bol (Then role_words sep_class),
     Then Bol (Then (Lit ''customer'') sep_class),
     Then sep_class (Then (Lit ''service'') Eol),
     Then sep_class (Then (alternatives [''dept'', ''department'', ''group'', ''team'', ''office'']) Eol),
     Then Bol (Or (Then (Lit ''automate'') (Opt (Lit ''d'')))
       (alternatives [''automailer'', ''robot'', ''do-not-reply'']))]"

text \<open>\<open>normalized.replace(/\d+$/, '')\<close>\<close>

definition strip_digits :: "string \<Rightarrow> string" where
  "strip_digits s = rev (dropWhile is_digit (rev s))"

definition isRoleAccount :: "string \<Rightarrow> bool" where
  "isRoleAccount loc =
     (let normalized = js_trim (js_lower loc);
          withoutDigits = strip_digits normalized
      in if normalized \<in> set ROLE_EXACT then True
         else if length withoutDigits > 1 \<and> withoutDigits \<in> set ROLE_EXACT then True
         else list_ex (\<lambda>p. test_ci p normalized) ROLE_PATTERNS)"

subsection \<open>Numeric suffixes\<close>

definition plain_word :: "string \<Rightarrow> bool" where
  "plain_word w \<longleftrightarrow> length w > 1 \<and> \<not> is_js_space (hd w) \<and> \<not> is_js_space (last w) \<and> \<not> is_digit (last w)"

lemma ROLE_EXACT_plain: "list_all plain_word ROLE_EXACT"
  by (simp add: ROLE_EXACT_def plain_word_def is_js_space_def is_digit_def)

lemma dropWhile_all_append: "list_all P ds \<Longrightarrow> dropWhile P (ds @ s) = dropWhile P s"
  by (induction ds) auto

lemma strip_digits_append:
  assumes "w \<noteq> []" and "\<not> is_digit (last w)" and "list_all is_digit ds"
  shows "strip_digits (w @ ds) = w"
proof -
  have "list_all is_digit (rev ds)" using assms(3) by (simp add: list_all_iff)
  then have "dropWhile is_digit (rev ds @ rev w) = rev w"
    using assms(1,2) by (cases w rule: rev_cases) (simp_all add: dropWhile_all_append)
  then show ?thesis by (simp add: strip_digits_def)
qed

lemma js_trim_plain:
  assumes "s \<noteq> []" and "\<not> is_js_space (hd s)" and "\<not> is_js_space (last s)"
  shows "js_trim s = s"
proof -
  have "trim_start s = s" using assms(1,2) by (cases s) (simp_all add: trim_start_def)
  then show ?thesis using assms by (simp add: js_trim_def trim_end_no_space)
qed

text \<open>A name of the role table, in any capitalization and followed by any number of digits, is
  a role account.\<close>

theorem isRoleAccount_numbered:
  assumes "w \<in> set ROLE_EXACT" and "list_all is_digit ds" and "js_lower loc = w @ ds"
  shows "isRoleAccount loc"
proof -
  have w: "plain_word w" using ROLE_EXACT_plain assms(1) by (auto simp: list_all_iff)
  then have ne: "w \<noteq> []" by (auto simp: plain_word_def)
  have "\<not> is_js_space (last (w @ ds))"
  proof (cases ds rule: rev_cases)
    case (snoc t x)
    then show ?thesis using assms(2) by (auto simp: is_digit_def is_js_space_def)
  qed (use w in \<open>simp add: plain_word_def\<close>)
  then have "js_trim (js_lower loc) = w @ ds"
    using w ne assms(3) by (simp add: plain_word_def js_trim_plain)
  moreover have "strip_digits (w @ ds) = w"
    using ne w assms(2) by (simp add: strip_digits_append plain_word_def)
  ultimately show ?thesis
    using assms(1) w by (simp add: isRoleAccount_def plain_word_def)
qed

theorem isRoleAccount_numbered_witness: "isRoleAccount ''Support01''"
proof (rule isRoleAccount_numbered [of "''support''" "''01''"])
  show "js_lower ''Support01'' = ''support'' @ ''01''" by code_simp
qed (simp_all add: ROLE_EXACT_def is_digit_def)

end
