(* ===== verification/Toxic.thy ===== *)
theory Toxic
  imports Regex
begin

text \<open>\<^verbatim>\<open>src/engine/toxic.ts\<close>: toxic and abuse domains by table, suffix and pattern.\<close>

definition TOXIC_DOMAINS :: "string list" where
  "TOXIC_DOMAINS =
    [''spamtrap.ro'', ''spamtrap.net'', ''spam.la'', ''spamgourmet.com'', ''spamgourmet.net'',
     ''spamgourmet.org'', ''spaml.de'', ''spamtraps.de'', ''abuse.ch'', ''abuse.io'',
     ''spamcop.net'', ''spambouncers.net'', ''spambouncer.org'', ''nullbox.info'',
     ''dodgit.com'', ''spam4.me'', ''rejectmail.com'', ''nomail.pw'', ''trbvm.com'',
     ''binkmail.com'', ''tempr.email'', ''spam.su'']"

definition ABUSE_TLDS :: "string list" where
  "ABUSE_TLDS = [''.cf'', ''.ga'', ''.gq'', ''.ml'', ''.tk'']"

definition TOXIC_PATTERNS :: "regex list" where
  "TOXIC_PATTERNS =
    [Then Bol (Then (alternatives [''spam'', ''trap'', ''abuse'', ''honeypot'', ''spamtrap'']) (Lit ''.'')),
     Then (Lit ''.'') (Then (alternatives [''spam'', ''trap'', ''abuse'']) Eol)]"

record toxic_result =
  isToxic :: bool
  isAbuse :: bool
  toxicReason :: "string option"

definition checkToxic :: "string \<Rightarrow> toxic_result" where
  "checkToxic domain =
     (let lower = js_lower domain in
      if lower \<in> set TOXIC_DOMAINS
        then \<lparr>isToxic = True, isAbuse = False, toxicReason = Some ''known_toxic_domain''\<rparr>
      else if list_ex (\<lambda>tld. ends_with tld lower) ABUSE_TLDS
        then \<lparr>isToxic = False, isAbuse = True, toxicReason = Some ''high_complaint_tld''\<rparr>
      else if list_ex (\<lambda>p. test_ci p lower) TOXIC_PATTERNS
        then \<lparr>isToxic = True, isAbuse = False, toxicReason = Some ''toxic_pattern''\<rparr>
      else \<lparr>isToxic = False, isAbuse = False, toxicReason = None\<rparr>)"

text \<open>The two verdicts exclude each other, and a reason is given exactly with a verdict.\<close>

lemma checkToxic_exclusive:
  "\<not> (isToxic (checkToxic d) \<and> isAbuse (checkToxic d))"
  "toxicReason (checkToxic d) \<noteq> None \<longleftrightarrow> isToxic (checkToxic d) \<or> isAbuse (checkToxic d)"
  by (simp_all add: checkToxic_def Let_def)

lemma checkToxic_lower: "checkToxic (js_lower d) = checkToxic d"
  by (simp add: checkToxic_def)

end
