(* ===== verification/TtlCache.thy ===== *)
theory TtlCache
  imports Prelude
begin

text \<open>
  The interface of the program's expiring caches: the in-process MX cache, the shared table of
  SMTP verdicts and the per-domain catch-all table. A provider gives a lookup (which may drop
  an expired entry), an insertion with the current time, the life time of a value, the key
  normalization and the value a later lookup reports for a stored one. The lemma of the locale
  is proved once for all three: over any history of operations a hit is never invented, never
  belongs to another key and is never older than its life time.
\<close>

datatype ('k, 'v) cache_op = Get 'k int | Put 'k 'v int

fun cache_step ::
  "('k \<Rightarrow> int \<Rightarrow> 'c \<Rightarrow> 'r option \<times> 'c) \<Rightarrow> ('k \<Rightarrow> 'v \<Rightarrow> int \<Rightarrow> 'c \<Rightarrow> 'c) \<Rightarrow> 'c \<Rightarrow>
     ('k, 'v) cache_op \<Rightarrow> 'c" where
  "cache_step get put c (Get k t) = snd (get k t c)"
| "cache_step get put c (Put k v t) = put k v t c"

definition cache_run ::
  "('k \<Rightarrow> int \<Rightarrow> 'c \<Rightarrow> 'r option \<times> 'c) \<Rightarrow> ('k \<Rightarrow> 'v \<Rightarrow> int \<Rightarrow> 'c \<Rightarrow> 'c) \<Rightarrow> 'c \<Rightarrow>
     ('k, 'v) cache_op list \<Rightarrow> 'c" where
  "cache_run get put c ops = foldl (cache_step get put) c ops"

locale ttl_cache =
  fixes get :: "'k \<Rightarrow> int \<Rightarrow> 'c \<Rightarrow> 'r option \<times> 'c"
    and put :: "'k \<Rightarrow> 'v \<Rightarrow> int \<Rightarrow> 'c \<Rightarrow> 'c"
    and ttl :: "'v \<Rightarrow> int"
    and key :: "'k \<Rightarrow> 'n"
    and view :: "'k \<Rightarrow> 'v \<Rightarrow> 'r"
    and empty :: "'c"
    and inv :: "'c \<Rightarrow> bool"
  assumes get_empty: "fst (get k t empty) = None"
    and get_put_same: "inv c \<Longrightarrow> key k = key k' \<Longrightarrow>
      fst (get k t (put k' v now c)) = (if t \<le> now + ttl v then Some (view k' v) else None)"
    and get_put_other: "inv c \<Longrightarrow> key k \<noteq> key k' \<Longrightarrow>
      fst (get k t (put k' v now c)) \<in> {None, fst (get k t c)}"
    and get_get: "inv c \<Longrightarrow> fst (get k t (snd (get k' t' c))) \<in> {None, fst (get k t c)}"
    and inv_empty: "inv empty"
    and inv_put: "inv c \<Longrightarrow> inv (put k v now c)"
    and inv_get: "inv c \<Longrightarrow> inv (snd (get k t c))"
begin

lemma inv_run: "inv (cache_run get put empty ops)"
proof (induction ops rule: rev_induct)
  case (snoc op ops)
  then show ?case by (cases op) (simp_all add: cache_run_def inv_put inv_get)
qed (simp add: cache_run_def inv_empty)

lemma run_snoc: "cache_run get put empty (ops @ [op]) = cache_step get put (cache_run get put empty ops) op"
  by (simp add: cache_run_def)

lemma hit_from_history:
  "fst (get k t (cache_run get put empty ops)) = Some x \<Longrightarrow>
     \<exists>k' v now. Put k' v now \<in> set ops \<and> key k' = key k \<and> x = view k' v \<and> t \<le> now + ttl v"
proof (induction ops rule: rev_induct)
  case Nil
  then show ?case by (simp add: cache_run_def get_empty)
next
  case (snoc op ops)
  let ?c = "cache_run get put empty ops"
  show ?case
  proof (cases op)
    case (Get k' t')
    then have "fst (get k t ?c) = Some x"
      using snoc.prems get_get [OF inv_run, of k t k' t' ops] by (simp add: run_snoc)
    with snoc.IH show ?thesis by fastforce
  next
    case (Put k' v now)
    show ?thesis
    proof (cases "key k = key k'")
      case True
      then show ?thesis
        using Put snoc.prems get_put_same [OF inv_run True, of t v now ops]
        by (auto simp: run_snoc split: if_splits)
    next
      case False
      then have "fst (get k t ?c) = Some x"
        using Put snoc.prems get_put_other [OF inv_run False, of t v now ops] by (simp add: run_snoc)
      with snoc.IH show ?thesis by fastforce
    qed
  qed
qed

lemma hit_after_put:
  "inv c \<Longrightarrow> t \<le> now + ttl v \<Longrightarrow> fst (get k t (put k v now c)) = Some (view k v)"
  by (simp add: get_put_same)

end

end
