(* ===== verification/JsMap.thy ===== *)
theory JsMap
  imports TtlCache
begin

text \<open>
  JavaScript \<open>Map\<close>s as association lists in insertion order, and the in-process caches built
  on them: an entry expires, and an insertion into a full map first drops the oldest entry. The
  locale states how such a cache reads and writes its map; the contract of an expiring cache
  follows once for all of them.
\<close>

text \<open>\<open>Map.set\<close>: an existing key keeps its place, a new one goes to the end.\<close>

fun map_set :: "'k \<Rightarrow> 'v \<Rightarrow> ('k \<times> 'v) list \<Rightarrow> ('k \<times> 'v) list" where
  "map_set k v [] = [(k, v)]"
| "map_set k v ((k', v') # m) = (if k' = k then (k, v) # m else (k', v') # map_set k v m)"

definition map_delete :: "'k \<Rightarrow> ('k \<times> 'v) list \<Rightarrow> ('k \<times> 'v) list" where
  "map_delete k m = filter (\<lambda>p. fst p \<noteq> k) m"

text \<open>What an insertion does first when the map has reached its maximal size.\<close>

definition evict_oldest :: "nat \<Rightarrow> ('k \<times> 'v) list \<Rightarrow> ('k \<times> 'v) list" where
  "evict_oldest n c = (if length c \<ge> n then (case c of [] \<Rightarrow> c | p # _ \<Rightarrow> map_delete (fst p) c) else c)"

definition bounded_map :: "nat \<Rightarrow> ('k \<times> 'v) list \<Rightarrow> bool" where
  "bounded_map n c \<longleftrightarrow> distinct (map fst c) \<and> length c \<le> n"

lemma map_of_map_set [simp]: "map_of (map_set k v m) = (map_of m)(k \<mapsto> v)"
  by (induction k v m rule: map_set.induct) (auto simp: fun_eq_iff)

lemma keys_map_set: "map fst (map_set k v m) = (if k \<in> fst ` set m then map fst m else map fst m @ [k])"
  by (induction k v m rule: map_set.induct) auto

lemma map_of_map_delete: "map_of (map_delete k m) = (map_of m)(k := None)"
  by (induction m) (auto simp: map_delete_def fun_eq_iff)

lemma distinct_map_delete: "distinct (map fst m) \<Longrightarrow> distinct (map fst (map_delete k m))"
  by (induction m) (auto simp: map_delete_def)

lemma length_map_delete_hd: "length (map_delete (fst p) (p # m)) \<le> length m"
  by (simp add: map_delete_def)

lemma length_map_delete: "length (map_delete k m) \<le> length m"
  by (simp add: map_delete_def)

lemma evict_oldest_bounded:
  "0 < n \<Longrightarrow> bounded_map n c \<Longrightarrow> distinct (map fst (evict_oldest n c)) \<and> length (evict_oldest n c) < n"
proof (cases c)
  case (Cons p m)
  assume "0 < n" "bounded_map n c"
  with Cons show ?thesis
    using length_map_delete_hd [of p m] distinct_map_delete [of c "fst p"]
    by (auto simp: bounded_map_def evict_oldest_def)
qed (simp add: evict_oldest_def)

lemma map_of_evict_oldest: "map_of (evict_oldest n c) k \<in> {None, map_of c k}"
  by (auto simp: evict_oldest_def map_of_map_delete split: list.splits)

lemma map_set_bounded: "0 < n \<Longrightarrow> bounded_map n c \<Longrightarrow> bounded_map n (map_set k v (evict_oldest n c))"
proof -
  assume "0 < n" "bounded_map n c"
  from evict_oldest_bounded [OF this] have e: "distinct (map fst (evict_oldest n c))"
    "length (map fst (evict_oldest n c)) < n" by auto
  have "distinct (map fst (map_set k v (evict_oldest n c)))" using e(1) by (auto simp: keys_map_set)
  moreover have "length (map fst (map_set k v (evict_oldest n c))) \<le> n"
    using e(2) unfolding keys_map_set by (auto split: if_splits)
  ultimately show ?thesis by (simp add: bounded_map_def)
qed

locale bounded_map_cache =
  fixes get :: "'k \<Rightarrow> int \<Rightarrow> ('k \<times> 'e) list \<Rightarrow> 'v option \<times> ('k \<times> 'e) list"
    and put :: "'k \<Rightarrow> 'v \<Rightarrow> int \<Rightarrow> ('k \<times> 'e) list \<Rightarrow> ('k \<times> 'e) list"
    and expiry :: "'e \<Rightarrow> int"
    and content :: "'e \<Rightarrow> 'v"
    and entry :: "'v \<Rightarrow> int \<Rightarrow> 'e"
    and ttl :: int
    and max_size :: nat
  assumes get_def: "get k t c = (case map_of c k of
        None \<Rightarrow> (None, c)
      | Some e \<Rightarrow> if t > expiry e then (None, map_delete k c) else (Some (content e), c))"
    and put_def: "put k v t c = map_set k (entry v t) (evict_oldest max_size c)"
    and entry_expiry: "expiry (entry v t) = t + ttl"
    and entry_content: "content (entry v t) = v"
    and max_size_pos: "0 < max_size"
begin

lemma fst_get:
  "fst (get k t c) = (case map_of c k of None \<Rightarrow> None | Some e \<Rightarrow> if t > expiry e then None else Some (content e))"
  by (simp add: get_def split: option.split)

lemma map_of_snd_get: "map_of (snd (get k t c)) j \<in> {None, map_of c j}"
  by (simp add: get_def map_of_map_delete split: option.split)

lemma get_bounded: "bounded_map max_size c \<Longrightarrow> bounded_map max_size (snd (get k t c))"
  using length_map_delete [of k c]
  by (auto simp: bounded_map_def get_def distinct_map_delete split: option.split)

lemma put_bounded: "bounded_map max_size c \<Longrightarrow> bounded_map max_size (put k v t c)"
  by (simp add: put_def map_set_bounded max_size_pos)

end

sublocale bounded_map_cache \<subseteq> ttl_cache get put "\<lambda>v. ttl" "\<lambda>k. k" "\<lambda>k v. v" "[]" "bounded_map max_size"
proof unfold_locales
  show "fst (get k t []) = None" for k t
    by (simp add: fst_get)
  show "fst (get k t (put k' v now c)) = (if t \<le> now + ttl then Some v else None)" if "k = k'" for c k k' t v now
    using that by (simp add: fst_get put_def entry_expiry entry_content)
  show "fst (get k t (put k' v now c)) \<in> {None, fst (get k t c)}" if "k \<noteq> k'" for c k k' t v now
    using that map_of_evict_oldest [of max_size c k] by (auto simp: fst_get put_def)
  show "fst (get k t (snd (get k' t' c))) \<in> {None, fst (get k t c)}" for c k t k' t'
    using map_of_snd_get [of k' t' c k] by (auto simp: fst_get)
  show "bounded_map max_size []" by (simp add: bounded_map_def)
qed (simp_all add: put_bounded get_bounded)

end
