(* ===== verification/Mx.thy ===== *)
theory Mx
  imports JsMap "HOL-Library.Multiset"
begin

text \<open>
  \<^verbatim>\<open>src/engine/mx.ts\<close>: MX lookup with retries and the in-process cache. The resolver is
  a parameter: its reply to each attempt. The cache is a JavaScript \<open>Map\<close>, that is an
  association list in insertion order.
\<close>

record mx_record =
  priority :: int
  exchange :: string

text \<open>What \<open>await withTimeout(dns.resolveMx(domain), ...)\<close> can do: the promise resolves, is
  rejected with an \<open>Error\<close> that may carry an errno code, is rejected with another value, or
  is still pending when the timer fires.\<close>

datatype 'a reply = Resolved 'a | RejectedError "string option" string | RejectedOther string | Pending

datatype 'a settled = Value 'a | Thrown "string option" string bool

text \<open>\<open>Thrown code message isError\<close>; \<open>withTimeout\<close> turns a pending promise into an
  \<open>Error\<close> with the given message and no code.\<close>

fun withTimeout :: "'a reply \<Rightarrow> string \<Rightarrow> 'a settled" where
  "withTimeout (Resolved a) message = Value a"
| "withTimeout (RejectedError c m) message = Thrown c m True"
| "withTimeout (RejectedOther m) message = Thrown None m False"
| "withTimeout Pending message = Thrown None message True"

record mx_result =
  found :: bool
  mxHosts :: "string list"
  mxError :: "string option"

definition MX_LOOKUP_TIMEOUT_MS :: nat where "MX_LOOKUP_TIMEOUT_MS = 5000"

definition MX_LOOKUP_RETRIES :: nat where "MX_LOOKUP_RETRIES = 2"

definition mx_timeout_message :: string where
  "mx_timeout_message = ''MX lookup timed out after '' @ show_nat MX_LOOKUP_TIMEOUT_MS @ ''ms''"

definition isDefinitiveNegative :: "string option \<Rightarrow> bool \<Rightarrow> bool" where
  "isDefinitiveNegative c isError \<longleftrightarrow> isError \<and>
     c \<in> {Some ''ENOTFOUND'', Some ''ENODATA'', Some ''ESERVFAIL'', Some ''EREFUSED'',
          Some ''ENOTIMP'', Some ''EBADNAME''}"

definition mx_host :: "mx_record \<Rightarrow> string" where
  "mx_host r = js_lower (if ends_with ''.'' (exchange r) then butlast (exchange r) else exchange r)"

definition usable_host :: "string \<Rightarrow> bool" where
  "usable_host host \<longleftrightarrow> length host > 0 \<and> host \<noteq> ''.''"

definition no_mx :: "string option \<Rightarrow> mx_result" where
  "no_mx e = \<lparr>found = False, mxHosts = [], mxError = e\<rparr>"

text \<open>The result of a resolved attempt; \<open>null\<close> records are \<open>None\<close>.\<close>

definition mx_of_records :: "mx_record list option \<Rightarrow> mx_result" where
  "mx_of_records recs =
     (case recs of
        None \<Rightarrow> no_mx None
      | Some rs \<Rightarrow>
          if length rs = 0 then no_mx None
          else let hosts = filter usable_host (map mx_host (sort_key priority rs)) in
            if length hosts = 0 then no_mx None
            else \<lparr>found = True, mxHosts = hosts, mxError = None\<rparr>)"

text \<open>The retry loop, from \<open>attempt\<close> on, with \<open>n\<close> attempts left.\<close>

fun mx_attempts ::
  "(nat \<Rightarrow> mx_record list option reply) \<Rightarrow> nat \<Rightarrow> nat \<Rightarrow> string option \<Rightarrow> mx_result" where
  "mx_attempts dns attempt 0 lastError = no_mx (Some (or_else lastError ''MX lookup failed after retries''))"
| "mx_attempts dns attempt (Suc n) lastError =
     (case withTimeout (dns attempt) mx_timeout_message of
        Value recs \<Rightarrow> mx_of_records recs
      | Thrown c message isError \<Rightarrow>
          if isDefinitiveNegative c isError then no_mx None
          else mx_attempts dns (attempt + 1) n (Some message))"

definition lookupMxUncached :: "(nat \<Rightarrow> mx_record list option reply) \<Rightarrow> mx_result" where
  "lookupMxUncached dns = mx_attempts dns 1 MX_LOOKUP_RETRIES None"

text \<open>\<open>domainExistsInDns\<close>: the reply to the A query, then to the AAAA query.\<close>

definition domainExistsInDns :: "unit reply \<Rightarrow> unit reply \<Rightarrow> bool" where
  "domainExistsInDns a aaaa =
     list_ex (\<lambda>r. case withTimeout r ''DNS resolve timed out'' of Value _ \<Rightarrow> True | Thrown _ _ _ \<Rightarrow> False)
       [a, aaaa]"

subsection \<open>The cache\<close>

record mx_entry =
  result :: mx_result
  expiresAt :: int

type_synonym mx_cache = "(string \<times> mx_entry) list"

definition MX_CACHE_TTL_MS :: int where "MX_CACHE_TTL_MS = 5 * 60000"

definition MX_CACHE_MAX_SIZE :: nat where "MX_CACHE_MAX_SIZE = 10000"

definition mx_getCached :: "string \<Rightarrow> int \<Rightarrow> mx_cache \<Rightarrow> mx_result option \<times> mx_cache" where
  "mx_getCached domain now c =
     (case map_of c domain of
        None \<Rightarrow> (None, c)
      | Some entry \<Rightarrow>
          if now > expiresAt entry then (None, map_delete domain c)
          else (Some (result entry), c))"

definition mx_setCached :: "string \<Rightarrow> mx_result \<Rightarrow> int \<Rightarrow> mx_cache \<Rightarrow> mx_cache" where
  "mx_setCached domain r now c =
     (let c' = (if length c \<ge> MX_CACHE_MAX_SIZE then (case c of [] \<Rightarrow> c | p # _ \<Rightarrow> map_delete (fst p) c)
                else c)
      in map_set domain \<lparr>result = r, expiresAt = now + MX_CACHE_TTL_MS\<rparr> c')"

definition lookupMx ::
  "(nat \<Rightarrow> mx_record list option reply) \<Rightarrow> string \<Rightarrow> int \<Rightarrow> mx_cache \<Rightarrow> mx_result \<times> mx_cache" where
  "lookupMx dns domain now c =
     (case mx_getCached domain now c of
        (Some r, c') \<Rightarrow> (r, c')
      | (None, c') \<Rightarrow> let r = lookupMxUncached dns in (r, mx_setCached domain r now c'))"

definition clearMxCache :: "mx_cache \<Rightarrow> mx_cache" where
  "clearMxCache c = []"

definition getMxCacheStats :: "mx_cache \<Rightarrow> nat \<times> nat" where
  "getMxCacheStats c = (length c, MX_CACHE_MAX_SIZE)"

subsection \<open>The cache is a bounded expiring cache\<close>

abbreviation mx_cache_inv :: "mx_cache \<Rightarrow> bool" where
  "mx_cache_inv \<equiv> bounded_map MX_CACHE_MAX_SIZE"

interpretation mx: bounded_map_cache mx_getCached mx_setCached expiresAt result
  "\<lambda>r now. \<lparr>result = r, expiresAt = now + MX_CACHE_TTL_MS\<rparr>" MX_CACHE_TTL_MS MX_CACHE_MAX_SIZE
  by unfold_locales
    (simp_all add: mx_getCached_def mx_setCached_def evict_oldest_def MX_CACHE_MAX_SIZE_def Let_def)

lemma lookupMx_inv: "mx_cache_inv c \<Longrightarrow> mx_cache_inv (snd (lookupMx dns d now c))"
  using mx.get_bounded [of c d now]
  by (auto simp: lookupMx_def Let_def mx.put_bounded split: prod.split option.split)

text \<open>Over any history of cache reads and writes from the empty cache, the cache holds at
  most 10000 distinct domains, and a hit reported for a domain is a result stored for that very
  domain at most five minutes earlier: eviction, expiry and updates never mix entries up.\<close>

theorem mx_cache_sound:
  "let c = cache_run mx_getCached mx_setCached [] ops in
     length c \<le> MX_CACHE_MAX_SIZE \<and> distinct (map fst c) \<and>
     (case fst (mx_getCached d t c) of
        None \<Rightarrow> True
      | Some r \<Rightarrow> \<exists>now. Put d r now \<in> set ops \<and> t \<le> now + MX_CACHE_TTL_MS)"
  using mx.inv_run [of ops] mx.hit_from_history [of d t ops]
  by (auto simp: Let_def bounded_map_def split: option.split)

text \<open>Looking a domain up again within five minutes of a resolved lookup gives the same
  result whatever the resolver would answer now.\<close>

theorem lookupMx_repeat:
  assumes "mx_cache_inv c" and "fst (mx_getCached d now c) = None"
    and "later \<le> now + MX_CACHE_TTL_MS"
  shows "fst (lookupMx dns' d later (snd (lookupMx dns d now c))) = lookupMxUncached dns"
proof -
  have "snd (lookupMx dns d now c) =
      mx_setCached d (lookupMxUncached dns) now (snd (mx_getCached d now c))"
    using assms(2) by (cases "mx_getCached d now c") (simp add: lookupMx_def Let_def)
  moreover have "fst (mx_getCached d later
      (mx_setCached d (lookupMxUncached dns) now (snd (mx_getCached d now c)))) = Some (lookupMxUncached dns)"
    using mx.hit_after_put [OF mx.get_bounded [OF assms(1)] assms(3)] .
  ultimately show ?thesis
    by (auto simp: lookupMx_def split: prod.split option.split)
qed

theorem lookupMx_repeat_witness:
  "fst (lookupMx (\<lambda>_. Pending) ''a.de'' 200 (snd (lookupMx (\<lambda>_. Resolved None) ''a.de'' 100 []))) = no_mx None"
proof -
  have "mx_cache_inv []" "fst (mx_getCached ''a.de'' 100 []) = None" "(200::int) \<le> 100 + MX_CACHE_TTL_MS"
    by (simp_all add: bounded_map_def mx_getCached_def MX_CACHE_TTL_MS_def)
  from lookupMx_repeat [OF this, of "\<lambda>_. Pending" "\<lambda>_. Resolved None"] show ?thesis
    by (simp add: lookupMxUncached_def MX_LOOKUP_RETRIES_def numeral_2_eq_2 mx_of_records_def)
qed

subsection \<open>The lookup\<close>

text \<open>A transient failure: an error without a definitive code, or a timeout.\<close>

definition transient :: "mx_record list option reply \<Rightarrow> bool" where
  "transient r \<longleftrightarrow> (case withTimeout r mx_timeout_message of
     Value _ \<Rightarrow> False | Thrown c _ e \<Rightarrow> \<not> isDefinitiveNegative c e)"

definition thrown_message :: "mx_record list option reply \<Rightarrow> string" where
  "thrown_message r = (case withTimeout r mx_timeout_message of Value _ \<Rightarrow> [] | Thrown _ m _ \<Rightarrow> m)"

text \<open>The result of the attempt that decides.\<close>

definition decided :: "mx_record list option reply \<Rightarrow> mx_result" where
  "decided r = (case withTimeout r mx_timeout_message of
     Value recs \<Rightarrow> mx_of_records recs | Thrown _ _ _ \<Rightarrow> no_mx None)"

text \<open>The first attempt decides unless it fails transiently, then the second one does, and
  only two transient failures make the lookup report an error, the message of the last one; so an
  absent domain is never reported as an error and is never asked for again.\<close>

theorem lookupMxUncached_attempts:
  "lookupMxUncached dns =
     (if \<not> transient (dns 1) then decided (dns 1)
      else if \<not> transient (dns 2) then decided (dns 2)
      else no_mx (Some (thrown_message (dns 2))))"
  by (simp add: lookupMxUncached_def MX_LOOKUP_RETRIES_def transient_def decided_def
      thrown_message_def numeral_2_eq_2 split: settled.split)

text \<open>The hosts of a successful lookup are the usable hosts of the records, each as often as
  it occurs, in ascending order of priority, with equal priorities in the order of the reply;
  the lookup succeeds exactly when there is one.\<close>

theorem mx_of_records_sorted:
  "let r = mx_of_records (Some rs); us = filter (\<lambda>x. usable_host (mx_host x)) rs in
     (found r \<longleftrightarrow> us \<noteq> []) \<and> mxHosts r = map mx_host (sort_key priority us) \<and>
     mset (sort_key priority us) = mset us \<and> sorted (map priority (sort_key priority us)) \<and>
     mxError r = None"
proof -
  let ?us = "filter (\<lambda>x. usable_host (mx_host x)) rs"
  have hosts: "filter usable_host (map mx_host (sort_key priority rs)) = map mx_host (sort_key priority ?us)"
    by (simp add: filter_map comp_def filter_sort)
  have nil: "sort_key priority ?us = [] \<longleftrightarrow> ?us = []"
    by (metis length_0_conv length_sort)
  show ?thesis
    using nil by (auto simp: mx_of_records_def no_mx_def Let_def hosts)
qed

end
