(* ===== verification/SmtpDialogue.thy ===== *)
theory SmtpDialogue
  imports Prelude
begin

text \<open>
  \<^verbatim>\<open>src/engine/smtp.ts\<close>, \<open>probeAddress\<close>: the SMTP conversation with one server as a
  state machine over socket events. The closure's variables are a record; \<open>settled\<close> holds
  the value the promise was resolved with, and \<open>sent\<close> everything written to the socket.
  The code installs no handler for a connection closed by the peer, so the event \<open>Closed\<close>
  changes nothing.
\<close>

record probe_result =
  connected :: bool
  accepted :: bool
  p_greylisted :: bool
  p_raw :: "string option"
  p_error :: "string option"

datatype socket_event = Data string | Timeout | Error string | Closed

datatype dialogue_step = Banner | Ehlo | MailFrom | RcptTo

record dialogue_state =
  buffer :: string
  step :: dialogue_step
  d_accepted :: bool
  d_greylisted :: bool
  raw :: string
  settled :: "probe_result option"
  sent :: "string list"

abbreviation CR :: char where "CR \<equiv> CHR 0x0D"

abbreviation LF :: char where "LF \<equiv> CHR 0x0A"

definition dialogue_init :: dialogue_state where
  "dialogue_init = \<lparr>buffer = [], step = Banner, d_accepted = False, d_greylisted = False,
     raw = [], settled = None, sent = []\<rparr>"

text \<open>\<open>buffer.split('\r\n')\<close>\<close>

fun split_crlf :: "string \<Rightarrow> string list" where
  "split_crlf [] = [[]]"
| "split_crlf [c] = [[c]]"
| "split_crlf (c # d # s) =
     (if c = CR \<and> d = LF then [] # split_crlf s
      else (case split_crlf (d # s) of [] \<Rightarrow> [[c]] | w # ws \<Rightarrow> (c # w) # ws))"

definition quit_line :: string where
  "quit_line = ''QUIT'' @ [CR, LF]"

definition settle :: "probe_result \<Rightarrow> dialogue_state \<Rightarrow> dialogue_state" where
  "settle r st = (if settled st \<noteq> None then st
     else st\<lparr>settled := Some r, sent := sent st @ [quit_line]\<rparr>)"

definition send :: "string \<Rightarrow> dialogue_state \<Rightarrow> dialogue_state" where
  "send cmd st = st\<lparr>raw := raw st @ ''> '' @ cmd @ [LF], sent := sent st @ [cmd @ [CR, LF]]\<rparr>"

definition ehlo_cmd :: "string \<Rightarrow> string" where
  "ehlo_cmd helo = ''EHLO '' @ helo"

definition mail_cmd :: "string \<Rightarrow> string" where
  "mail_cmd helo = ''MAIL FROM:<probe@'' @ helo @ ''>''"

definition rcpt_cmd :: "string \<Rightarrow> string" where
  "rcpt_cmd email = ''RCPT TO:<'' @ email @ ''>''"

definition refused :: "dialogue_state \<Rightarrow> string \<Rightarrow> probe_result" where
  "refused st e = \<lparr>connected = True, accepted = False, p_greylisted = False, p_raw = Some (raw st),
     p_error = Some e\<rparr>"

text \<open>One line of the server's reply.\<close>

definition process_line :: "string \<Rightarrow> string \<Rightarrow> string \<Rightarrow> dialogue_state \<Rightarrow> dialogue_state" where
  "process_line helo email line st =
     (let rc = parse_int (take 3 line);
          isLast = (length line > 3 \<and> line ! 3 = CHR '' '' \<or> length line = 3)
      in if line = [] then st
         else if \<not> isLast then st
         else case step st of
           Banner \<Rightarrow>
             (if rc = Some 220 then send (ehlo_cmd helo) (st\<lparr>step := Ehlo\<rparr>)
              else settle (refused st (''bad banner '' @ show_number rc)) st)
         | Ehlo \<Rightarrow>
             (if rc = Some 250 then send (mail_cmd helo) (st\<lparr>step := MailFrom\<rparr>) else st)
         | MailFrom \<Rightarrow>
             (if rc = Some 250 then send (rcpt_cmd email) (st\<lparr>step := RcptTo\<rparr>)
              else settle (refused st (''MAIL FROM rejected '' @ show_number rc)) st)
         | RcptTo \<Rightarrow>
             let st' = (if rc = Some 250 \<or> rc = Some 251 then st\<lparr>d_accepted := True\<rparr>
                        else if (case rc of None \<Rightarrow> False | Some c \<Rightarrow> c \<ge> 400 \<and> c < 500)
                          then st\<lparr>d_greylisted := True\<rparr>
                        else st)
             in settle \<lparr>connected = True, accepted = d_accepted st', p_greylisted = d_greylisted st',
                  p_raw = Some (raw st'), p_error = None\<rparr> st')"

definition disconnected :: "dialogue_state \<Rightarrow> string \<Rightarrow> probe_result" where
  "disconnected st e = \<lparr>connected = False, accepted = False, p_greylisted = False,
     p_raw = Some (raw st), p_error = Some e\<rparr>"

fun on_event :: "string \<Rightarrow> string \<Rightarrow> dialogue_state \<Rightarrow> socket_event \<Rightarrow> dialogue_state" where
  "on_event helo email st (Data chunk) =
     (let lines = split_crlf (buffer st @ chunk)
      in foldl (\<lambda>s l. process_line helo email l s)
           (st\<lparr>raw := raw st @ chunk, buffer := last lines\<rparr>) (butlast lines))"
| "on_event helo email st Timeout = settle (disconnected st ''timeout'') st"
| "on_event helo email st (Error m) = settle (disconnected st m) st"
| "on_event helo email st Closed = st"

definition dialogue_run :: "string \<Rightarrow> string \<Rightarrow> socket_event list \<Rightarrow> dialogue_state \<Rightarrow> dialogue_state" where
  "dialogue_run helo email evs st = foldl (on_event helo email) st evs"

text \<open>The promise: \<open>None\<close> when no event of the connection resolves it.\<close>

definition probeAddress :: "string \<Rightarrow> string \<Rightarrow> socket_event list \<Rightarrow> probe_result option" where
  "probeAddress helo email evs = settled (dialogue_run helo email evs dialogue_init)"

subsection \<open>Splitting a stream of chunks into lines\<close>

lemma split_crlf_not_Nil [simp]: "split_crlf s \<noteq> []"
  by (induction s rule: split_crlf.induct) (auto split: list.splits)

lemma split_crlf_single: "split_crlf s = [w] \<Longrightarrow> w = s"
proof (induction s arbitrary: w rule: split_crlf.induct)
  case (3 c d s)
  then show ?case by (auto split: if_splits list.splits)
qed auto

lemma split_crlf_append:
  "split_crlf (a @ b) = butlast (split_crlf a) @ split_crlf (last (split_crlf a) @ b)"
proof (induction a rule: split_crlf.induct)
  case (3 c d s)
  show ?case
  proof (cases "c = CR \<and> d = LF")
    case True
    with 3 show ?thesis by simp
  next
    case False
    obtain w ws where sp: "split_crlf (d # s) = w # ws" by (cases "split_crlf (d # s)") auto
    show ?thesis
    proof (cases "ws = []")
      case True
      then have "w = d # s" using sp split_crlf_single by blast
      with sp True have "split_crlf (c # d # s) = [c # d # s]"
        by (simp only: split_crlf.simps if_not_P [OF False] list.case)
      then show ?thesis by (simp del: split_crlf.simps)
    next
      case ws: False
      then have "split_crlf ((d # s) @ b) = (w # butlast ws) @ split_crlf (last ws @ b)"
        using "3.IH"(2) [OF False] sp by simp
      moreover have "split_crlf (c # d # t) = (case split_crlf (d # t) of [] \<Rightarrow> [[c]] | w # ws \<Rightarrow> (c # w) # ws)" for t
        by (simp only: split_crlf.simps if_not_P [OF False])
      ultimately show ?thesis using sp ws by (simp del: split_crlf.simps)
    qed
  qed
qed simp_all

lemma split_crlf_last: "split_crlf (last (split_crlf a)) = [last (split_crlf a)]"
proof -
  have "butlast (split_crlf a) @ split_crlf (last (split_crlf a)) = split_crlf a"
    using split_crlf_append [of a "[]"] by simp
  also have "\<dots> = butlast (split_crlf a) @ [last (split_crlf a)]" by simp
  finally show ?thesis by (simp only: same_append_eq)
qed

subsection \<open>The outcome does not depend on how the stream is cut\<close>

text \<open>Everything but the transcript: the transcript interleaves commands with chunks as they
  arrive, so it does depend on the cuts.\<close>

definition erase_result :: "probe_result \<Rightarrow> probe_result" where
  "erase_result r = r\<lparr>p_raw := None\<rparr>"

definition erase :: "dialogue_state \<Rightarrow> dialogue_state" where
  "erase st = st\<lparr>raw := [], settled := map_option erase_result (settled st)\<rparr>"

lemma erase_eq_iff:
  "erase s = erase t \<longleftrightarrow> buffer s = buffer t \<and> step s = step t \<and> d_accepted s = d_accepted t \<and>
     d_greylisted s = d_greylisted t \<and> map_option erase_result (settled s) = map_option erase_result (settled t) \<and>
     sent s = sent t"
  by (cases s; cases t) (auto simp: erase_def)

lemma erase_settle:
  "erase s = erase t \<Longrightarrow> erase_result r = erase_result q \<Longrightarrow> erase (settle r s) = erase (settle q t)"
  by (cases "settled s"; cases "settled t") (simp_all add: erase_eq_iff settle_def)

lemma erase_send: "erase s = erase t \<Longrightarrow> erase (send c s) = erase (send c t)"
  by (simp add: erase_eq_iff send_def)

lemma erase_update:
  "erase s = erase t \<Longrightarrow> erase (s\<lparr>step := x\<rparr>) = erase (t\<lparr>step := x\<rparr>)"
  "erase s = erase t \<Longrightarrow> erase (s\<lparr>buffer := b\<rparr>) = erase (t\<lparr>buffer := b\<rparr>)"
  "erase s = erase t \<Longrightarrow> erase (s\<lparr>raw := y, buffer := b\<rparr>) = erase (t\<lparr>raw := z, buffer := b\<rparr>)"
  "erase s = erase t \<Longrightarrow> erase (s\<lparr>d_accepted := True\<rparr>) = erase (t\<lparr>d_accepted := True\<rparr>)"
  "erase s = erase t \<Longrightarrow> erase (s\<lparr>d_greylisted := True\<rparr>) = erase (t\<lparr>d_greylisted := True\<rparr>)"
  by (simp_all add: erase_eq_iff)

lemma erase_refused: "erase_result (refused s e) = erase_result (refused t e)"
  by (simp add: erase_result_def refused_def)

lemma erase_process_line:
  "erase s = erase t \<Longrightarrow> erase (process_line helo email l s) = erase (process_line helo email l t)"
proof -
  assume e: "erase s = erase t"
  then have st: "step s = step t" "d_accepted s = d_accepted t" "d_greylisted s = d_greylisted t"
    by (simp_all add: erase_eq_iff)
  show ?thesis
    using e st unfolding process_line_def Let_def
    by (auto intro!: erase_settle erase_send erase_update erase_refused simp: erase_result_def
        split: dialogue_step.split)
qed

lemma erase_fold:
  "erase s = erase t \<Longrightarrow> erase (foldl (\<lambda>s l. process_line helo email l s) s ls) =
     erase (foldl (\<lambda>s l. process_line helo email l s) t ls)"
proof (induction ls arbitrary: s t)
  case (Cons l ls)
  from Cons.IH [OF erase_process_line [OF Cons.prems]] show ?case by simp
qed simp

lemma buffer_process_line [simp]: "buffer (process_line helo email l s) = buffer s"
  by (auto simp: process_line_def Let_def settle_def send_def split: dialogue_step.split)

lemma buffer_fold [simp]: "buffer (foldl (\<lambda>s l. process_line helo email l s) s ls) = buffer s"
  by (induction ls arbitrary: s) auto

lemma process_line_buffer:
  "process_line helo email l (s\<lparr>buffer := b\<rparr>) = (process_line helo email l s)\<lparr>buffer := b\<rparr>"
  by (auto simp: process_line_def Let_def settle_def send_def refused_def split: dialogue_step.split)

lemma fold_buffer:
  "foldl (\<lambda>s l. process_line helo email l s) (s\<lparr>buffer := b\<rparr>) ls =
     (foldl (\<lambda>s l. process_line helo email l s) s ls)\<lparr>buffer := b\<rparr>"
  by (induction ls arbitrary: s) (auto simp: process_line_buffer)

lemma erase_on_event: "erase s = erase t \<Longrightarrow> erase (on_event helo email s ev) = erase (on_event helo email t ev)"
proof (cases ev)
  case (Data chunk)
  assume e: "erase s = erase t"
  then have "buffer s = buffer t" by (simp add: erase_eq_iff)
  with e Data show ?thesis
    by (simp add: Let_def) (intro erase_fold erase_update)
qed (auto intro!: erase_settle simp: erase_result_def disconnected_def)

lemma erase_run: "erase s = erase t \<Longrightarrow> erase (dialogue_run helo email evs s) = erase (dialogue_run helo email evs t)"
proof (induction evs arbitrary: s t)
  case (Cons e evs)
  from Cons.IH [OF erase_on_event [OF Cons.prems]] show ?case by (simp add: dialogue_run_def)
qed (simp add: dialogue_run_def)

lemma erase_two_chunks:
  "erase (on_event helo email (on_event helo email st (Data a)) (Data b)) =
     erase (on_event helo email st (Data (a @ b)))"
proof -
  let ?la = "split_crlf (buffer st @ a)"
  let ?f = "foldl (\<lambda>s l. process_line helo email l s)"
  let ?lb = "split_crlf (last ?la @ b)"
  have lab: "split_crlf (buffer st @ a @ b) = butlast ?la @ ?lb"
    using split_crlf_append [of "buffer st @ a" b] by simp
  define s1 where "s1 = ?f (st\<lparr>raw := raw st @ a, buffer := last ?la\<rparr>) (butlast ?la)"
  have l: "on_event helo email (on_event helo email st (Data a)) (Data b) =
      ?f (s1\<lparr>raw := raw s1 @ b, buffer := last ?lb\<rparr>) (butlast ?lb)"
    by (simp add: s1_def Let_def)
  have r: "on_event helo email st (Data (a @ b)) =
      ?f (?f (st\<lparr>raw := raw st @ a @ b, buffer := last ?lb\<rparr>) (butlast ?la)) (butlast ?lb)"
    by (simp add: Let_def lab butlast_append last_append)
  have "erase (s1\<lparr>raw := raw s1 @ b, buffer := last ?lb\<rparr>) = erase (s1\<lparr>buffer := last ?lb\<rparr>)"
    by (simp add: erase_eq_iff)
  also have "s1\<lparr>buffer := last ?lb\<rparr> = ?f (st\<lparr>raw := raw st @ a, buffer := last ?lb\<rparr>) (butlast ?la)"
    using fold_buffer [where s = "st\<lparr>raw := raw st @ a, buffer := last ?la\<rparr>" and b = "last ?lb"
      and ls = "butlast ?la"]
    by (simp add: s1_def)
  also have "erase \<dots> = erase (?f (st\<lparr>raw := raw st @ a @ b, buffer := last ?lb\<rparr>) (butlast ?la))"
    by (intro erase_fold erase_update) simp
  finally show ?thesis unfolding l r by (rule erase_fold)
qed

lemma erase_chunks:
  "erase (dialogue_run helo email (map Data (c # cs)) st) = erase (on_event helo email st (Data (concat (c # cs))))"
proof (induction cs arbitrary: c st)
  case (Cons d cs)
  have "erase (dialogue_run helo email (map Data (c # d # cs)) st) =
      erase (dialogue_run helo email (map Data cs) (on_event helo email (on_event helo email st (Data c)) (Data d)))"
    by (simp add: dialogue_run_def)
  also have "\<dots> = erase (dialogue_run helo email (map Data cs) (on_event helo email st (Data (c @ d))))"
    by (intro erase_run erase_two_chunks)
  also have "\<dots> = erase (dialogue_run helo email (map Data ((c @ d) # cs)) st)"
    by (simp add: dialogue_run_def)
  finally show ?case using Cons [of "c @ d" st] by simp
qed (simp add: dialogue_run_def)


subsection \<open>What a verdict means\<close>

text \<open>The commands a conversation has sent when it is at a step, without the \<open>QUIT\<close>.\<close>

fun commands_at :: "string \<Rightarrow> string \<Rightarrow> dialogue_step \<Rightarrow> string list" where
  "commands_at helo email Banner = []"
| "commands_at helo email Ehlo = [ehlo_cmd helo]"
| "commands_at helo email MailFrom = [ehlo_cmd helo, mail_cmd helo]"
| "commands_at helo email RcptTo = [ehlo_cmd helo, mail_cmd helo, rcpt_cmd email]"

definition sent_commands :: "dialogue_state \<Rightarrow> string list" where
  "sent_commands st = filter (\<lambda>c. c \<noteq> quit_line) (sent st)"

definition dialogue_inv :: "string \<Rightarrow> string \<Rightarrow> dialogue_state \<Rightarrow> bool" where
  "dialogue_inv helo email st \<longleftrightarrow>
     sent_commands st = map (\<lambda>c. c @ [CR, LF]) (commands_at helo email (step st)) \<and>
     (settled st = None \<longrightarrow> \<not> d_accepted st \<and> \<not> d_greylisted st \<and> quit_line \<notin> set (sent st)) \<and>
     (case settled st of None \<Rightarrow> True
      | Some r \<Rightarrow> length (filter (\<lambda>c. c = quit_line) (sent st)) = 1 \<and>
          (accepted r \<or> p_greylisted r \<longrightarrow> step st = RcptTo \<and> connected r \<and> p_error r = None) \<and>
          \<not> (accepted r \<and> p_greylisted r) \<and> (connected r \<or> \<not> accepted r))"

lemma cmd_not_quit:
  "ehlo_cmd helo @ [CR, LF] \<noteq> quit_line" "mail_cmd helo @ [CR, LF] \<noteq> quit_line"
  "rcpt_cmd email @ [CR, LF] \<noteq> quit_line"
  by (simp_all add: ehlo_cmd_def mail_cmd_def rcpt_cmd_def quit_line_def)

lemma dialogue_inv_init: "dialogue_inv helo email dialogue_init"
  by (simp add: dialogue_inv_def dialogue_init_def sent_commands_def)

lemma dialogue_inv_buffer: "dialogue_inv helo email (st\<lparr>raw := x, buffer := b\<rparr>) = dialogue_inv helo email st"
  by (simp add: dialogue_inv_def sent_commands_def split: option.split)

lemma settle_inv:
  assumes "dialogue_inv helo email st"
    and "accepted r \<or> p_greylisted r \<Longrightarrow> step st = RcptTo \<and> connected r \<and> p_error r = None"
    and "\<not> (accepted r \<and> p_greylisted r)"
  shows "dialogue_inv helo email (settle r st)"
  using assms
  by (auto simp: dialogue_inv_def settle_def sent_commands_def filter_empty_conv split: option.splits)

lemma send_inv:
  assumes "dialogue_inv helo email st" and "step st \<noteq> RcptTo"
    and "commands_at helo email x = commands_at helo email (step st) @ [c]" and "c @ [CR, LF] \<noteq> quit_line"
  shows "dialogue_inv helo email (send c (st\<lparr>step := x\<rparr>))"
  using assms by (auto simp: dialogue_inv_def send_def sent_commands_def split: option.splits)

lemma rcpt_reply_inv:
  assumes "dialogue_inv helo email st" and "step st = RcptTo"
    and "st' \<in> {st, st\<lparr>d_accepted := True\<rparr>, st\<lparr>d_greylisted := True\<rparr>}"
  shows "dialogue_inv helo email (settle \<lparr>connected = True, accepted = d_accepted st',
    p_greylisted = d_greylisted st', p_raw = Some (raw st'), p_error = None\<rparr> st')"
  using assms
  by (cases "settled st") (auto simp: dialogue_inv_def settle_def sent_commands_def filter_empty_conv)

lemma process_line_inv: "dialogue_inv helo email st \<Longrightarrow> dialogue_inv helo email (process_line helo email l st)"
proof -
  assume inv: "dialogue_inv helo email st"
  have ref: "dialogue_inv helo email (settle (refused st e) st)" for e
    using inv by (rule settle_inv) (simp_all add: refused_def)
  show ?thesis
  proof (cases "step st")
    case Banner
    with inv ref show ?thesis
      by (auto simp: process_line_def Let_def intro!: send_inv cmd_not_quit)
  next
    case Ehlo
    with inv show ?thesis
      by (auto simp: process_line_def Let_def intro!: send_inv cmd_not_quit)
  next
    case MailFrom
    with inv ref show ?thesis
      by (auto simp: process_line_def Let_def intro!: send_inv cmd_not_quit)
  next
    case RcptTo
    with inv show ?thesis
      using rcpt_reply_inv [OF inv RcptTo] unfolding process_line_def Let_def RcptTo dialogue_step.case
      by auto
  qed
qed

lemma fold_inv: "dialogue_inv helo email st \<Longrightarrow>
    dialogue_inv helo email (foldl (\<lambda>s l. process_line helo email l s) st ls)"
  by (induction ls arbitrary: st) (auto intro: process_line_inv)

lemma on_event_inv: "dialogue_inv helo email st \<Longrightarrow> dialogue_inv helo email (on_event helo email st ev)"
  by (cases ev) (auto simp: Let_def dialogue_inv_buffer disconnected_def intro!: fold_inv settle_inv)

lemma run_inv: "dialogue_inv helo email (dialogue_run helo email evs dialogue_init)"
proof (induction evs rule: rev_induct)
  case (snoc e evs)
  then show ?case by (simp add: dialogue_run_def on_event_inv)
qed (simp add: dialogue_run_def dialogue_inv_init)


subsection \<open>Returning\<close>

lemma settle_settled: "\<exists>r'. settled (settle r st) = Some r'"
  by (cases "settled st") (simp_all add: settle_def)

lemma process_line_settled: "settled st = Some r \<Longrightarrow> settled (process_line helo email l st) = Some r"
  by (auto simp: process_line_def Let_def settle_def send_def split: dialogue_step.split)

lemma fold_settled: "settled st = Some r \<Longrightarrow>
    settled (foldl (\<lambda>s l. process_line helo email l s) st ls) = Some r"
  by (induction ls arbitrary: st) (auto intro: process_line_settled)

lemma on_event_settled: "settled st = Some r \<Longrightarrow> settled (on_event helo email st ev) = Some r"
  by (cases ev) (auto simp: Let_def settle_def intro: fold_settled)

lemma run_settled: "settled st = Some r \<Longrightarrow> settled (dialogue_run helo email evs st) = Some r"
  by (induction evs arbitrary: st) (auto simp: dialogue_run_def intro: on_event_settled)

text \<open>The first resolution is final, and a connection on which the inactivity timer or a
  socket error fires resolves the probe.\<close>

theorem probeAddress_returns:
  assumes "Timeout \<in> set evs \<or> (\<exists>m. Error m \<in> set evs)"
  shows "\<exists>r. probeAddress helo email evs = Some r \<and> probeAddress helo email (evs @ later) = Some r"
proof -
  from assms obtain ev where ev: "ev \<in> set evs" "ev = Timeout \<or> (\<exists>m. ev = Error m)" by blast
  then obtain us vs where evs: "evs = us @ ev # vs" by (meson split_list)
  have "\<exists>r. settled (on_event helo email (dialogue_run helo email us dialogue_init) ev) = Some r"
    using ev(2) by (elim disjE exE) (simp_all only: on_event.simps settle_settled)
  then obtain r where r: "settled (on_event helo email (dialogue_run helo email us dialogue_init) ev) = Some r"
    by blast
  have "settled (dialogue_run helo email (vs @ ws)
      (on_event helo email (dialogue_run helo email us dialogue_init) ev)) = Some r" for ws
    using r by (rule run_settled)
  from this [of "[]"] this [of later] show ?thesis
    by (auto simp: probeAddress_def dialogue_run_def evs)
qed

theorem probeAddress_returns_witness:
  "\<exists>r. probeAddress ''h'' ''a@b.de'' [Closed, Timeout] = Some r \<and>
     probeAddress ''h'' ''a@b.de'' ([Closed, Timeout] @ [Data ''220 hi'']) = Some r"
  by (rule probeAddress_returns) simp


end
