(* ===== verification/Lookalike.thy ===== *)
theory Lookalike
  imports Prelude
begin

text \<open>
  \<^verbatim>\<open>src/engine/lookalike.ts\<close>: typosquat detection, with the two-row edit distance of
  the code and the recursive definition of edit distance it is proved equal to.
\<close>

definition PROTECTED_DOMAINS :: "string list" where
  "PROTECTED_DOMAINS =
    [''gmail.com'', ''googlemail.com'', ''yahoo.com'', ''yahoo.co.uk'', ''yahoo.co.in'',
     ''outlook.com'', ''hotmail.com'', ''live.com'', ''msn.com'', ''icloud.com'', ''me.com'',
     ''mac.com'', ''aol.com'', ''protonmail.com'', ''proton.me'', ''gmx.com'', ''gmx.de'',
     ''zoho.com'', ''yandex.com'', ''yandex.ru'', ''mail.com'', ''mail.ru'', ''fastmail.com'',
     ''rediffmail.com'', ''qq.com'', ''163.com'', ''126.com'', ''naver.com'', ''daum.net'',
     ''comcast.net'', ''verizon.net'', ''att.net'']"

text \<open>The entries of \<open>HOMOGLYPH_MAP\<close>, in the order \<open>Object.entries\<close> lists them: integer-like
  keys first, ascending, then the others in insertion order.\<close>

definition HOMOGLYPH_MAP :: "(char \<times> char) list" where
  "HOMOGLYPH_MAP =
    [(CHR ''0'', CHR ''o''), (CHR ''1'', CHR ''l''), (CHR ''3'', CHR ''e''), (CHR ''5'', CHR ''s''),
     (CHR ''!'', CHR ''i''), (CHR ''|'', CHR ''l''), (CHR ''@'', CHR ''a''), (CHR ''$'', CHR ''s'')]"

definition NESTING_BRANDS :: "string list" where
  "NESTING_BRANDS =
    [''gmail'', ''googlemail'', ''yahoo'', ''outlook'', ''hotmail'', ''icloud'', ''protonmail'',
     ''yandex'', ''rediffmail'', ''fastmail'']"

definition substitute :: "string \<Rightarrow> char \<times> char \<Rightarrow> string" where
  "substitute s p = join_with [snd p] (split_on (fst p) s)"

definition normalizeHomoglyphs :: "string \<Rightarrow> string" where
  "normalizeHomoglyphs s =
     (let mapped = foldl substitute (js_lower s) HOMOGLYPH_MAP
      in replace2 (CHR ''v'') (CHR ''v'') (CHR ''w'')
           (replace2 (CHR ''r'') (CHR ''n'') (CHR ''m'') mapped))"

text \<open>
  The inner loop of \<open>levenshtein\<close>: \<open>row_from prev left ca b\<close> computes the cells of the
  current row to the right of the cell \<open>left\<close>, from the previous row \<open>prev\<close> (whose head is
  the cell above \<open>left\<close>) and the rest \<open>b\<close> of the second string.
\<close>

fun row_from :: "nat list \<Rightarrow> nat \<Rightarrow> char \<Rightarrow> string \<Rightarrow> nat list" where
  "row_from (diag # up # prev) left ca (cb # b) =
     (let cost = (if ca = cb then 0 else 1);
          cell = min (up + 1) (min (left + 1) (diag + cost))
      in cell # row_from (up # prev) cell ca b)"
| "row_from prev left ca b = []"

text \<open>The outer loop: \<open>i\<close> is the row number, written into the first cell of the row.\<close>

fun lev_rows :: "nat \<Rightarrow> nat list \<Rightarrow> string \<Rightarrow> string \<Rightarrow> nat list" where
  "lev_rows i prev [] b = prev"
| "lev_rows i prev (ca # a) b = lev_rows (i + 1) (i # row_from prev i ca b) a b"

definition levenshtein :: "string \<Rightarrow> string \<Rightarrow> nat" where
  "levenshtein a b =
     (let m = length a; n = length b
      in if m = 0 then n
         else if n = 0 then m
         else last (lev_rows 1 [0..<n + 1] a b))"

datatype lookalike_reason = edit_distance | homoglyph | subdomain_nesting

record lookalike_result =
  isLookalike :: bool
  impersonates :: "string option"
  lookalikeReason :: "lookalike_reason option"

definition not_lookalike :: lookalike_result where
  "not_lookalike = \<lparr>isLookalike = False, impersonates = None, lookalikeReason = None\<rparr>"

definition is_lookalike :: "string \<Rightarrow> lookalike_reason \<Rightarrow> lookalike_result" where
  "is_lookalike d r = \<lparr>isLookalike = True, impersonates = Some d, lookalikeReason = Some r\<rparr>"

definition isFreeEmailProvider :: "string \<Rightarrow> bool" where
  "isFreeEmailProvider domain \<longleftrightarrow> js_lower domain \<in> set PROTECTED_DOMAINS"

definition brand_of :: "string \<Rightarrow> string" where
  "brand_of protectedDomain = hd (split_on (CHR ''.'') protectedDomain)"

text \<open>The first loop: a distinctive brand as a label of an unrelated domain.\<close>

fun nesting_loop :: "string list \<Rightarrow> string list \<Rightarrow> lookalike_result option" where
  "nesting_loop labels [] = None"
| "nesting_loop labels (p # ps) =
     (let brand = brand_of p;
          protectedLabels = split_on (CHR ''.'') p;
          trailingSuffix = join_with ''.'' (slice_last (length protectedLabels) labels)
      in if brand \<notin> set NESTING_BRANDS then nesting_loop labels ps
         else if trailingSuffix = p then nesting_loop labels ps
         else if brand \<in> set labels then Some (is_lookalike p subdomain_nesting)
         else nesting_loop labels ps)"

text \<open>The second loop: edit distance, then homoglyphs.\<close>

fun near_loop :: "string \<Rightarrow> string \<Rightarrow> string list \<Rightarrow> lookalike_result option" where
  "near_loop lower normalized [] = None"
| "near_loop lower normalized (p # ps) =
     (if lower = p then near_loop lower normalized ps
      else let rawDist = levenshtein lower p;
               threshold = (if length p \<le> 8 then 1 else 2)
        in if rawDist > 0 \<and> rawDist \<le> threshold then Some (is_lookalike p edit_distance)
           else if normalized = p \<and> lower \<noteq> p then Some (is_lookalike p homoglyph)
           else near_loop lower normalized ps)"

definition checkLookalike :: "string \<Rightarrow> lookalike_result" where
  "checkLookalike domain =
     (let lower = js_lower domain in
      if lower \<in> set PROTECTED_DOMAINS then not_lookalike
      else case nesting_loop (split_on (CHR ''.'') lower) PROTECTED_DOMAINS of
             Some r \<Rightarrow> r
           | None \<Rightarrow>
               (case near_loop lower (normalizeHomoglyphs lower) PROTECTED_DOMAINS of
                  Some r \<Rightarrow> r
                | None \<Rightarrow> not_lookalike))"

subsection \<open>Edit distance\<close>

text \<open>\<open>edits a b n\<close>: \<open>a\<close> can be turned into \<open>b\<close> by a left-to-right alignment with \<open>n\<close>
  deletions, insertions and substitutions.\<close>

inductive edits :: "string \<Rightarrow> string \<Rightarrow> nat \<Rightarrow> bool" where
  ed_Nil: "edits [] [] 0"
| ed_del: "edits a b n \<Longrightarrow> edits (x # a) b (n + 1)"
| ed_ins: "edits a b n \<Longrightarrow> edits a (y # b) (n + 1)"
| ed_sub: "edits a b n \<Longrightarrow> edits (x # a) (y # b) (n + (if x = y then 0 else 1))"

fun edit :: "string \<Rightarrow> string \<Rightarrow> nat" where
  "edit [] b = length b"
| "edit (x # a) [] = length (x # a)"
| "edit (x # a) (y # b) =
     min (edit a (y # b) + 1) (min (edit (x # a) b + 1) (edit a b + (if x = y then 0 else 1)))"

lemma edit_Nil2 [simp]: "edit a [] = length a"
  by (cases a) auto

lemma edits_ins_all: "edits [] b (length b)"
  by (induction b) (use ed_Nil ed_ins in fastforce)+

lemma edits_del_all: "edits a [] (length a)"
  by (induction a) (use ed_Nil ed_del in fastforce)+

lemma edits_edit: "edits a b (edit a b)"
proof (induction a b rule: edit.induct)
  case (1 b)
  show ?case by (simp add: edits_ins_all)
next
  case (2 x a)
  show ?case using edits_del_all [of "x # a"] by simp
next
  case (3 x a y b)
  note del = ed_del [OF "3.IH"(1), of x] and ins = ed_ins [OF "3.IH"(2), of y]
    and sub = ed_sub [OF "3.IH"(3), of x y]
  show ?case
    using del ins sub unfolding edit.simps min_def by presburger
qed

lemma edit_Cons_le: "edit (x # a) b \<le> edit a b + 1" "edit a (y # b) \<le> edit a b + 1"
proof (induction a b rule: edit.induct)
  case (1 b)
  { case 1 show ?case by (cases b) (auto simp: min_le_iff_disj) next case 2 show ?case by simp }
next
  case (2 x a)
  { case 1 show ?case by simp next case 2 show ?case by (simp add: min_le_iff_disj) }
next
  case (3 x a y b)
  { case 1 show ?case by (simp add: min_le_iff_disj) next case 2 show ?case by (simp add: min_le_iff_disj) }
qed

lemma edit_least: "edits a b n \<Longrightarrow> edit a b \<le> n"
proof (induction rule: edits.induct)
  case (ed_del a b n x)
  then show ?case using edit_Cons_le(1) [of x a b] by linarith
next
  case (ed_ins a b n y)
  then show ?case using edit_Cons_le(2) [of a y b] by linarith
next
  case (ed_sub a b n x y)
  then show ?case by (auto simp: min_le_iff_disj)
qed simp

lemma edits_append: "edits a b n \<Longrightarrow> edits c d m \<Longrightarrow> edits (a @ c) (b @ d) (n + m)"
proof (induction rule: edits.induct)
  case (ed_del a b n x)
  then show ?case using edits.ed_del by fastforce
next
  case (ed_ins a b n y)
  then show ?case using edits.ed_ins by fastforce
next
  case (ed_sub a b n x y)
  then have "edits ((x # a) @ c) ((y # b) @ d) ((n + m) + (if x = y then 0 else 1))"
    using edits.ed_sub by fastforce
  moreover have "(n + m) + (if x = y then 0 else 1) = n + (if x = y then 0 else 1) + m" by simp
  ultimately show ?case by (simp only: append_Cons)
qed simp

lemma edits_rev: "edits a b n \<Longrightarrow> edits (rev a) (rev b) n"
proof (induction rule: edits.induct)
  case ed_Nil
  show ?case using edits.ed_Nil by simp
next
  case (ed_del a b n x)
  have "edits [x] [] (0 + 1)" by (intro edits.intros)
  from edits_append [OF ed_del.IH this] show ?case by simp
next
  case (ed_ins a b n y)
  have "edits [] [y] (0 + 1)" by (intro edits.intros)
  from edits_append [OF ed_ins.IH this] show ?case by simp
next
  case (ed_sub a b n x y)
  have "edits [x] [y] (0 + (if x = y then 0 else 1))" by (intro edits.intros)
  from edits_append [OF ed_sub.IH this] show ?case by simp
qed

lemma edit_rev: "edit (rev a) (rev b) = edit a b"
proof (rule antisym)
  show "edit (rev a) (rev b) \<le> edit a b"
    by (intro edit_least edits_rev edits_edit)
  show "edit a b \<le> edit (rev a) (rev b)"
    using edits_rev [OF edits_edit, of "rev a" "rev b"] by (intro edit_least) simp
qed

lemma edit_LEAST: "edit a b = (LEAST n. edits a b n)"
  by (rule Least_equality [symmetric]) (auto intro: edits_edit edit_least)

subsection \<open>The two-row algorithm\<close>

text \<open>The row of the table for the reversed prefix \<open>ra\<close>, from the column of the reversed
  prefix \<open>rb\<close> on, \<open>v\<close> being the rest of the second string.\<close>

fun cells :: "string \<Rightarrow> string \<Rightarrow> string \<Rightarrow> nat list" where
  "cells ra rb [] = [edit ra rb]"
| "cells ra rb (y # v) = edit ra rb # cells ra (y # rb) v"

lemma cells_Cons: "cells ra rb v = edit ra rb # tl (cells ra rb v)"
  by (cases v) auto

lemma row_from_cells: "row_from (cells ra rb v) (edit (ca # ra) rb) ca v = tl (cells (ca # ra) rb v)"
proof (induction v arbitrary: rb)
  case (Cons y v)
  let ?up = "edit ra (y # rb)" and ?cell = "edit (ca # ra) (y # rb)"
  have up: "cells ra (y # rb) v = ?up # tl (cells ra (y # rb) v)" by (rule cells_Cons)
  have cell: "min (?up + 1) (min (edit (ca # ra) rb + 1) (edit ra rb + (if ca = y then 0 else 1))) = ?cell"
    by simp
  have "row_from (cells ra rb (y # v)) (edit (ca # ra) rb) ca (y # v) =
      ?cell # row_from (?up # tl (cells ra (y # rb) v)) ?cell ca v"
    by (simp only: cells.simps, subst up, simp only: row_from.simps Let_def cell)
  also have "\<dots> = ?cell # tl (cells (ca # ra) (y # rb) v)"
    using Cons.IH [of "y # rb"] up by simp
  also have "\<dots> = tl (cells (ca # ra) rb (y # v))"
    using cells_Cons [of "ca # ra" "y # rb" v] by simp
  finally show ?case .
qed simp

lemma lev_rows_cells: "lev_rows (Suc (length ra)) (cells ra [] b) a b = cells (rev a @ ra) [] b"
proof (induction a arbitrary: ra)
  case (Cons ca a)
  have "Suc (length ra) # row_from (cells ra [] b) (Suc (length ra)) ca b = cells (ca # ra) [] b"
    using row_from_cells [of ra "[]" b ca] cells_Cons [of "ca # ra" "[]" b] by simp
  with Cons [of "ca # ra"] show ?case by simp
qed simp

lemma last_cells: "last (cells ra rb v) = edit ra (rev v @ rb)"
proof (induction v arbitrary: rb)
  case (Cons y v)
  have "cells ra (y # rb) v \<noteq> []" by (cases v) auto
  with Cons show ?case by simp
qed simp

lemma cells_first_row: "cells [] rb v = [length rb..<length rb + length v + 1]"
  by (induction v arbitrary: rb) (auto simp: upt_rec)

lemma levenshtein_edit: "levenshtein a b = edit a b"
proof -
  have "lev_rows 1 [0..<length b + 1] a b = cells (rev a) [] b"
    using lev_rows_cells [of "[]" b a] cells_first_row [of "[]" b] by simp
  then have "last (lev_rows 1 [0..<length b + 1] a b) = edit a b"
    by (simp add: last_cells edit_rev)
  then show ?thesis by (simp add: levenshtein_def Let_def)
qed

text \<open>C25: the two-row dynamic program computes the edit distance: the least number of
  deletions, insertions and substitutions over all alignments of the two strings.\<close>

theorem levenshtein_is_edit_distance: "levenshtein a b = (LEAST n. edits a b n)"
  by (simp add: levenshtein_edit edit_LEAST)

lemma edit_0_iff: "edit a b = 0 \<longleftrightarrow> a = b"
  by (induction a b rule: edit.induct) (auto simp: min_def split: if_splits)

subsection \<open>Homoglyphs\<close>

lemma substitute_map: "substitute s (c, d) = map (\<lambda>x. if x = c then d else x) s"
proof -
  have "join_with [d] (split_on c s) = map (\<lambda>x. if x = c then d else x) s"
  proof (induction s)
    case (Cons x s)
    obtain w ws where "split_on c s = w # ws" by (cases "split_on c s") auto
    with Cons show ?case by (cases ws) auto
  qed simp
  then show ?thesis by (simp add: substitute_def)
qed

subsection \<open>The verdict\<close>

definition nested_brand :: "string \<Rightarrow> string \<Rightarrow> bool" where
  "nested_brand lower p \<longleftrightarrow> brand_of p \<in> set NESTING_BRANDS \<and>
     brand_of p \<in> set (split_on (CHR ''.'') lower) \<and>
     join_with ''.'' (slice_last (length (split_on (CHR ''.'') p)) (split_on (CHR ''.'') lower)) \<noteq> p"

definition near_miss :: "string \<Rightarrow> string \<Rightarrow> bool" where
  "near_miss lower p \<longleftrightarrow>
     (LEAST n. edits lower p n) \<in> {1..if length p \<le> 8 then 1 else 2} \<or> normalizeHomoglyphs lower = p"

lemma nesting_loop_None: "nesting_loop (split_on (CHR ''.'') lower) ps = None \<longleftrightarrow> (\<forall>p \<in> set ps. \<not> nested_brand lower p)"
  by (induction "split_on (CHR ''.'') lower" ps rule: nesting_loop.induct)
    (auto simp: nested_brand_def Let_def)

lemma nesting_loop_Some:
  "nesting_loop (split_on (CHR ''.'') lower) ps = Some r \<Longrightarrow>
     \<exists>p \<in> set ps. nested_brand lower p \<and> r = is_lookalike p subdomain_nesting"
  by (induction "split_on (CHR ''.'') lower" ps rule: nesting_loop.induct)
    (auto simp: nested_brand_def Let_def split: if_splits)

lemma near_loop_step:
  "near_loop lower (normalizeHomoglyphs lower) (p # ps) =
     (if lower \<noteq> p \<and> near_miss lower p then
        Some (is_lookalike p
          (if (LEAST n. edits lower p n) \<in> {1..if length p \<le> 8 then 1 else 2} then edit_distance else homoglyph))
      else near_loop lower (normalizeHomoglyphs lower) ps)"
  by (auto simp: near_miss_def Let_def levenshtein_edit edit_LEAST)

lemma near_loop_None:
  "near_loop lower (normalizeHomoglyphs lower) ps = None \<longleftrightarrow>
     (\<forall>p \<in> set ps. lower = p \<or> \<not> near_miss lower p)"
  by (induction ps) (simp, simp add: near_loop_step del: near_loop.simps(2))

lemma near_loop_Some:
  "near_loop lower (normalizeHomoglyphs lower) ps = Some r \<Longrightarrow>
     \<exists>p \<in> set ps. lower \<noteq> p \<and> near_miss lower p \<and>
       (r = is_lookalike p edit_distance \<or> r = is_lookalike p homoglyph)"
proof (induction ps)
  case (Cons p ps)
  then show ?case by (simp add: near_loop_step del: near_loop.simps(2) split: if_splits)
qed simp

text \<open>A domain is flagged exactly when it is not itself a protected provider and some
  protected provider is nested in it as a brand label under a foreign suffix, or is within
  edit distance 1 (providers of at most 8 characters) or 2, or is what the domain reads as
  after homoglyph normalization; and the provider reported is such a one.\<close>

theorem checkLookalike_verdict:
  "let r = checkLookalike d; lower = js_lower d in
     (isLookalike r \<longleftrightarrow> lower \<notin> set PROTECTED_DOMAINS \<and>
        (\<exists>p \<in> set PROTECTED_DOMAINS. nested_brand lower p \<or> near_miss lower p)) \<and>
     (case impersonates r of
        None \<Rightarrow> \<not> isLookalike r
      | Some p \<Rightarrow> isLookalike r \<and> p \<in> set PROTECTED_DOMAINS \<and> p \<noteq> lower \<and>
          (if lookalikeReason r = Some subdomain_nesting then nested_brand lower p else near_miss lower p))"
proof -
  define lower where "lower = js_lower d"
  let ?n = "nesting_loop (split_on (CHR ''.'') lower) PROTECTED_DOMAINS"
  let ?m = "near_loop lower (normalizeHomoglyphs lower) PROTECTED_DOMAINS"
  show ?thesis
  proof (cases "lower \<in> set PROTECTED_DOMAINS")
    case True
    then show ?thesis by (simp add: checkLookalike_def lower_def [symmetric] not_lookalike_def)
  next
    case out: False
    show ?thesis
    proof (cases ?n)
      case (Some r)
      from nesting_loop_Some [OF this] obtain p where p: "p \<in> set PROTECTED_DOMAINS"
        "nested_brand lower p" "r = is_lookalike p subdomain_nesting" by blast
      have "checkLookalike d = r"
        using out Some by (simp add: checkLookalike_def lower_def [symmetric])
      with p out show ?thesis by (auto simp: lower_def [symmetric] is_lookalike_def)
    next
      case nn: None
      show ?thesis
      proof (cases ?m)
        case (Some r)
        from near_loop_Some [OF this] obtain p where p: "p \<in> set PROTECTED_DOMAINS"
          "near_miss lower p" "r = is_lookalike p edit_distance \<or> r = is_lookalike p homoglyph" by blast
        have "checkLookalike d = r"
          using out nn Some by (simp add: checkLookalike_def lower_def [symmetric])
        with p out show ?thesis by (auto simp: lower_def [symmetric] is_lookalike_def)
      next
        case None
        have "checkLookalike d = not_lookalike"
          using out nn None by (simp add: checkLookalike_def lower_def [symmetric])
        moreover have "\<not> nested_brand lower p \<and> \<not> near_miss lower p"
          if "p \<in> set PROTECTED_DOMAINS" for p
          using nn [THEN nesting_loop_None [THEN iffD1]] None [THEN near_loop_None [THEN iffD1]] out that
          by metis
        ultimately show ?thesis by (auto simp: lower_def [symmetric] not_lookalike_def)
      qed
    qed
  qed
qed

end
