(* ===== verification/SmtpProbe.thy ===== *)
theory SmtpProbe
  imports SmtpDialogue TtlCache Lookalike
begin

text \<open>
  \<^verbatim>\<open>src/engine/smtp.ts\<close>: the probe of an address over its MX hosts, by the relay or by
  the local dialogue, with the relay circuit breaker and the per-domain catch-all cache. The
  sockets, the relay and the outcome of a database or Redis call are parameters
  (\<open>probe_env\<close>); the two stores are the state (\<open>probe_world\<close>). \<open>None\<close> as the result of a
  probe is a promise that is never settled.
\<close>

record smtp_result =
  checked :: bool
  reachable :: "bool option"
  isCatchAll :: "bool option"
  greylisted :: bool
  rawResponse :: "string option"
  smtpError :: "string option"

definition smtp_notChecked :: "string \<Rightarrow> smtp_result" where
  "smtp_notChecked reason = \<lparr>checked = False, reachable = None, isCatchAll = None,
     greylisted = False, rawResponse = None, smtpError = Some reason\<rparr>"

text \<open>The first event of a connection attempt, for \<open>tcpReachable\<close>.\<close>

datatype tcp_event = TcpConnect | TcpTimeout | TcpError

text \<open>What the relay's \<open>fetch\<close> does. A thrown value is described by whether it is an
  \<open>Error\<close>, its name, the name of its cause when that is an \<open>Error\<close>, and its message.\<close>

datatype relay_reply =
    RelayStatus int
  | RelayData bool "bool option" "bool option" bool "string option"
  | RelayThrow bool string "string option" string

record probe_env =
  tcp_event :: "string \<Rightarrow> nat \<Rightarrow> tcp_event"
  socket_events :: "string \<Rightarrow> string \<Rightarrow> nat \<Rightarrow> socket_event list"
  relay_reply :: "string \<Rightarrow> string \<Rightarrow> relay_reply"
  catchall_read_ok :: bool
  catchall_write_ok :: bool
  redis_read_ok :: bool
  redis_write_ok :: bool

record smtp_config =
  SMTP_CHECK_ENABLED :: bool
  SMTP_PROBE_URL :: "string option"
  SMTP_HELO_DOMAIN :: string

record catchall_row =
  row_isCatchAll :: bool
  row_expiresAt :: int

type_synonym catchall_table = "string \<rightharpoonup> catchall_row"

record probe_world =
  domainCatchAllCache :: catchall_table
  relay_down_until :: "int option"

definition CATCHALL_PROBE_LOCAL :: string where "CATCHALL_PROBE_LOCAL = ''cnt-probe-v1-xq7z2k9m''"

definition SMTP_PORT :: nat where "SMTP_PORT = 25"

definition SMTP_PORT_FALLBACK :: nat where "SMTP_PORT_FALLBACK = 587"

definition MAX_MX_ATTEMPTS :: nat where "MAX_MX_ATTEMPTS = 3"

definition DOMAIN_CATCHALL_TTL_MS :: int where "DOMAIN_CATCHALL_TTL_MS = 7 * 24 * 60 * 60 * 1000"

definition RELAY_DOWN_TTL_SECONDS :: int where "RELAY_DOWN_TTL_SECONDS = 60"

subsection \<open>The catch-all cache and the circuit breaker\<close>

definition getDomainCatchAll :: "bool \<Rightarrow> string \<Rightarrow> int \<Rightarrow> catchall_table \<Rightarrow> bool option" where
  "getDomainCatchAll read_ok domain now tab =
     (if \<not> read_ok then None
      else case tab domain of
        None \<Rightarrow> None
      | Some cached \<Rightarrow> if row_expiresAt cached < now then None else Some (row_isCatchAll cached))"

definition setDomainCatchAll :: "bool \<Rightarrow> string \<Rightarrow> bool \<Rightarrow> int \<Rightarrow> catchall_table \<Rightarrow> catchall_table" where
  "setDomainCatchAll write_ok domain b now tab =
     (if write_ok
      then tab(domain \<mapsto> \<lparr>row_isCatchAll = b, row_expiresAt = now + DOMAIN_CATCHALL_TTL_MS\<rparr>)
      else tab)"

text \<open>A Redis key set with \<open>px\<close> reads as absent from its expiry on.\<close>

definition isRelayMarkedDown :: "probe_env \<Rightarrow> int \<Rightarrow> probe_world \<Rightarrow> bool" where
  "isRelayMarkedDown env now w \<longleftrightarrow> redis_read_ok env \<and>
     (case relay_down_until w of None \<Rightarrow> False | Some e \<Rightarrow> now < e)"

definition markRelayDown :: "probe_env \<Rightarrow> int \<Rightarrow> probe_world \<Rightarrow> probe_world" where
  "markRelayDown env now w =
     (if redis_write_ok env then w\<lparr>relay_down_until := Some (now + RELAY_DOWN_TTL_SECONDS * 1000)\<rparr>
      else w)"

subsection \<open>The local probe\<close>

fun tcpReachable :: "tcp_event \<Rightarrow> bool" where
  "tcpReachable TcpConnect = True"
| "tcpReachable TcpTimeout = False"
| "tcpReachable TcpError = False"

definition resolvePort :: "probe_env \<Rightarrow> string \<Rightarrow> nat option" where
  "resolvePort env host =
     (let canConnect25 = tcpReachable (tcp_event env host SMTP_PORT);
          canConnect587 = tcpReachable (tcp_event env host SMTP_PORT_FALLBACK)
      in if canConnect25 then Some 25 else if canConnect587 then Some 587 else None)"

definition local_verdict ::
  "probe_env \<Rightarrow> int \<Rightarrow> string \<Rightarrow> string \<Rightarrow> nat \<Rightarrow> bool option \<Rightarrow> probe_result \<Rightarrow> probe_result option \<Rightarrow>
     probe_world \<Rightarrow> smtp_result \<times> probe_world" where
  "local_verdict env now domain mxHost port cachedCatchAll targetResult catchAllResult w =
     (if \<not> connected targetResult then
        (smtp_notChecked (or_else (p_error targetResult)
           (''Could not connect to '' @ mxHost @ '':'' @ show_nat port)), w)
      else if p_greylisted targetResult then
        (\<lparr>checked = True, reachable = None, isCatchAll = None, greylisted = True,
          rawResponse = p_raw targetResult, smtpError = Some ''smtp_greylisted''\<rparr>, w)
      else if \<not> accepted targetResult then
        (\<lparr>checked = True, reachable = Some False, isCatchAll = None, greylisted = False,
          rawResponse = p_raw targetResult, smtpError = None\<rparr>, w)
      else
        let b = (case cachedCatchAll of
                   Some v \<Rightarrow> v
                 | None \<Rightarrow> (case catchAllResult of
                     None \<Rightarrow> False
                   | Some r \<Rightarrow> connected r \<and> accepted r \<and> \<not> p_greylisted r));
            w' = (if cachedCatchAll = None then
                    w\<lparr>domainCatchAllCache :=
                      setDomainCatchAll (catchall_write_ok env) domain b now (domainCatchAllCache w)\<rparr>
                  else w)
        in (\<lparr>checked = True, reachable = Some True, isCatchAll = Some b, greylisted = False,
             rawResponse = p_raw targetResult, smtpError = None\<rparr>, w'))"

definition localProbe ::
  "probe_env \<Rightarrow> smtp_config \<Rightarrow> int \<Rightarrow> string \<Rightarrow> string \<Rightarrow> string \<Rightarrow> probe_world \<Rightarrow>
     (smtp_result \<times> probe_world) option" where
  "localProbe env cfg now email domain mxHost w =
     (case resolvePort env mxHost of
        None \<Rightarrow> Some (smtp_notChecked (''Cannot connect to '' @ mxHost @ '' on port 25 or 587''), w)
      | Some port \<Rightarrow>
          let cachedCatchAll = getDomainCatchAll (catchall_read_ok env) domain now (domainCatchAllCache w);
              catchAllAddr = CATCHALL_PROBE_LOCAL @ ''@'' @ domain;
              probe = (\<lambda>a. probeAddress (SMTP_HELO_DOMAIN cfg) a (socket_events env a mxHost port))
          in (case probe email of
                None \<Rightarrow> None
              | Some targetResult \<Rightarrow>
                  (case cachedCatchAll of
                     Some v \<Rightarrow> Some (local_verdict env now domain mxHost port cachedCatchAll targetResult None w)
                   | None \<Rightarrow>
                       (case probe catchAllAddr of
                          None \<Rightarrow> None
                        | Some r \<Rightarrow>
                            Some (local_verdict env now domain mxHost port cachedCatchAll targetResult (Some r) w)))))"

subsection \<open>The remote probe\<close>

definition isConnectFailure :: "bool \<Rightarrow> string \<Rightarrow> string option \<Rightarrow> string \<Rightarrow> bool" where
  "isConnectFailure isError name cause message \<longleftrightarrow> isError \<and>
     (name = ''ConnectTimeoutError'' \<or> cause = Some ''ConnectTimeoutError'' \<or>
      has_sub ''ECONNREFUSED'' message \<or> has_sub ''ENOTFOUND'' message \<or> has_sub ''EAI_AGAIN'' message)"

fun remoteProbe :: "relay_reply \<Rightarrow> smtp_result" where
  "remoteProbe (RelayStatus s) = smtp_notChecked (''Remote probe HTTP '' @ show_int s)"
| "remoteProbe (RelayData c r a g e) =
     \<lparr>checked = c, reachable = r, isCatchAll = a, greylisted = g, rawResponse = Some [], smtpError = e\<rparr>"
| "remoteProbe (RelayThrow isError name cause message) =
     smtp_notChecked (if isConnectFailure isError name cause message then ''relay_unreachable''
                      else ''Remote probe unreachable'')"

subsection \<open>One host, then the hosts in order\<close>

text \<open>\<open>email.split('@')[1] ?? ''\<close>\<close>

definition split_domain :: "string \<Rightarrow> string" where
  "split_domain email = (case split_on (CHR ''@'') email of _ # d # _ \<Rightarrow> d | _ \<Rightarrow> [])"

definition correct_catchall :: "string \<Rightarrow> smtp_result \<Rightarrow> smtp_result" where
  "correct_catchall domain r =
     (if checked r \<and> isCatchAll r = Some True \<and> isFreeEmailProvider domain
      then r\<lparr>isCatchAll := Some False\<rparr> else r)"

definition smtpProbe ::
  "probe_env \<Rightarrow> smtp_config \<Rightarrow> int \<Rightarrow> string \<Rightarrow> string \<Rightarrow> probe_world \<Rightarrow> (smtp_result \<times> probe_world) option" where
  "smtpProbe env cfg now email mxHost w =
     (if \<not> SMTP_CHECK_ENABLED cfg then
        Some (smtp_notChecked ''SMTP check disabled via SMTP_CHECK_ENABLED=false'', w)
      else let domain = split_domain email in
        if domain = [] then Some (smtp_notChecked ''Could not extract domain from email'', w)
        else
          let useRelay = truthy (SMTP_PROBE_URL cfg) \<and> \<not> isRelayMarkedDown env now w
          in (case (if useRelay then Some (remoteProbe (relay_reply env email mxHost), w)
                    else localProbe env cfg now email domain mxHost w) of
                None \<Rightarrow> None
              | Some (r, w1) \<Rightarrow>
                  let w2 = (if smtpError r = Some ''relay_unreachable'' then markRelayDown env now w1 else w1)
                  in Some (correct_catchall domain r, w2)))"

text \<open>The loop over the hosts; \<open>prev\<close> is the variable \<open>last\<close>.\<close>

fun probe_hosts ::
  "probe_env \<Rightarrow> smtp_config \<Rightarrow> int \<Rightarrow> string \<Rightarrow> string list \<Rightarrow> smtp_result \<Rightarrow> probe_world \<Rightarrow>
     (smtp_result \<times> probe_world) option" where
  "probe_hosts env cfg now email [] prev w = Some (prev, w)"
| "probe_hosts env cfg now email (host # hosts) prev w =
     (case smtpProbe env cfg now email host w of
        None \<Rightarrow> None
      | Some (r, w') \<Rightarrow>
          if checked r then Some (r, w')
          else if smtpError r = Some ''relay_unreachable'' then Some (r, w')
          else probe_hosts env cfg now email hosts r w')"

definition smtpProbeWithFallback ::
  "probe_env \<Rightarrow> smtp_config \<Rightarrow> int \<Rightarrow> string \<Rightarrow> string list \<Rightarrow> probe_world \<Rightarrow> (smtp_result \<times> probe_world) option" where
  "smtpProbeWithFallback env cfg now email mxHosts w =
     probe_hosts env cfg now email (take MAX_MX_ATTEMPTS mxHosts) (smtp_notChecked ''No MX hosts to probe'') w"

subsection \<open>The catch-all cache keeps the cache contract\<close>

interpretation catchall: ttl_cache
  "\<lambda>d t tab. (getDomainCatchAll True d t tab, tab)" "setDomainCatchAll True"
  "\<lambda>b. DOMAIN_CATCHALL_TTL_MS" "\<lambda>d. d" "\<lambda>d b. b" "Map.empty" "\<lambda>tab. True"
  by unfold_locales (auto simp: getDomainCatchAll_def setDomainCatchAll_def)

text \<open>A catch-all status read for a domain was recorded for that very domain no more than
  seven days before, over any history of reads and writes of the shared table.\<close>

theorem catchall_cache_sound:
  "case getDomainCatchAll ok d t (cache_run (\<lambda>d t tab. (getDomainCatchAll True d t tab, tab))
          (setDomainCatchAll True) Map.empty ops) of
     None \<Rightarrow> True
   | Some b \<Rightarrow> \<exists>now. Put d b now \<in> set ops \<and> t \<le> now + DOMAIN_CATCHALL_TTL_MS"
  using catchall.hit_from_history [of d t ops] by (cases ok) (auto simp: getDomainCatchAll_def split: option.split)

subsection \<open>What a probe reports\<close>

text \<open>The combinations the local probe can report: not checked; greylisted with nothing known;
  rejected; or accepted with a catch-all verdict.\<close>

definition probe_shape :: "smtp_result \<Rightarrow> bool" where
  "probe_shape r \<longleftrightarrow>
     \<not> checked r \<and> reachable r = None \<and> isCatchAll r = None \<and> \<not> greylisted r \<and> smtpError r \<noteq> None \<or>
     checked r \<and> greylisted r \<and> reachable r = None \<and> isCatchAll r = None \<or>
     checked r \<and> \<not> greylisted r \<and> reachable r = Some False \<and> isCatchAll r = None \<or>
     checked r \<and> \<not> greylisted r \<and> reachable r = Some True \<and> isCatchAll r \<noteq> None"

lemma notChecked_shape: "probe_shape (smtp_notChecked e)"
  by (simp add: probe_shape_def smtp_notChecked_def)

lemma local_verdict_shape: "probe_shape (fst (local_verdict env now d h p c t r w))"
  by (simp add: local_verdict_def probe_shape_def smtp_notChecked_def Let_def)

lemma localProbe_shape: "localProbe env cfg now email d h w = Some (r, w') \<Longrightarrow> probe_shape r"
  using local_verdict_shape
  by (auto simp: localProbe_def Let_def notChecked_shape split: option.splits) (metis fst_conv)+

lemma correct_catchall_shape: "probe_shape r \<Longrightarrow> probe_shape (correct_catchall d r)"
  by (auto simp: correct_catchall_def probe_shape_def)

lemma checked_correct [simp]: "checked (correct_catchall d r) = checked r"
  by (simp add: correct_catchall_def)

lemma error_correct [simp]: "smtpError (correct_catchall d r) = smtpError r"
  by (simp add: correct_catchall_def)

lemma correct_catchall_free:
  "isFreeEmailProvider d \<Longrightarrow> checked r \<Longrightarrow> isCatchAll (correct_catchall d r) \<noteq> Some True"
  by (simp add: correct_catchall_def)

lemma smtpProbe_free:
  "isFreeEmailProvider (split_domain email) \<Longrightarrow> smtpProbe env cfg now email h w = Some (r, w') \<Longrightarrow>
     checked r \<Longrightarrow> isCatchAll r \<noteq> Some True"
  by (auto simp: smtpProbe_def Let_def smtp_notChecked_def correct_catchall_free
      split: if_splits option.splits)

lemma probe_hosts_free:
  "isFreeEmailProvider (split_domain email) \<Longrightarrow> probe_hosts env cfg now email hs prev w = Some (r, w') \<Longrightarrow>
     checked r \<Longrightarrow> \<not> checked prev \<Longrightarrow> isCatchAll r \<noteq> Some True"
proof (induction hs arbitrary: prev w)
  case (Cons h hs)
  then show ?case using smtpProbe_free [OF Cons.prems(1), of env cfg now h w]
    by (auto split: option.splits if_splits)
qed simp

text \<open>A checked probe of an address at a protected free mail provider never reports a
  catch-all server, whichever host answered and whichever path was used.\<close>

theorem probe_free_provider_not_catchall:
  assumes "isFreeEmailProvider (split_domain email)"
    and "smtpProbeWithFallback env cfg now email hosts w = Some (r, w')" and "checked r"
  shows "isCatchAll r \<noteq> Some True"
  using probe_hosts_free [OF assms(1), of env cfg now _ "smtp_notChecked ''No MX hosts to probe''" w r w']
    assms(2,3)
  by (simp add: smtpProbeWithFallback_def smtp_notChecked_def)

text \<open>The environment of the witnesses: the relay answers with the given reply for every host.\<close>

definition relay_env :: "(string \<Rightarrow> relay_reply) \<Rightarrow> probe_env" where
  "relay_env f = \<lparr>tcp_event = (\<lambda>h p. TcpError), socket_events = (\<lambda>e h p. [Timeout]),
     relay_reply = (\<lambda>e h. f h), catchall_read_ok = True, catchall_write_ok = True,
     redis_read_ok = True, redis_write_ok = True\<rparr>"

definition relay_cfg :: smtp_config where
  "relay_cfg = \<lparr>SMTP_CHECK_ENABLED = True, SMTP_PROBE_URL = Some ''r'', SMTP_HELO_DOMAIN = ''h''\<rparr>"

definition fresh_world :: probe_world where
  "fresh_world = \<lparr>domainCatchAllCache = Map.empty, relay_down_until = None\<rparr>"

theorem probe_free_provider_not_catchall_witness:
  "\<exists>r w. smtpProbeWithFallback (relay_env (\<lambda>h. RelayData True (Some True) (Some True) False None))
      relay_cfg 0 ''a@aol.com'' [''mx''] fresh_world = Some (r, w) \<and> checked r \<and> isCatchAll r \<noteq> Some True"
proof -
  have free: "isFreeEmailProvider (split_domain ''a@aol.com'')" by code_simp
  have d: "split_domain ''a@aol.com'' = ''aol.com''" by (simp add: split_domain_def)
  obtain r w where r: "smtpProbeWithFallback (relay_env (\<lambda>h. RelayData True (Some True) (Some True) False None))
      relay_cfg 0 ''a@aol.com'' [''mx''] fresh_world = Some (r, w)" "checked r"
    by (simp add: smtpProbeWithFallback_def MAX_MX_ATTEMPTS_def smtpProbe_def d relay_cfg_def relay_env_def
        isRelayMarkedDown_def fresh_world_def)
  with probe_free_provider_not_catchall [OF free r] show ?thesis by blast
qed

subsection \<open>The order of the hosts\<close>

text \<open>The probe of one host, from a given state, ends the loop.\<close>

definition conclusive :: "smtp_result \<Rightarrow> bool" where
  "conclusive r \<longleftrightarrow> checked r \<or> smtpError r = Some ''relay_unreachable''"

text \<open>\<open>probe_steps\<close> threads the stores through the probes of a list of hosts.\<close>

fun probe_steps ::
  "probe_env \<Rightarrow> smtp_config \<Rightarrow> int \<Rightarrow> string \<Rightarrow> string list \<Rightarrow> probe_world \<Rightarrow> (smtp_result list \<times> probe_world) option" where
  "probe_steps env cfg now email [] w = Some ([], w)"
| "probe_steps env cfg now email (h # hs) w =
     (case smtpProbe env cfg now email h w of
        None \<Rightarrow> None
      | Some (r, w1) \<Rightarrow> map_option (\<lambda>(rs, w2). (r # rs, w2)) (probe_steps env cfg now email hs w1))"

lemma probe_hosts_steps:
  "probe_hosts env cfg now email hs prev w = Some (r, w') \<Longrightarrow>
     \<exists>k rs. k \<le> length hs \<and> probe_steps env cfg now email (take k hs) w = Some (rs, w') \<and>
       r = last (prev # rs) \<and> (\<forall>q \<in> set (butlast rs). \<not> conclusive q) \<and>
       (k < length hs \<longrightarrow> rs \<noteq> [] \<and> conclusive r)"
proof (induction hs arbitrary: prev w)
  case Nil
  then show ?case by auto
next
  case (Cons h hs)
  obtain q w1 where q: "smtpProbe env cfg now email h w = Some (q, w1)"
    using Cons.prems by (auto split: option.splits)
  show ?case
  proof (cases "conclusive q")
    case True
    with Cons.prems q have "r = q" "w' = w1" by (auto simp: conclusive_def split: if_splits)
    with True q show ?thesis by (intro exI [of _ 1] exI [of _ "[q]"]) simp
  next
    case False
    then have "probe_hosts env cfg now email hs q w1 = Some (r, w')"
      using Cons.prems q by (auto simp: conclusive_def)
    from Cons.IH [OF this] obtain k rs where k: "k \<le> length hs"
      and rs: "probe_steps env cfg now email (take k hs) w1 = Some (rs, w')"
      and r: "r = last (q # rs)" and nc: "\<forall>q \<in> set (butlast rs). \<not> conclusive q"
      and stop: "k < length hs \<longrightarrow> rs \<noteq> [] \<and> conclusive r" by blast
    have "probe_steps env cfg now email (take (Suc k) (h # hs)) w = Some (q # rs, w')"
      using q rs by simp
    moreover have "\<forall>q \<in> set (butlast (q # rs)). \<not> conclusive q" using nc False by auto
    ultimately show ?thesis using k r stop by (intro exI [of _ "Suc k"] exI [of _ "q # rs"]) auto
  qed
qed

text \<open>The probe goes through at most the first three hosts in their order, stops at the first
  one that gives a verdict or reveals a relay outage, and reports the result of the last host it
  probed; no host after a conclusive one is contacted.\<close>

theorem probe_fallback_order:
  assumes "smtpProbeWithFallback env cfg now email hosts w = Some (r, w')"
  shows "\<exists>k rs. k \<le> MAX_MX_ATTEMPTS \<and> k \<le> length hosts \<and>
     probe_steps env cfg now email (take k hosts) w = Some (rs, w') \<and>
     r = (if rs = [] then smtp_notChecked ''No MX hosts to probe'' else last rs) \<and>
     list_all (\<lambda>q. \<not> conclusive q) (butlast rs) \<and>
     (k = min MAX_MX_ATTEMPTS (length hosts) \<or> conclusive r)"
proof -
  obtain k rs where k: "k \<le> length (take MAX_MX_ATTEMPTS hosts)"
    and rs: "probe_steps env cfg now email (take k (take MAX_MX_ATTEMPTS hosts)) w = Some (rs, w')"
    and r: "r = last (smtp_notChecked ''No MX hosts to probe'' # rs)"
    and nc: "\<forall>q \<in> set (butlast rs). \<not> conclusive q"
    and stop: "k < length (take MAX_MX_ATTEMPTS hosts) \<longrightarrow> rs \<noteq> [] \<and> conclusive r"
    using probe_hosts_steps [OF assms [unfolded smtpProbeWithFallback_def]] by blast
  have "take k (take MAX_MX_ATTEMPTS hosts) = take k hosts" using k by (simp add: min.absorb1)
  with k rs r nc stop show ?thesis
    by (intro exI [of _ k] exI [of _ rs]) (auto simp: list_all_iff)
qed

theorem probe_fallback_order_witness:
  "\<exists>r w'. smtpProbeWithFallback (relay_env (\<lambda>h. RelayStatus 500)) relay_cfg 0 ''a@b.de'' [''m'', ''n''] fresh_world
     = Some (r, w') \<and>
   (\<exists>k rs. k \<le> MAX_MX_ATTEMPTS \<and> k \<le> length [''m'', ''n''] \<and>
     probe_steps (relay_env (\<lambda>h. RelayStatus 500)) relay_cfg 0 ''a@b.de'' (take k [''m'', ''n'']) fresh_world = Some (rs, w') \<and>
     r = (if rs = [] then smtp_notChecked ''No MX hosts to probe'' else last rs) \<and>
     list_all (\<lambda>q. \<not> conclusive q) (butlast rs) \<and>
     (k = min MAX_MX_ATTEMPTS (length [''m'', ''n'']) \<or> conclusive r))"
proof -
  have d: "split_domain ''a@b.de'' = ''b.de''" by (simp add: split_domain_def)
  obtain r w' where r: "smtpProbeWithFallback (relay_env (\<lambda>h. RelayStatus 500)) relay_cfg 0 ''a@b.de''
      [''m'', ''n''] fresh_world = Some (r, w')"
    by (simp add: smtpProbeWithFallback_def MAX_MX_ATTEMPTS_def smtpProbe_def d relay_cfg_def relay_env_def
        isRelayMarkedDown_def fresh_world_def smtp_notChecked_def numeral_eq_Suc)
  with probe_fallback_order [OF r] show ?thesis by blast
qed

text \<open>Once the relay has failed to answer, no probe in the next minute uses it: each one is
  the local dialogue.\<close>

theorem relay_outage_remembered:
  assumes "redis_read_ok env" and "redis_write_ok env'" and "t < now + 60000"
    and "SMTP_CHECK_ENABLED cfg" and "split_domain email \<noteq> []"
  shows "smtpProbe env cfg t email h (markRelayDown env' now w) =
     (case localProbe env cfg t email (split_domain email) h (markRelayDown env' now w) of
        None \<Rightarrow> None
      | Some (r, w1) \<Rightarrow> Some (correct_catchall (split_domain email) r,
          if smtpError r = Some ''relay_unreachable'' then markRelayDown env t w1 else w1))"
proof -
  have "isRelayMarkedDown env t (markRelayDown env' now w)"
    using assms by (simp add: isRelayMarkedDown_def markRelayDown_def RELAY_DOWN_TTL_SECONDS_def)
  then show ?thesis using assms by (simp add: smtpProbe_def Let_def split: option.split prod.split)
qed

theorem relay_outage_remembered_witness:
  "\<exists>r w1. smtpProbe (relay_env (\<lambda>h. RelayStatus 500)) relay_cfg 5 ''a@b.de'' ''m''
     (markRelayDown (relay_env (\<lambda>h. RelayStatus 500)) 0 fresh_world) = Some (r, w1) \<and>
     smtpError r = Some ''Cannot connect to m on port 25 or 587''"
proof -
  let ?e = "relay_env (\<lambda>h. RelayStatus 500)"
  have p: "redis_read_ok ?e" "redis_write_ok ?e" "(5::int) < 0 + 60000"
    "SMTP_CHECK_ENABLED relay_cfg" "split_domain ''a@b.de'' \<noteq> []"
    by (simp_all add: relay_env_def relay_cfg_def split_domain_def)
  show ?thesis
    unfolding relay_outage_remembered [OF p]
    by (simp add: localProbe_def resolvePort_def relay_env_def smtp_notChecked_def)
qed

end
