(* ===== verification/SmtpCache.thy ===== *)
theory SmtpCache
  imports SmtpProbe Regex
begin

text \<open>
  \<^verbatim>\<open>src/engine/smtpCache.ts\<close>: the shared table of SMTP verdicts with its life times, and
  the paid providers that are asked when it has no entry. The providers' HTTP replies, attempt by
  attempt, and whether a database call succeeds are parameters.
\<close>

record smtp_cache_result = smtp_result +
  fromCache :: bool

record cache_row =
  r_reachable :: "bool option"
  r_isCatchAll :: "bool option"
  r_resultCode :: nat
  r_result :: string
  r_checkedAt :: int
  r_expiresAt :: int

type_synonym smtp_table = "string \<rightharpoonup> cache_row"

definition TTL_VALID :: int where "TTL_VALID = 30 * 24 * 60 * 60 * 1000"

definition TTL_INVALID :: int where "TTL_INVALID = 7 * 24 * 60 * 60 * 1000"

definition TTL_UNKNOWN :: int where "TTL_UNKNOWN = 1 * 24 * 60 * 60 * 1000"

subsection \<open>The table\<close>

text \<open>A failed delete is swallowed, like a failed read.\<close>

definition table_delete :: "bool \<Rightarrow> string \<Rightarrow> smtp_table \<Rightarrow> smtp_table" where
  "table_delete ok email tab = (if ok then tab(js_lower email := None) else tab)"

definition invalidateSmtpCache :: "bool \<Rightarrow> string \<Rightarrow> smtp_table \<Rightarrow> smtp_table" where
  "invalidateSmtpCache ok email tab = table_delete ok email tab"

definition getSmtpCache :: "bool \<Rightarrow> string \<Rightarrow> int \<Rightarrow> smtp_table \<Rightarrow> smtp_result option \<times> smtp_table" where
  "getSmtpCache ok email now tab =
     (if \<not> ok then (None, tab)
      else case tab (js_lower email) of
        None \<Rightarrow> (None, tab)
      | Some cached \<Rightarrow>
          if now > r_expiresAt cached then (None, table_delete ok email tab)
          else (Some \<lparr>checked = True, reachable = r_reachable cached, isCatchAll = r_isCatchAll cached,
                  greylisted = False, rawResponse = None, smtpError = None\<rparr>, tab))"

definition verdict_ttl :: "bool option \<Rightarrow> int" where
  "verdict_ttl r = (if r = Some False then TTL_INVALID else if r = Some True then TTL_VALID else TTL_UNKNOWN)"

definition stored_catchall :: "string \<Rightarrow> bool option \<Rightarrow> bool option" where
  "stored_catchall email b =
     (if b = Some True \<and> isFreeEmailProvider (split_domain email) then Some False else b)"

definition setSmtpCache :: "bool \<Rightarrow> string \<Rightarrow> ('a smtp_result_scheme) \<Rightarrow> int \<Rightarrow> smtp_table \<Rightarrow> smtp_table" where
  "setSmtpCache ok email r now tab =
     (if \<not> ok then tab
      else
        let expires = now + verdict_ttl (reachable r);
            ca = stored_catchall email (isCatchAll r);
            text = (if reachable r = Some True then ''ok''
                    else if reachable r = Some False then ''error'' else ''unknown'')
        in tab(js_lower email \<mapsto>
             (case tab (js_lower email) of
                None \<Rightarrow> \<lparr>r_reachable = reachable r, r_isCatchAll = ca, r_resultCode = 0, r_result = text,
                        r_checkedAt = now, r_expiresAt = expires\<rparr>
              | Some old \<Rightarrow> old\<lparr>r_reachable := reachable r, r_isCatchAll := ca, r_checkedAt := now,
                        r_expiresAt := expires\<rparr>)))"

subsection \<open>The providers\<close>

definition SMTP_MAX_ATTEMPTS :: nat where "SMTP_MAX_ATTEMPTS = 4"

text \<open>\<open>/\b429\b|rate.?limit|too many/i\<close>\<close>

definition isRateLimitError :: "string \<Rightarrow> bool" where
  "isRateLimitError text =
     test_ci (Or (Then WordB (Then (Lit ''429'') WordB))
       (Or (Then (Lit ''rate'') (Then (Opt AnyChar) (Lit ''limit''))) (Lit ''too many''))) text"

definition notChecked :: "string \<Rightarrow> smtp_cache_result" where
  "notChecked e = \<lparr>checked = False, reachable = None, isCatchAll = None, greylisted = False,
     rawResponse = Some [], smtpError = Some e, fromCache = False\<rparr>"

definition verdict :: "bool \<Rightarrow> bool \<Rightarrow> smtp_cache_result" where
  "verdict reach catchall = \<lparr>checked = True, reachable = Some reach, isCatchAll = Some catchall,
     greylisted = False, rawResponse = None, smtpError = None, fromCache = False\<rparr>"

text \<open>One HTTP attempt: a status with the parsed JSON body (\<open>Inl\<close> the message of the exception
  that parsing raised), or an exception of \<open>fetch\<close> itself (\<open>None\<close>: not an \<open>Error\<close>).\<close>

datatype 'b http_reply = Http int "string option + 'b" | HttpThrow "string option"

text \<open>The outcome of one attempt inside the retry loop: \<open>continue\<close> with a new \<open>lastError\<close>, or
  return.\<close>

datatype attempt_result = Continue string | Return smtp_cache_result

definition caught :: "string option \<Rightarrow> attempt_result" where
  "caught m = Continue (or_else m ''API unreachable'')"

fun retry_loop :: "(nat \<Rightarrow> attempt_result) \<Rightarrow> nat \<Rightarrow> nat \<Rightarrow> string \<Rightarrow> smtp_cache_result" where
  "retry_loop attempt_fn attempt 0 lastError = notChecked lastError"
| "retry_loop attempt_fn attempt (Suc n) lastError =
     (case attempt_fn attempt of
        Return r \<Rightarrow> r
      | Continue e \<Rightarrow> retry_loop attempt_fn (attempt + 1) n e)"

record debounce_body =
  db_debounce :: "(string \<times> string option) option"
  db_success :: "string option"
  db_error :: "string option"

text \<open>\<open>db_debounce\<close> carries the code and the reason.\<close>

definition debounce_attempt :: "debounce_body http_reply \<Rightarrow> attempt_result" where
  "debounce_attempt reply =
     (case reply of
        HttpThrow m \<Rightarrow> caught m
      | Http status body \<Rightarrow>
          if status = 429 \<or> status \<ge> 500 then Continue (''provider '' @ show_int status)
          else if \<not> (200 \<le> status \<and> status < 300) then Return (notChecked ''API error'')
          else case body of
            Inl m \<Rightarrow> caught m
          | Inr data \<Rightarrow>
              if truthy (db_error data) \<and> isRateLimitError (or_else (db_error data) [])
                then Continue ''provider 429''
              else case db_debounce data of
                None \<Rightarrow> Return (notChecked (or_else (db_error data) ''DeBounce verification failed''))
              | Some (c, why) \<Rightarrow>
                  if db_success data \<noteq> Some ''1''
                    then Return (notChecked (or_else (db_error data) ''DeBounce verification failed''))
                  else let reason = js_lower (or_else why []) in
                    if c = ''1'' \<or> c = ''2'' \<or> c = ''5''
                      then Return (verdict True (has_sub ''accept all'' reason \<or> has_sub ''catch'' reason))
                    else if c = ''4'' \<or> c = ''6'' then Return (verdict True True)
                    else if c = ''8'' then Return (verdict False False)
                    else Return (notChecked ''smtp_unknown''))"

record provider_config =
  MV_PROXY_URL :: "string option"
  MV_PROXY_KEY :: "string option"
  DEBOUNCE_API_KEY :: "string option"
  BOUNCER_API_KEY :: "string option"
  MILLIONVERIFIER_API_KEY :: "string option"
  ZEROBOUNCE_API_KEY :: "string option"

definition callMillionVerifier :: "provider_config \<Rightarrow> (nat \<Rightarrow> debounce_body http_reply) \<Rightarrow> smtp_cache_result" where
  "callMillionVerifier cfg replies =
     (let apiKey = (case DEBOUNCE_API_KEY cfg of Some k \<Rightarrow> Some k
                    | None \<Rightarrow> (case BOUNCER_API_KEY cfg of Some k \<Rightarrow> Some k
                               | None \<Rightarrow> MILLIONVERIFIER_API_KEY cfg))
      in if \<not> truthy (MV_PROXY_URL cfg) \<or> \<not> truthy (MV_PROXY_KEY cfg) \<or> \<not> truthy apiKey
         then notChecked ''SMTP provider not configured''
         else retry_loop (\<lambda>k. debounce_attempt (replies k)) 1 SMTP_MAX_ATTEMPTS ''API unreachable'')"

record zerobounce_body =
  zb_status :: "string option"
  zb_error :: "string option"

definition zerobounce_attempt :: "zerobounce_body http_reply \<Rightarrow> attempt_result" where
  "zerobounce_attempt reply =
     (case reply of
        HttpThrow m \<Rightarrow> caught m
      | Http status body \<Rightarrow>
          if status = 429 \<or> status \<ge> 500 then Continue (''provider '' @ show_int status)
          else if \<not> (200 \<le> status \<and> status < 300) then Return (notChecked ''API error'')
          else case body of
            Inl m \<Rightarrow> caught m
          | Inr data \<Rightarrow>
              if truthy (zb_error data) \<and> isRateLimitError (or_else (zb_error data) [])
                then Continue ''provider 429''
              else if \<not> truthy (zb_status data)
                then Return (notChecked (or_else (zb_error data) ''ZeroBounce verification failed''))
              else if zb_status data = Some ''valid'' then Return (verdict True False)
              else if zb_status data = Some ''catch-all'' then Return (verdict True True)
              else if zb_status data \<in> {Some ''invalid'', Some ''spamtrap'', Some ''abuse'', Some ''do_not_mail''}
                then Return (verdict False False)
              else Return (notChecked ''smtp_unknown''))"

definition callZeroBounce :: "provider_config \<Rightarrow> (nat \<Rightarrow> zerobounce_body http_reply) \<Rightarrow> smtp_cache_result" where
  "callZeroBounce cfg replies =
     (if \<not> truthy (ZEROBOUNCE_API_KEY cfg) then notChecked ''ZeroBounce not configured''
      else retry_loop (\<lambda>k. zerobounce_attempt (replies k)) 1 SMTP_MAX_ATTEMPTS ''API unreachable'')"

record provider_env =
  debounce_replies :: "string \<Rightarrow> nat \<Rightarrow> debounce_body http_reply"
  zerobounce_replies :: "string \<Rightarrow> nat \<Rightarrow> zerobounce_body http_reply"
  cache_read_ok :: bool
  cache_write_ok :: bool

definition ask_providers :: "provider_env \<Rightarrow> provider_config \<Rightarrow> string \<Rightarrow> smtp_cache_result" where
  "ask_providers env cfg email =
     (if truthy (ZEROBOUNCE_API_KEY cfg) then
        let zb = callZeroBounce cfg (zerobounce_replies env email)
        in if checked zb then zb else callMillionVerifier cfg (debounce_replies env email)
      else callMillionVerifier cfg (debounce_replies env email))"

definition smtpVerifyWithCache ::
  "provider_env \<Rightarrow> provider_config \<Rightarrow> string \<Rightarrow> int \<Rightarrow> smtp_table \<Rightarrow> smtp_cache_result \<times> smtp_table" where
  "smtpVerifyWithCache env cfg email now tab =
     (case getSmtpCache (cache_read_ok env) email now tab of
        (Some c, tab') \<Rightarrow> (smtp_result.extend (c\<lparr>rawResponse := Some []\<rparr>) \<lparr>fromCache = True\<rparr>, tab')
      | (None, tab') \<Rightarrow>
          let r = ask_providers env cfg email;
              tab'' = (if checked r then setSmtpCache (cache_write_ok env) email r now tab' else tab')
          in (r\<lparr>fromCache := False\<rparr>, tab''))"

subsection \<open>The cache contract\<close>

definition cached_view :: "string \<Rightarrow> smtp_result \<Rightarrow> smtp_result" where
  "cached_view email r = \<lparr>checked = True, reachable = reachable r, isCatchAll = stored_catchall email (isCatchAll r),
     greylisted = False, rawResponse = None, smtpError = None\<rparr>"

interpretation smtp_cache: ttl_cache "getSmtpCache True" "setSmtpCache True"
  "\<lambda>r. verdict_ttl (reachable r)" js_lower cached_view "Map.empty" "\<lambda>tab. True"
  by unfold_locales
    (auto simp: getSmtpCache_def setSmtpCache_def table_delete_def cached_view_def Let_def
      split: option.splits)

lemma stored_catchall_free: "isFreeEmailProvider (split_domain email) \<Longrightarrow> stored_catchall email b \<noteq> Some True"
  by (simp add: stored_catchall_def)

text \<open>C36: over any history of lookups and stores of the shared table, a hit for an address
  reports the verdict stored for that address, in any capitalization, no longer ago than the life
  time of that verdict (30 days, 7 days or 1 day), and never a catch-all verdict for an address
  stored at a protected free mail provider.\<close>

theorem smtp_cache_sound:
  fixes ops :: "(string, smtp_result) cache_op list"
  shows "case fst (getSmtpCache True email t (cache_run (getSmtpCache True) (setSmtpCache True) Map.empty ops)) of
     None \<Rightarrow> True
   | Some x \<Rightarrow> \<exists>email' r now. Put email' r now \<in> set ops \<and> js_lower email' = js_lower email \<and>
       t \<le> now + verdict_ttl (reachable r) \<and> checked x \<and> reachable x = reachable r \<and>
       isCatchAll x = stored_catchall email' (isCatchAll r) \<and>
       \<not> (isFreeEmailProvider (split_domain email') \<and> isCatchAll x = Some True)"
proof (cases "fst (getSmtpCache True email t (cache_run (getSmtpCache True) (setSmtpCache True) Map.empty ops))")
  case (Some x)
  from smtp_cache.hit_from_history [OF this] obtain email' r now where
    p: "Put email' r now \<in> set ops" "js_lower email' = js_lower email" "x = cached_view email' r"
      "t \<le> now + verdict_ttl (reachable r)" by blast
  then have "checked x \<and> reachable x = reachable r \<and> isCatchAll x = stored_catchall email' (isCatchAll r) \<and>
      \<not> (isFreeEmailProvider (split_domain email') \<and> isCatchAll x = Some True)"
    using stored_catchall_free by (simp add: cached_view_def)
  with p Some show ?thesis by fastforce
qed simp

subsection \<open>Retries\<close>

text \<open>The outcome of the first attempt that returns; \<open>Inl\<close> the error of the last one when all
  continue.\<close>

fun first_return :: "attempt_result list \<Rightarrow> string \<Rightarrow> string + smtp_cache_result" where
  "first_return [] e = Inl e"
| "first_return (Continue e' # as) e = first_return as e'"
| "first_return (Return r # as) e = Inr r"

lemma retry_loop_first:
  "retry_loop f k n e = (case first_return (map f [k..<k + n]) e of Inl e' \<Rightarrow> notChecked e' | Inr r \<Rightarrow> r)"
proof (induction n arbitrary: k e)
  case (Suc n)
  have "[k..<k + Suc n] = k # [Suc k..<Suc k + n]" by (simp add: upt_rec)
  then show ?case using Suc [of "Suc k"] by (cases "f k") simp_all
qed simp

text \<open>A provider call returns what the first conclusive one of its four attempts says, so a
  rate limit (status 429 or an error text that says so), a server error or a network failure
  never turns into a verdict about the address; if all four fail it is unchecked with the last
  failure as its reason.\<close>

theorem callZeroBounce_attempts:
  "callZeroBounce cfg replies =
     (if truthy (ZEROBOUNCE_API_KEY cfg)
      then case first_return (map (\<lambda>k. zerobounce_attempt (replies k)) [1, 2, 3, 4]) ''API unreachable'' of
             Inl e \<Rightarrow> notChecked e | Inr r \<Rightarrow> r
      else notChecked ''ZeroBounce not configured'')"
proof -
  have "[1..<1 + SMTP_MAX_ATTEMPTS] = [1, 2, 3, 4]" by (simp add: SMTP_MAX_ATTEMPTS_def upt_rec)
  then show ?thesis by (simp add: callZeroBounce_def retry_loop_first)
qed

lemma zerobounce_attempt_shape:
  "zerobounce_attempt r = Return q \<Longrightarrow> checked q \<Longrightarrow> reachable q \<noteq> None \<and> isCatchAll q \<noteq> None \<and> \<not> greylisted q"
  by (auto simp: zerobounce_attempt_def notChecked_def verdict_def caught_def
      split: http_reply.splits sum.splits if_splits)

lemma debounce_attempt_shape:
  "debounce_attempt r = Return q \<Longrightarrow> checked q \<Longrightarrow> reachable q \<noteq> None \<and> isCatchAll q \<noteq> None \<and> \<not> greylisted q"
  by (auto simp: debounce_attempt_def notChecked_def verdict_def caught_def Let_def
      split: http_reply.splits sum.splits if_splits option.splits prod.splits)

lemma first_return_Inr: "first_return as e = Inr q \<Longrightarrow> Return q \<in> set as"
  by (induction as e rule: first_return.induct) auto

lemma retry_loop_shape:
  assumes "\<And>k q. f k = Return q \<Longrightarrow> checked q \<Longrightarrow> P q" and "checked (retry_loop f k n e)"
  shows "P (retry_loop f k n e)"
  using assms by (auto simp: retry_loop_first notChecked_def split: sum.splits dest!: first_return_Inr)

lemma ask_providers_shape:
  assumes "checked (ask_providers env cfg email)"
  shows "reachable (ask_providers env cfg email) \<noteq> None \<and> isCatchAll (ask_providers env cfg email) \<noteq> None \<and>
    \<not> greylisted (ask_providers env cfg email)"
proof -
  let ?P = "\<lambda>q. reachable q \<noteq> None \<and> isCatchAll q \<noteq> None \<and> \<not> greylisted q"
  have nc: "\<not> checked (notChecked e)" for e by (simp add: notChecked_def)
  have z: "checked (callZeroBounce cfg r) \<Longrightarrow> ?P (callZeroBounce cfg r)" for r
    using retry_loop_shape [of "\<lambda>k. zerobounce_attempt (r k)" ?P] zerobounce_attempt_shape nc
    by (auto simp: callZeroBounce_def split: if_splits)
  have m: "checked (callMillionVerifier cfg r) \<Longrightarrow> ?P (callMillionVerifier cfg r)" for r
    using retry_loop_shape [of "\<lambda>k. debounce_attempt (r k)" ?P] debounce_attempt_shape nc
    by (auto simp: callMillionVerifier_def Let_def split: if_splits)
  show ?thesis using assms z m by (auto simp: ask_providers_def Let_def split: if_splits)
qed

end
