(* ===== verification/Deliverability.thy ===== *)
theory Deliverability
  imports TtlCache
begin

text \<open>
  \<^verbatim>\<open>src/engine/deliverability.ts\<close>: SPF, DMARC, DKIM and DNS blacklist checks of a domain.
  The resolver is a parameter (\<open>None\<close> is a rejected promise), and so are the race of each
  check against its three-second timer and the order in which parallel queries complete. The
  module cache deletes an entry with a timer one hour after it was stored.
\<close>

record deliverability_result =
  spfValid :: bool
  spfRecord :: "string option"
  dmarcValid :: bool
  dmarcRecord :: "string option"
  blacklisted :: bool
  blacklists :: "string list"
  dkimFound :: bool
  dkimSelectors :: "string list"

record dns_env =
  resolveTxt :: "string \<Rightarrow> string list list option"
  resolve4 :: "string \<Rightarrow> string list option"
  spf_in_time :: bool
  dmarc_in_time :: bool
  dkim_in_time :: bool
  blacklist_in_time :: bool
  selector_arrival :: "string list \<Rightarrow> string list"
  listing_arrival :: "(string \<times> string) list \<Rightarrow> (string \<times> string) list"

definition DKIM_SELECTORS :: "string list" where
  "DKIM_SELECTORS =
    [''google'', ''selector1'', ''selector2'', ''k1'', ''mail'',
     ''smtp'', ''default'', ''dkim'', ''s1'', ''s2'', ''email'',
     ''mailjet'', ''mandrill'', ''sendgrid'', ''amazonses'']"

text \<open>Name and suffix of each list.\<close>

definition IP_BLACKLISTS :: "(string \<times> string) list" where
  "IP_BLACKLISTS =
    [(''Spamhaus ZEN'', ''zen.spamhaus.org''), (''Spamhaus SBL'', ''sbl.spamhaus.org''),
     (''Spamhaus XBL'', ''xbl.spamhaus.org''), (''Barracuda'', ''b.barracudacentral.org''),
     (''SORBS SPAM'', ''spam.sorbs.net''), (''SORBS DUHL'', ''dul.sorbs.net''),
     (''SpamCop'', ''bl.spamcop.net''), (''SURBL'', ''multi.surbl.org''),
     (''URIBL'', ''multi.uribl.com''), (''NiX Spam'', ''ix.dnsbl.manitu.net''),
     (''LASHBACK'', ''ubl.unsubscore.com''), (''PSBL'', ''psbl.surriel.com''),
     (''Truncate'', ''truncate.gbudb.net''), (''WPBL'', ''db.wpbl.info''),
     (''Invaluement IVMSIP'', ''sip.invaluement.com'')]"

definition DOMAIN_BLACKLISTS :: "(string \<times> string) list" where
  "DOMAIN_BLACKLISTS =
    [(''SURBL Domain'', ''multi.surbl.org''), (''URIBL Domain'', ''multi.uribl.com''),
     (''dbl.spamhaus.org'', ''dbl.spamhaus.org''), (''Spamhaus DBL'', ''dbl.spamhaus.org''),
     (''URIBL Black'', ''black.uribl.com'')]"

text \<open>The first record, in the order of the reply, that starts with the version tag. A TXT
  record is the concatenation of its parts.\<close>

definition tagged_record :: "string \<Rightarrow> string list list option \<Rightarrow> bool \<times> string option" where
  "tagged_record tag reply =
     (case reply of
        None \<Rightarrow> (False, None)
      | Some records \<Rightarrow>
          (case List.find (\<lambda>r. starts_with tag (js_lower r)) (map concat records) of
             None \<Rightarrow> (False, None)
           | Some r \<Rightarrow> (True, Some r)))"

definition checkSpf :: "dns_env \<Rightarrow> string \<Rightarrow> bool \<times> string option" where
  "checkSpf env domain = tagged_record ''v=spf1'' (resolveTxt env domain)"

definition checkDmarc :: "dns_env \<Rightarrow> string \<Rightarrow> bool \<times> string option" where
  "checkDmarc env domain = tagged_record ''v=dmarc1'' (resolveTxt env (''_dmarc.'' @ domain))"

definition has_dkim_key :: "dns_env \<Rightarrow> string \<Rightarrow> string \<Rightarrow> bool" where
  "has_dkim_key env domain selector =
     (case resolveTxt env (selector @ ''._domainkey.'' @ domain) of
        None \<Rightarrow> False
      | Some [] \<Rightarrow> False
      | Some (parts # _) \<Rightarrow>
          let record = js_lower (concat parts) in has_sub ''v=dkim1'' record \<or> has_sub ''p='' record)"

definition checkDkim :: "dns_env \<Rightarrow> string \<Rightarrow> bool \<times> string list" where
  "checkDkim env domain =
     (let fnd = filter (has_dkim_key env domain) (selector_arrival env DKIM_SELECTORS)
      in (length fnd > 0, fnd))"

text \<open>\<open>[...new Set(xs)]\<close>\<close>

definition js_unique :: "'a list \<Rightarrow> 'a list" where
  "js_unique xs = rev (remdups (rev xs))"

definition reverse_ip :: "string \<Rightarrow> string" where
  "reverse_ip ip = join_with ''.'' (rev (split_on (CHR ''.'') ip))"

definition checkBlacklists :: "dns_env \<Rightarrow> string \<Rightarrow> bool \<times> string list" where
  "checkBlacklists env domain =
     (let ips = or_else (resolve4 env domain) [] in
      if length ips = 0 then (False, [])
      else
        let queries = concat (map (\<lambda>ip. map (\<lambda>bl. (fst bl, reverse_ip ip @ ''.'' @ snd bl)) IP_BLACKLISTS) ips);
            listed = map fst (filter (\<lambda>q. resolve4 env (snd q) \<noteq> None) (listing_arrival env queries));
            unique = js_unique listed
        in (length unique > 0, unique))"

type_synonym deliverability_cache = "string \<rightharpoonup> deliverability_result \<times> int"

definition DELIVERABILITY_TTL_MS :: int where "DELIVERABILITY_TTL_MS = 3600000"

definition cached_deliverability :: "string \<Rightarrow> int \<Rightarrow> deliverability_cache \<Rightarrow> deliverability_result option" where
  "cached_deliverability domain now c =
     (case c domain of None \<Rightarrow> None | Some (r, deleteAt) \<Rightarrow> if now < deleteAt then Some r else None)"

definition store_deliverability ::
  "string \<Rightarrow> deliverability_result \<Rightarrow> int \<Rightarrow> deliverability_cache \<Rightarrow> deliverability_cache" where
  "store_deliverability domain r now c = c(domain \<mapsto> (r, now + DELIVERABILITY_TTL_MS))"

definition checkDeliverability ::
  "dns_env \<Rightarrow> string \<Rightarrow> int \<Rightarrow> deliverability_cache \<Rightarrow> deliverability_result \<times> deliverability_cache" where
  "checkDeliverability env domain now c =
     (case cached_deliverability domain now c of
        Some r \<Rightarrow> (r, c)
      | None \<Rightarrow>
          let spf = (if spf_in_time env then checkSpf env domain else (False, None));
              dmarc = (if dmarc_in_time env then checkDmarc env domain else (False, None));
              dkim = (if dkim_in_time env then checkDkim env domain else (False, []));
              bl = (if blacklist_in_time env then checkBlacklists env domain else (False, []));
              r = \<lparr>spfValid = fst spf, spfRecord = snd spf, dmarcValid = fst dmarc,
                   dmarcRecord = snd dmarc, blacklisted = fst bl, blacklists = snd bl,
                   dkimFound = fst dkim, dkimSelectors = snd dkim\<rparr>
          in (r, store_deliverability domain r now c))"

record domain_blacklist_result =
  dbl_domain :: string
  dbl_ips :: "string list"
  dbl_blacklisted :: bool
  dbl_ipListings :: "(string \<times> string) list"
  dbl_domainListings :: "string list"
  dbl_checkedAt :: int
  dbl_totalChecked :: nat

definition checkDomainBlacklists :: "dns_env \<Rightarrow> string \<Rightarrow> int \<Rightarrow> domain_blacklist_result" where
  "checkDomainBlacklists env domain now =
     (let queries = map (\<lambda>bl. (fst bl, domain @ ''.'' @ snd bl)) DOMAIN_BLACKLISTS;
          domainListings = map fst (filter (\<lambda>q. resolve4 env (snd q) \<noteq> None) (listing_arrival env queries));
          ipListings = [];
          ips = []
      in \<lparr>dbl_domain = domain, dbl_ips = ips,
          dbl_blacklisted = (length ipListings > 0 \<or> length domainListings > 0),
          dbl_ipListings = ipListings, dbl_domainListings = js_unique domainListings,
          dbl_checkedAt = now,
          dbl_totalChecked = length IP_BLACKLISTS * length ips + length DOMAIN_BLACKLISTS\<rparr>)"

subsection \<open>The cache contract\<close>

interpretation deliverability: ttl_cache
  "\<lambda>d t c. (cached_deliverability d t c, c)" store_deliverability
  "\<lambda>r. DELIVERABILITY_TTL_MS - 1" "\<lambda>d. d" "\<lambda>d r. r" "Map.empty" "\<lambda>c. True"
  by unfold_locales (auto simp: cached_deliverability_def store_deliverability_def)

lemma set_js_unique [simp]: "set (js_unique xs) = set xs"
  by (simp add: js_unique_def)

lemma distinct_js_unique [simp]: "distinct (js_unique xs)"
  by (simp add: js_unique_def)

lemma js_unique_Nil_iff [simp]: "js_unique xs = [] \<longleftrightarrow> xs = []"
  by (simp add: js_unique_def)

text \<open>A check that is not served from the cache reports a domain blacklisted exactly when the
  blacklist check finished in time, the domain resolves, and the reversed form of one of its
  addresses resolves under the suffix of some list; the lists it names are exactly those, each
  once, however the parallel queries finish.\<close>

theorem checkDeliverability_blacklists:
  assumes "cached_deliverability d now c = None"
    and "\<And>qs. set (listing_arrival env qs) = set qs"
  shows "let r = fst (checkDeliverability env d now c);
      hits = {name. \<exists>ip \<in> set (or_else (resolve4 env d) []). \<exists>suffix.
        (name, suffix) \<in> set IP_BLACKLISTS \<and> resolve4 env (reverse_ip ip @ ''.'' @ suffix) \<noteq> None}
    in set (blacklists r) = (if blacklist_in_time env then hits else {}) \<and> distinct (blacklists r) \<and>
       (blacklisted r \<longleftrightarrow> blacklists r \<noteq> [])"
proof -
  have bl: "set (snd (checkBlacklists env d)) = {name. \<exists>ip \<in> set (or_else (resolve4 env d) []). \<exists>suffix.
        (name, suffix) \<in> set IP_BLACKLISTS \<and> resolve4 env (reverse_ip ip @ ''.'' @ suffix) \<noteq> None}"
    (is "_ = ?hits")
  proof (cases "or_else (resolve4 env d) [] = []")
    case False
    let ?qs = "concat (map (\<lambda>ip. map (\<lambda>bl. (fst bl, reverse_ip ip @ ''.'' @ snd bl)) IP_BLACKLISTS)
      (or_else (resolve4 env d) []))"
    have "set (snd (checkBlacklists env d)) = fst ` {q \<in> set ?qs. resolve4 env (snd q) \<noteq> None}"
      using False assms(2) [of ?qs] by (simp add: checkBlacklists_def Let_def)
    also have "\<dots> = ?hits" by (force simp: image_iff)
    finally show ?thesis .
  qed (simp add: checkBlacklists_def Let_def)
  have two: "distinct (snd (checkBlacklists env d))"
    "fst (checkBlacklists env d) \<longleftrightarrow> snd (checkBlacklists env d) \<noteq> []"
    by (simp_all add: checkBlacklists_def Let_def)
  show ?thesis
    using assms(1) bl two by (simp add: checkDeliverability_def Let_def)
qed

text \<open>A resolver that knows one domain and one listing of its address, for the witness.\<close>

definition listed_env :: dns_env where
  "listed_env = \<lparr>resolveTxt = (\<lambda>_. None),
     resolve4 = (\<lambda>n. if n = ''a.de'' then Some [''1.2''] else if n = ''2.1.bl.spamcop.net'' then Some [''x''] else None),
     spf_in_time = True, dmarc_in_time = True, dkim_in_time = True, blacklist_in_time = True,
     selector_arrival = (\<lambda>s. s), listing_arrival = rev\<rparr>"

theorem checkDeliverability_blacklists_witness:
  "set (blacklists (fst (checkDeliverability listed_env ''a.de'' 0 Map.empty))) =
     {name. \<exists>ip \<in> set (or_else (resolve4 listed_env ''a.de'') []). \<exists>suffix.
        (name, suffix) \<in> set IP_BLACKLISTS \<and> resolve4 listed_env (reverse_ip ip @ ''.'' @ suffix) \<noteq> None}
   \<and> listing_arrival listed_env = rev"
proof -
  have "cached_deliverability ''a.de'' 0 Map.empty = None"
    "\<And>qs. set (listing_arrival listed_env qs) = set qs" "blacklist_in_time listed_env"
    by (simp_all add: cached_deliverability_def listed_env_def)
  with checkDeliverability_blacklists [OF this(1,2)] show ?thesis
    by (simp add: Let_def listed_env_def)
qed

end
