(* ===== verification/Scorer.thy ===== *)
theory Scorer
  imports Prelude
begin

text \<open>
  \<^verbatim>\<open>src/engine/scorer.ts\<close>: the decision table from verification signals to a status, a
  reason and a score. A flag that may be missing is a \<open>bool option\<close>; only \<open>Some True\<close> counts.
\<close>

datatype verification_status = Valid | Invalid | Risky | Unknown

record scorer_input =
  in_syntaxValid :: bool
  in_mxFound :: bool
  in_isDisposable :: bool
  in_isRoleAccount :: bool
  in_smtpChecked :: bool
  in_smtpReachable :: "bool option"
  in_isCatchAll :: "bool option"
  in_greylisted :: bool
  in_spfValid :: "bool option"
  in_dmarcValid :: "bool option"
  in_blacklisted :: "bool option"
  in_isToxic :: "bool option"
  in_isAbuse :: "bool option"
  in_isLookalike :: "bool option"

record scorer_output =
  out_status :: verification_status
  out_subStatus :: "string option"
  out_score :: nat

definition out :: "verification_status \<Rightarrow> string option \<Rightarrow> nat \<Rightarrow> scorer_output" where
  "out s sub n = \<lparr>out_status = s, out_subStatus = sub, out_score = n\<rparr>"

definition score :: "scorer_input \<Rightarrow> scorer_output" where
  "score i =
     (if \<not> in_syntaxValid i then out Invalid (Some ''syntax_invalid'') 0
      else if \<not> in_mxFound i then out Invalid (Some ''no_mx_records'') 5
      else if in_blacklisted i = Some True then out Risky (Some ''blacklisted_domain'') 10
      else if in_isToxic i = Some True then out Risky (Some ''toxic_domain'') 8
      else if in_isAbuse i = Some True then out Risky (Some ''abuse_tld'') 15
      else if in_isLookalike i = Some True then out Invalid (Some ''lookalike_domain'') 4
      else if in_smtpChecked i \<and> in_smtpReachable i = Some False \<and> \<not> in_greylisted i then
        (if in_isDisposable i then out Invalid (Some ''disposable_smtp_rejected'') 3
         else out Invalid (Some ''smtp_rejected'') 8)
      else if in_greylisted i then
        (if in_isDisposable i then out Risky (Some ''disposable_domain'') 18
         else if in_isRoleAccount i then out Risky (Some ''role_account'') 35
         else out Unknown (Some ''smtp_greylisted'') 52)
      else if in_isDisposable i then
        (if in_smtpChecked i \<and> in_smtpReachable i = Some True then out Risky (Some ''disposable_domain'') 22
         else out Risky (Some ''disposable_domain'') 15)
      else if in_isCatchAll i = Some True then
        (if in_isRoleAccount i then out Risky (Some ''catch_all_role_account'') 28
         else out Risky (Some ''catch_all'') 42)
      else if in_smtpChecked i \<and> in_smtpReachable i = Some True then
        (if in_isRoleAccount i then out Risky (Some ''role_account'') 58
         else out Valid None 100)
      else if in_isRoleAccount i then out Risky (Some ''role_account'') 38
      else out Unknown (Some ''smtp_not_checked'') 55)"

lemma out_simps [simp]:
  "out_status (out s sub n) = s" "out_subStatus (out s sub n) = sub" "out_score (out s sub n) = n"
  by (simp_all add: out_def)

text \<open>The flags that make a domain unsafe on their own.\<close>

definition domain_flagged :: "scorer_input \<Rightarrow> bool" where
  "domain_flagged i \<longleftrightarrow> Some True \<in> {in_blacklisted i, in_isToxic i, in_isAbuse i, in_isLookalike i}"

text \<open>C9: an address is scored valid exactly when its syntax and its MX lookup succeeded, no
  domain flag is set, an SMTP server accepted it without greylisting, and it is neither
  disposable, nor behind a catch-all server, nor a role account.\<close>

theorem score_valid_iff:
  "out_status (score i) = Valid \<longleftrightarrow>
     in_syntaxValid i \<and> in_mxFound i \<and> \<not> domain_flagged i \<and> in_smtpChecked i \<and>
     in_smtpReachable i = Some True \<and> \<not> in_greylisted i \<and> \<not> in_isDisposable i \<and>
     in_isCatchAll i \<noteq> Some True \<and> \<not> in_isRoleAccount i"
  by (auto simp: score_def domain_flagged_def)

lemma score_100_iff: "out_score (score i) = 100 \<longleftrightarrow> out_status (score i) = Valid"
  by (auto simp: score_def)

lemma score_reason_iff: "out_subStatus (score i) = None \<longleftrightarrow> out_status (score i) = Valid"
  by (auto simp: score_def)

text \<open>The score places each status in its own range: invalid addresses score at most 8,
  risky ones between 8 and 58, undetermined ones 52 or 55 and valid ones 100.\<close>

theorem score_ranges:
  "case out_status (score i) of
     Invalid \<Rightarrow> out_score (score i) \<le> 8
   | Risky \<Rightarrow> 8 \<le> out_score (score i) \<and> out_score (score i) \<le> 58
   | Unknown \<Rightarrow> out_score (score i) \<in> {52, 55}
   | Valid \<Rightarrow> out_score (score i) = 100"
  by (simp add: score_def)

text \<open>The SPF and DMARC signals are not used.\<close>

lemma score_ignores_spf: "score (i\<lparr>in_spfValid := a, in_dmarcValid := b\<rparr>) = score i"
  by (simp add: score_def)

end
