(* ===== verification/Engine.thy ===== *)
theory Engine
  imports Syntax Disposable RoleAccount Toxic Mx SmtpCache Deliverability Scorer
begin

text \<open>
  \<^verbatim>\<open>src/engine/index.ts\<close>: the verification pipeline, composed of the stages of the other
  theories, over one record of all the stores it reads and writes. \<open>now\<close> is the time of the
  call and \<open>finish\<close> the time at which the result is persisted. The outcome of a call is a
  value, an exception, or a promise that is never settled.
\<close>

text \<open>A reason is a syntax error or one of the fixed strings.\<close>

datatype sub_status = SyntaxReason syntax_error | Sub string

record verification_checks =
  c_syntaxValid :: bool
  c_mxFound :: bool
  c_mxRecords :: "string list"
  c_isDisposable :: bool
  c_isRoleAccount :: bool
  c_smtpChecked :: bool
  c_smtpReachable :: "bool option"
  c_isCatchAll :: "bool option"
  c_greylisted :: bool
  c_spfValid :: "bool option"
  c_dkimFound :: "bool option"
  c_dmarcValid :: "bool option"
  c_blacklisted :: "bool option"
  c_blacklists :: "string list option"
  c_isToxic :: "bool option"
  c_isLookalike :: "bool option"
  c_freeEmail :: "bool option"
  c_didYouMean :: "string option option"
  c_impersonates :: "string option option"
  c_isAbuse :: "bool option"
  c_toxicReason :: "string option option"

record engine_input =
  i_email :: js_email
  i_apiKeyId :: string
  i_bulkJobId :: "string option"
  i_sourceIp :: "string option"

record persist_input =
  p_email :: js_email
  p_domain :: string
  p_checks :: verification_checks
  p_smtpRaw :: "string option"
  p_subStatus :: "sub_status option"
  p_wallStart :: int
  p_input :: engine_input

record verification_row =
  v_id :: string
  v_email :: js_email
  v_domain :: string
  v_status :: verification_status
  v_subStatus :: "sub_status option"
  v_checks :: verification_checks
  v_smtpRaw :: "string option"
  v_score :: nat
  v_durationMs :: int
  v_apiKeyId :: string
  v_bulkJobId :: "string option"
  v_sourceIp :: "string option"
  v_checkedAt :: int

record verification_result =
  res_id :: string
  res_email :: js_email
  res_domain :: string
  res_status :: verification_status
  res_subStatus :: "sub_status option"
  res_checks :: verification_checks
  res_score :: nat
  res_durationMs :: int
  res_checkedAt :: int

record engine_env =
  mx_replies :: "string \<Rightarrow> nat \<Rightarrow> mx_record list option reply"
  blocklist :: blocklist_file
  probe :: probe_env
  provider :: provider_env
  dns :: dns_env
  deliverability_rejects :: bool
  insert_id :: "string option"

text \<open>\<open>insert_id\<close> is the id the database gives to the new row, \<open>None\<close> when the write fails.\<close>

record engine_config =
  smtp_cfg :: smtp_config
  provider_cfg :: provider_config

record engine_world =
  mxCache :: mx_cache
  disposable :: disposable_state
  probeWorld :: probe_world
  smtpTable :: smtp_table
  deliverabilityCache :: deliverability_cache
  verifications :: "verification_row list"

datatype outcome = Hang | Throw string | Done verification_result engine_world

subsection \<open>Persisting\<close>

text \<open>The input of the second call of \<open>score\<close>, which has only the eight core signals.\<close>

definition core_signals :: "verification_checks \<Rightarrow> scorer_input" where
  "core_signals c = \<lparr>in_syntaxValid = c_syntaxValid c, in_mxFound = c_mxFound c,
     in_isDisposable = c_isDisposable c, in_isRoleAccount = c_isRoleAccount c,
     in_smtpChecked = c_smtpChecked c, in_smtpReachable = c_smtpReachable c,
     in_isCatchAll = c_isCatchAll c, in_greylisted = c_greylisted c,
     in_spfValid = None, in_dmarcValid = None, in_blacklisted = None, in_isToxic = None,
     in_isAbuse = None, in_isLookalike = None\<rparr>"

text \<open>The columns of the row; the optional checks are not stored.\<close>

definition stored_checks :: "verification_checks \<Rightarrow> verification_checks" where
  "stored_checks c = c\<lparr>c_spfValid := None, c_dkimFound := None, c_dmarcValid := None, c_blacklisted := None,
     c_blacklists := None, c_isToxic := None, c_isLookalike := None, c_freeEmail := None,
     c_didYouMean := None, c_impersonates := None, c_isAbuse := None, c_toxicReason := None\<rparr>"

definition persistAndReturn ::
  "engine_env \<Rightarrow> int \<Rightarrow> persist_input \<Rightarrow> engine_world \<Rightarrow> verification_result \<times> engine_world" where
  "persistAndReturn env finish r w =
     (let duration = finish - p_wallStart r;
          scored = score (core_signals (p_checks r));
          sub = (case p_subStatus r of Some s \<Rightarrow> Some s | None \<Rightarrow> map_option Sub (out_subStatus scored));
          row = (\<lambda>rid. \<lparr>v_id = rid, v_email = p_email r, v_domain = p_domain r, v_status = out_status scored,
                  v_subStatus = sub, v_checks = stored_checks (p_checks r), v_smtpRaw = p_smtpRaw r,
                  v_score = out_score scored, v_durationMs = duration,
                  v_apiKeyId = i_apiKeyId (p_input r), v_bulkJobId = i_bulkJobId (p_input r),
                  v_sourceIp = i_sourceIp (p_input r), v_checkedAt = finish\<rparr>);
          (rid, w') = (case insert_id env of
             Some i \<Rightarrow> (i, w\<lparr>verifications := verifications w @ [row i]\<rparr>)
           | None \<Rightarrow> (''ephemeral_'' @ show_int finish, w))
      in (\<lparr>res_id = rid, res_email = p_email r, res_domain = p_domain r, res_status = out_status scored,
           res_subStatus = sub, res_checks = p_checks r, res_score = out_score scored,
           res_durationMs = duration, res_checkedAt = finish\<rparr>, w'))"

text \<open>The checks of the two early returns.\<close>

definition blank_checks :: "bool \<Rightarrow> verification_checks" where
  "blank_checks syntaxOk = \<lparr>c_syntaxValid = syntaxOk, c_mxFound = False, c_mxRecords = [],
     c_isDisposable = False, c_isRoleAccount = False, c_smtpChecked = False, c_smtpReachable = None,
     c_isCatchAll = None, c_greylisted = False, c_spfValid = None, c_dkimFound = None,
     c_dmarcValid = None, c_blacklisted = None, c_blacklists = None, c_isToxic = None,
     c_isLookalike = None, c_freeEmail = None, c_didYouMean = None, c_impersonates = None,
     c_isAbuse = None, c_toxicReason = None\<rparr>"

subsection \<open>The SMTP stage\<close>

definition smtp_initial :: smtp_result where
  "smtp_initial = \<lparr>checked = False, reachable = None, isCatchAll = None, greylisted = False,
     rawResponse = None, smtpError = None\<rparr>"

text \<open>Own cache, then own probe, whose verdict is cached.\<close>

definition own_probe ::
  "engine_env \<Rightarrow> engine_config \<Rightarrow> int \<Rightarrow> string \<Rightarrow> string list \<Rightarrow> engine_world \<Rightarrow> (smtp_result \<times> engine_world) option" where
  "own_probe env cfg now eml hosts w =
     (let (cached, tab) = getSmtpCache (cache_read_ok (provider env)) eml now (smtpTable w);
          w1 = w\<lparr>smtpTable := tab\<rparr>
      in case cached of
           Some c \<Rightarrow> Some (c\<lparr>rawResponse := None\<rparr>, w1)
         | None \<Rightarrow>
             if length hosts > 0 then
               (case smtpProbeWithFallback (probe env) (smtp_cfg cfg) now eml hosts (probeWorld w1) of
                  None \<Rightarrow> None
                | Some (r, pw) \<Rightarrow>
                    let w2 = w1\<lparr>probeWorld := pw\<rparr>
                    in Some (r, if checked r
                       then w2\<lparr>smtpTable := setSmtpCache (cache_write_ok (provider env)) eml r now (smtpTable w2)\<rparr>
                       else w2))
             else Some (smtp_initial, w1))"

definition smtp_stage ::
  "engine_env \<Rightarrow> engine_config \<Rightarrow> int \<Rightarrow> string \<Rightarrow> string \<Rightarrow> string list \<Rightarrow> bool \<Rightarrow> engine_world \<Rightarrow>
     (smtp_result \<times> engine_world) option" where
  "smtp_stage env cfg now eml dmn hosts is_disposable w =
     (if is_disposable then Some (smtp_initial, w)
      else case own_probe env cfg now eml hosts w of
        None \<Rightarrow> None
      | Some (r1, w1) \<Rightarrow>
          let (r2, w2) =
            (if \<not> checked r1 then
               let (mv, tab) = smtpVerifyWithCache (provider env) (provider_cfg cfg) eml now (smtpTable w1)
               in (if checked mv then smtp_result.truncate mv else r1, w1\<lparr>smtpTable := tab\<rparr>)
             else (r1, w1));
            r3 = (if isCatchAll r2 = Some True \<and> isFreeEmailProvider dmn then r2\<lparr>isCatchAll := Some False\<rparr> else r2)
          in Some (r3, w2))"

subsection \<open>Scoring and the pipeline\<close>

definition no_deliverability :: deliverability_result where
  "no_deliverability = \<lparr>spfValid = False, spfRecord = None, dmarcValid = False, dmarcRecord = None,
     blacklisted = False, blacklists = [], dkimFound = False, dkimSelectors = []\<rparr>"

definition did_you_mean :: "string \<Rightarrow> lookalike_result \<Rightarrow> string option" where
  "did_you_mean loc l =
     (if isLookalike l \<and> lookalikeReason l \<noteq> Some subdomain_nesting \<and> truthy (impersonates l)
      then map_option (\<lambda>p. loc @ ''@'' @ p) (impersonates l) else None)"

definition full_signals ::
  "bool \<Rightarrow> bool \<Rightarrow> smtp_result \<Rightarrow> deliverability_result \<Rightarrow> toxic_result \<Rightarrow> lookalike_result \<Rightarrow> scorer_input" where
  "full_signals disp role r d t l = \<lparr>in_syntaxValid = True, in_mxFound = True, in_isDisposable = disp,
     in_isRoleAccount = role, in_smtpChecked = checked r, in_smtpReachable = reachable r,
     in_isCatchAll = isCatchAll r, in_greylisted = greylisted r, in_spfValid = Some (spfValid d),
     in_dmarcValid = Some (dmarcValid d), in_blacklisted = Some (blacklisted d),
     in_isToxic = Some (isToxic t), in_isAbuse = Some (isAbuse t),
     in_isLookalike = Some (isLookalike l)\<rparr>"

text \<open>Stages 7 and 8.\<close>

definition score_and_persist ::
  "engine_env \<Rightarrow> int \<Rightarrow> int \<Rightarrow> engine_input \<Rightarrow> string \<Rightarrow> string \<Rightarrow> string list \<Rightarrow> bool \<Rightarrow> bool \<Rightarrow> smtp_result \<Rightarrow>
     deliverability_result \<Rightarrow> toxic_result \<Rightarrow> lookalike_result \<Rightarrow> engine_world \<Rightarrow>
     verification_result \<times> engine_world" where
  "score_and_persist env now finish inp loc dmn hosts disp role r d t l w =
     persistAndReturn env finish
       \<lparr>p_email = i_email inp, p_domain = dmn,
        p_checks = \<lparr>c_syntaxValid = True, c_mxFound = True, c_mxRecords = hosts, c_isDisposable = disp,
          c_isRoleAccount = role, c_smtpChecked = checked r, c_smtpReachable = reachable r,
          c_isCatchAll = isCatchAll r, c_greylisted = greylisted r, c_spfValid = Some (spfValid d),
          c_dkimFound = Some (dkimFound d), c_dmarcValid = Some (dmarcValid d),
          c_blacklisted = Some (blacklisted d), c_blacklists = Some (blacklists d),
          c_isToxic = Some (isToxic t), c_isLookalike = Some (isLookalike l),
          c_freeEmail = Some (isFreeEmailProvider dmn), c_didYouMean = Some (did_you_mean loc l),
          c_impersonates = Some (impersonates l), c_isAbuse = Some (isAbuse t),
          c_toxicReason = Some (toxicReason t)\<rparr>,
        p_smtpRaw = rawResponse r,
        p_subStatus = map_option Sub (out_subStatus (score (full_signals disp role r d t l))),
        p_wallStart = now, p_input = inp\<rparr> w"

definition verifyEmail ::
  "engine_env \<Rightarrow> engine_config \<Rightarrow> int \<Rightarrow> int \<Rightarrow> engine_input \<Rightarrow> engine_world \<Rightarrow> outcome" where
  "verifyEmail env cfg now finish inp w =
     (let syntaxResult = checkSyntax (i_email inp);
          early = (\<lambda>dmn ok sub w'. case persistAndReturn env finish
             \<lparr>p_email = i_email inp, p_domain = dmn, p_checks = blank_checks ok, p_smtpRaw = None,
              p_subStatus = sub, p_wallStart = now, p_input = inp\<rparr> w' of (r, w'') \<Rightarrow> Done r w'')
      in if \<not> sr_valid syntaxResult then
           early [] False (Some (case sr_reason syntaxResult of
              Some e \<Rightarrow> SyntaxReason e | None \<Rightarrow> Sub ''syntax_invalid'')) w
         else case i_email inp of
           NonStr \<Rightarrow> Throw ''email is not a string''
         | Str eml \<Rightarrow>
         (case extractDomain eml of
            Inl e \<Rightarrow> Throw e
          | Inr dmn \<Rightarrow>
          (case extractLocal eml of
             Inl e \<Rightarrow> Throw e
           | Inr loc \<Rightarrow>
             let (mxResult, mc) = lookupMx (mx_replies env dmn) dmn now (mxCache w);
                 w1 = w\<lparr>mxCache := mc\<rparr>
             in if \<not> found mxResult then
                  early dmn True
                    (Some (Sub (if truthy (mxError mxResult) then ''mx_lookup_error'' else ''no_mx_records''))) w1
                else
                  let (disp, ds) = isDisposableDomain (blocklist env) dmn (disposable w1);
                      role = isRoleAccount loc;
                      w2 = w1\<lparr>disposable := ds\<rparr>
                  in (case smtp_stage env cfg now eml dmn (mxHosts mxResult) disp w2 of
                        None \<Rightarrow> Hang
                      | Some (r, w3) \<Rightarrow>
                          let (d, dc) = checkDeliverability (dns env) dmn now (deliverabilityCache w3);
                              d' = (if deliverability_rejects env then no_deliverability else d);
                              w4 = w3\<lparr>deliverabilityCache := dc\<rparr>
                          in (case score_and_persist env now finish inp loc dmn (mxHosts mxResult) disp role r d'
                                (checkToxic dmn) (checkLookalike dmn) w4 of
                                (res, w5) \<Rightarrow> Done res w5)))))"

subsection \<open>Persisting\<close>

lemma persist_result:
  "persistAndReturn env finish r w = (res, w') \<Longrightarrow>
     res_checks res = p_checks r \<and> res_email res = p_email r \<and> res_domain res = p_domain r \<and>
     res_status res = out_status (score (core_signals (p_checks r))) \<and>
     res_score res = out_score (score (core_signals (p_checks r))) \<and>
     (case insert_id env of
        None \<Rightarrow> w' = w
      | Some i \<Rightarrow> res_id res = i \<and> (\<exists>row. w' = w\<lparr>verifications := verifications w @ [row]\<rparr> \<and>
          v_id row = i \<and> v_email row = res_email res \<and> v_domain row = res_domain res \<and>
          v_status row = res_status res \<and> v_subStatus row = res_subStatus res \<and>
          v_score row = res_score res \<and> v_checks row = stored_checks (res_checks res) \<and>
          v_durationMs row = res_durationMs res))"
  by (auto simp: persistAndReturn_def Let_def split: option.splits)

text \<open>The outcome is one persisted result on top of stores that hold the same rows.\<close>

definition reports :: "engine_env \<Rightarrow> engine_world \<Rightarrow> verification_result \<Rightarrow> engine_world \<Rightarrow> bool" where
  "reports env w res w' \<longleftrightarrow>
     res_status res = out_status (score (core_signals (res_checks res))) \<and>
     res_score res = out_score (score (core_signals (res_checks res))) \<and>
     (case insert_id env of
        None \<Rightarrow> verifications w' = verifications w
      | Some i \<Rightarrow> res_id res = i \<and> (\<exists>row. verifications w' = verifications w @ [row] \<and>
          v_id row = i \<and> v_email row = res_email res \<and> v_domain row = res_domain res \<and>
          v_status row = res_status res \<and> v_subStatus row = res_subStatus res \<and>
          v_score row = res_score res \<and> v_checks row = stored_checks (res_checks res)))"

lemma persist_reports:
  "persistAndReturn env finish r w1 = (res, w') \<Longrightarrow> verifications w1 = verifications w \<Longrightarrow>
     reports env w res w'"
  by (drule persist_result) (auto simp: reports_def split: option.splits)

lemma own_probe_rows: "own_probe env cfg now e hs w = Some (r, w') \<Longrightarrow> verifications w' = verifications w"
  by (auto simp: own_probe_def Let_def split: prod.splits option.splits if_splits)

lemma smtp_stage_rows: "smtp_stage env cfg now e d hs disp w = Some (r, w') \<Longrightarrow> verifications w' = verifications w"
  by (auto simp: smtp_stage_def Let_def split: prod.splits option.splits if_splits dest: own_probe_rows)

subsection \<open>The pipeline, stage by stage\<close>

text \<open>A call that gets past the MX lookup and does not hang ends in stages 7 and 8, applied to
  the results of the earlier stages.\<close>

lemma verifyEmail_Done:
  assumes "verifyEmail env cfg now finish inp w = Done res w'"
  obtains (early) dmn ok sub w1 where "persistAndReturn env finish
        \<lparr>p_email = i_email inp, p_domain = dmn, p_checks = blank_checks ok, p_smtpRaw = None,
         p_subStatus = sub, p_wallStart = now, p_input = inp\<rparr> w1 = (res, w')"
      "verifications w1 = verifications w"
  | (full) eml dmn loc hosts disp r d w2 w3 w4 where
      "i_email inp = Str eml" "sr_valid (checkSyntax (Str eml))"
      "extractDomain eml = Inr dmn" "extractLocal eml = Inr loc"
      "smtp_stage env cfg now eml dmn hosts disp w2 = Some (r, w3)"
      "score_and_persist env now finish inp loc dmn hosts disp (isRoleAccount loc) r d
         (checkToxic dmn) (checkLookalike dmn) w4 = (res, w')"
      "verifications w4 = verifications w"
proof (cases "sr_valid (checkSyntax (i_email inp))")
  case False
  with assms show thesis
    by (intro early [of "[]" False _ w]) (auto simp: verifyEmail_def Let_def split: prod.splits)
next
  case True
  then obtain eml where eml: "i_email inp = Str eml" by (cases "i_email inp") (auto simp: checkSyntax.simps(1))
  obtain dmn where dmn: "extractDomain eml = Inr dmn"
    using assms True eml by (auto simp: verifyEmail_def Let_def split: sum.splits)
  obtain loc where loc: "extractLocal eml = Inr loc"
    using assms True eml dmn by (auto simp: verifyEmail_def Let_def split: sum.splits)
  obtain mx mc where mx: "lookupMx (mx_replies env dmn) dmn now (mxCache w) = (mx, mc)" by fastforce
  show thesis
  proof (cases "found mx")
    case False
    with assms True eml dmn loc mx show thesis
      by (intro early [of dmn True _ "w\<lparr>mxCache := mc\<rparr>"]) (auto simp: verifyEmail_def Let_def split: prod.splits)
  next
    case fnd: True
    obtain disp ds where ds: "isDisposableDomain (blocklist env) dmn (disposable w) = (disp, ds)" by fastforce
    let ?w2 = "w\<lparr>mxCache := mc, disposable := ds\<rparr>"
    obtain r w3 where st: "smtp_stage env cfg now eml dmn (mxHosts mx) disp ?w2 = Some (r, w3)"
      using assms True eml dmn loc mx fnd ds
      by (auto simp: verifyEmail_def Let_def split: option.splits)
    have rows: "verifications w3 = verifications w" using smtp_stage_rows [OF st] by simp
    obtain d dc where d: "checkDeliverability (dns env) dmn now (deliverabilityCache w3) = (d, dc)" by fastforce
    show thesis
      by (rule full [of eml dmn loc "mxHosts mx" disp ?w2 r w3 "if deliverability_rejects env then no_deliverability else d"
            "w3\<lparr>deliverabilityCache := dc\<rparr>"])
        (use assms True eml dmn loc mx fnd ds st d rows in
          \<open>auto simp: verifyEmail_def Let_def split: prod.splits\<close>)
  qed
qed

text \<open>C2: a completed verification stores exactly one row, with the id, status, reason, score and
  core checks of the response, or none when the database write fails; and the status and score
  are those of the decision table on the eight core signals of the response.\<close>

theorem verifyEmail_reports:
  assumes "verifyEmail env cfg now finish inp w = Done res w'"
  shows "reports env w res w'"
  using assms
proof (cases rule: verifyEmail_Done)
  case early
  then show ?thesis by (rule persist_reports)
next
  case full
  then show ?thesis unfolding score_and_persist_def by (blast intro: persist_reports)
qed

lemma address_extracts:
  "sr_valid (checkSyntax (Str e)) \<Longrightarrow> \<exists>d l. extractDomain e = Inr d \<and> extractLocal e = Inr l"
proof -
  assume "sr_valid (checkSyntax (Str e))"
  then have "address (js_trim e)" by (rule accepted_address)
  then have at: "CHR ''@'' \<in> set (js_trim e)" by (auto simp: address_def)
  have "set (js_trim e) \<subseteq> set e"
    by (auto simp: js_trim_def trim_end_def trim_start_def dest!: set_dropWhileD)
  with at have "last_index (CHR ''@'') e \<noteq> None" by auto
  then obtain i where "last_index (CHR ''@'') e = Some i" by blast
  then show ?thesis by (simp add: extractDomain_def extractLocal_def)
qed

text \<open>The verification never throws: an address that passes the syntax check can be taken
  apart, and every other failure is a result.\<close>

theorem verifyEmail_no_throw: "verifyEmail env cfg now finish inp w \<noteq> Throw e"
proof (cases "sr_valid (checkSyntax (i_email inp))")
  case True
  then obtain eml where eml: "i_email inp = Str eml" by (cases "i_email inp") (auto simp: checkSyntax.simps(1))
  with True obtain d l where "extractDomain eml = Inr d" "extractLocal eml = Inr l"
    using address_extracts by metis
  with True eml show ?thesis
    by (auto simp: verifyEmail_def Let_def split: prod.split option.split)
qed (auto simp: verifyEmail_def Let_def split: prod.split)

text \<open>A test input and environment: one MX host, a relay that accepts the address, no
  blocklist, no listing.\<close>

definition plain_input :: "string \<Rightarrow> engine_input" where
  "plain_input e = \<lparr>i_email = Str e, i_apiKeyId = ''k'', i_bulkJobId = None, i_sourceIp = None\<rparr>"

definition plain_cfg :: engine_config where
  "plain_cfg = \<lparr>smtp_cfg = relay_cfg, provider_cfg = \<lparr>MV_PROXY_URL = None, MV_PROXY_KEY = None, DEBOUNCE_API_KEY = None,
     BOUNCER_API_KEY = None, MILLIONVERIFIER_API_KEY = None, ZEROBOUNCE_API_KEY = None\<rparr>\<rparr>"

definition plain_env :: engine_env where
  "plain_env = \<lparr>mx_replies = (\<lambda>d k. Resolved None), blocklist = FileMissing,
     probe = relay_env (\<lambda>h. RelayData True (Some True) (Some False) False None),
     provider = \<lparr>debounce_replies = (\<lambda>e k. HttpThrow None), zerobounce_replies = (\<lambda>e k. HttpThrow None),
       cache_read_ok = True, cache_write_ok = True\<rparr>,
     dns = listed_env, deliverability_rejects = False, insert_id = Some ''v1''\<rparr>"

definition plain_world :: engine_world where
  "plain_world = \<lparr>mxCache = [], disposable = disposable_init, probeWorld = fresh_world,
     smtpTable = Map.empty, deliverabilityCache = Map.empty, verifications = []\<rparr>"

theorem verifyEmail_reports_witness:
  "\<exists>res w'. verifyEmail plain_env plain_cfg 0 7 (plain_input ''x'') plain_world = Done res w' \<and>
     reports plain_env plain_world res w' \<and> verifications w' \<noteq> []"
proof -
  have "\<not> sr_valid (checkSyntax (i_email (plain_input ''x'')))" by (simp add: plain_input_def) code_simp
  then have "\<exists>res w'. verifyEmail plain_env plain_cfg 0 7 (plain_input ''x'') plain_world = Done res w'"
    by (auto simp: verifyEmail_def Let_def split: prod.split)
  then obtain res w' where v: "verifyEmail plain_env plain_cfg 0 7 (plain_input ''x'') plain_world = Done res w'"
    by blast
  from verifyEmail_reports [OF v] have "reports plain_env plain_world res w'" .
  moreover from this have "verifications w' \<noteq> []"
    by (auto simp: reports_def plain_env_def)
  ultimately show ?thesis using v by blast
qed

subsection \<open>What the domain checks change\<close>

definition core_only :: "bool \<Rightarrow> bool \<Rightarrow> smtp_result \<Rightarrow> scorer_input" where
  "core_only disp role r = \<lparr>in_syntaxValid = True, in_mxFound = True, in_isDisposable = disp,
     in_isRoleAccount = role, in_smtpChecked = checked r, in_smtpReachable = reachable r,
     in_isCatchAll = isCatchAll r, in_greylisted = greylisted r, in_spfValid = None, in_dmarcValid = None,
     in_blacklisted = None, in_isToxic = None, in_isAbuse = None, in_isLookalike = None\<rparr>"

lemma persist_fst:
  "res_status (fst (persistAndReturn env finish q w)) = out_status (score (core_signals (p_checks q)))"
  "res_score (fst (persistAndReturn env finish q w)) = out_score (score (core_signals (p_checks q)))"
  "p_subStatus q = Some s \<Longrightarrow> res_subStatus (fst (persistAndReturn env finish q w)) = Some s"
  by (auto simp: persistAndReturn_def Let_def split: option.split)

lemma score_core:
  "res_status (fst (score_and_persist env now finish inp loc dmn hosts disp role r d t l w)) =
     out_status (score (core_only disp role r))"
  "res_score (fst (score_and_persist env now finish inp loc dmn hosts disp role r d t l w)) =
     out_score (score (core_only disp role r))"
  "out_subStatus (score (full_signals disp role r d t l)) = Some s \<Longrightarrow>
     res_subStatus (fst (score_and_persist env now finish inp loc dmn hosts disp role r d t l w)) = Some (Sub s)"
  by (simp_all add: score_and_persist_def persist_fst core_signals_def core_only_def)

text \<open>C22: a domain flag (blacklisted, toxic, abuse or look-alike) reaches the reason of the
  response but neither its status nor its score: an address accepted by a mail server, not
  disposable, not behind a catch-all server and not a role account is returned as valid with
  score 100 under the reason of the flag, although the decision table rates such a domain risky or
  invalid.\<close>

theorem flagged_domain_reported_valid:
  assumes "checked r" and "reachable r = Some True" and "\<not> greylisted r" and "isCatchAll r \<noteq> Some True"
    and "domain_flagged (full_signals False False r d t l)"
  shows "let res = fst (score_and_persist env now finish inp loc dmn hosts False False r d t l w);
      table = score (full_signals False False r d t l)
    in res_status res = Valid \<and> res_score res = 100 \<and> out_status table \<noteq> Valid \<and> out_score table \<le> 15 \<and>
       res_subStatus res = map_option Sub (out_subStatus table) \<and> res_subStatus res \<noteq> None"
proof -
  define table where "table = score (full_signals False False r d t l)"
  have tab: "out_status table \<noteq> Valid" "out_score table \<le> 15" "out_subStatus table \<noteq> None"
    using assms(5) unfolding table_def domain_flagged_def by (auto simp: score_def full_signals_def)
  then obtain sub where sub: "out_subStatus table = Some sub" by blast
  note core = score_core [where disp = False and role = False and r = r and env = env and now = now and finish = finish
      and inp = inp and loc = loc and dmn = dmn and hosts = hosts and d = d and t = t and l = l and w = w]
  have ok: "score (core_only False False r) = out Valid None 100"
    using assms(1-4) by (simp add: score_def core_only_def)
  show ?thesis using tab sub core by (simp add: Let_def ok out_def table_def [symmetric])
qed

theorem flagged_domain_reported_valid_witness:
  "let res = fst (score_and_persist plain_env 0 7 (plain_input ''a@spam.la'') ''a'' ''spam.la'' [''mx''] False False
      (smtp_initial\<lparr>checked := True, reachable := Some True\<rparr>) no_deliverability
      (checkToxic ''spam.la'') (checkLookalike ''spam.la'') plain_world)
   in res_status res = Valid \<and> res_score res = 100 \<and> res_subStatus res \<noteq> None"
proof -
  let ?r = "smtp_initial\<lparr>checked := True, reachable := Some True\<rparr>"
  have "isToxic (checkToxic ''spam.la'')" by code_simp
  then have "domain_flagged (full_signals False False ?r no_deliverability (checkToxic ''spam.la'')
      (checkLookalike ''spam.la''))"
    by (simp add: domain_flagged_def full_signals_def)
  moreover have "checked ?r" "reachable ?r = Some True" "\<not> greylisted ?r" "isCatchAll ?r \<noteq> Some True"
    by (simp_all add: smtp_initial_def)
  ultimately show ?thesis
    using flagged_domain_reported_valid [where r = ?r and d = no_deliverability and t = "checkToxic ''spam.la''"
      and l = "checkLookalike ''spam.la''" and env = plain_env and now = 0 and finish = 7
      and inp = "plain_input ''a@spam.la''" and loc = "''a''" and dmn = "''spam.la''" and hosts = "[''mx'']"
      and w = plain_world]
    unfolding Let_def by blast
qed

subsection \<open>A greylisted verdict does not survive the cache\<close>

lemma own_probe_hit:
  "fst (getSmtpCache (cache_read_ok (provider env)) e now (smtpTable w)) = Some c \<Longrightarrow> checked c \<Longrightarrow>
     own_probe env cfg now e hs w = Some (c\<lparr>rawResponse := None\<rparr>,
       w\<lparr>smtpTable := snd (getSmtpCache (cache_read_ok (provider env)) e now (smtpTable w))\<rparr>)"
  by (cases "getSmtpCache (cache_read_ok (provider env)) e now (smtpTable w)") (simp add: own_probe_def)

text \<open>After a greylisted probe has been cached, the SMTP stage of any verification of the same
  address within a day reports a check that is not greylisted and has no answer, without contacting a
  server; the decision table then answers as if no SMTP check had been made (score 55 instead of 52),
  although the response says that one was.\<close>

theorem greylisting_lost_in_cache:
  fixes r :: smtp_result
  assumes "greylisted r" and "reachable r = None" and "isCatchAll r = None"
    and "later \<le> now + TTL_UNKNOWN" and "cache_read_ok (provider env)"
    and "smtpTable w = setSmtpCache True e r now tab"
  shows "\<exists>q. smtp_stage env cfg later e dmn hosts False w = Some (q, w) \<and> checked q \<and> \<not> greylisted q \<and>
     reachable q = None \<and> isCatchAll q = None \<and>
     out_subStatus (score (full_signals False False r no_deliverability (checkToxic ''x.de'') not_lookalike)) =
       Some ''smtp_greylisted'' \<and>
     out_subStatus (score (full_signals False False q no_deliverability (checkToxic ''x.de'') not_lookalike)) =
       Some ''smtp_not_checked''"
proof -
  let ?c = "cached_view e r"
  have ttl: "verdict_ttl (reachable r) = TTL_UNKNOWN" using assms(2) by (simp add: verdict_ttl_def)
  have hit: "fst (getSmtpCache (cache_read_ok (provider env)) e later (smtpTable w)) = Some ?c"
    using smtp_cache.hit_after_put [where k = e and t = later and v = r and now = now and c = tab] assms(4-6) ttl by simp
  have same: "snd (getSmtpCache (cache_read_ok (provider env)) e later (smtpTable w)) = smtpTable w"
    using hit by (auto simp: getSmtpCache_def split: option.splits if_splits)
  have c: "checked ?c" "\<not> greylisted ?c" "reachable ?c = None" "isCatchAll ?c = None"
    using assms(2,3) by (simp_all add: cached_view_def stored_catchall_def)
  have st: "smtp_stage env cfg later e dmn hosts False w = Some (?c\<lparr>rawResponse := None\<rparr>, w)"
    using own_probe_hit [OF hit c(1), of cfg hosts] same c by (simp add: smtp_stage_def)
  have tox: "\<not> isToxic (checkToxic ''x.de'')" "\<not> isAbuse (checkToxic ''x.de'')" by code_simp+
  show ?thesis
    by (rule exI [of _ "?c\<lparr>rawResponse := None\<rparr>"])
      (use st c assms(1-3) tox in \<open>simp add: score_def full_signals_def no_deliverability_def not_lookalike_def\<close>)
qed

theorem greylisting_lost_in_cache_witness:
  "\<exists>q. smtp_stage plain_env plain_cfg 5 ''a@b.de'' ''b.de'' [''mx''] False
      (plain_world\<lparr>smtpTable := setSmtpCache True ''a@b.de'' (smtp_initial\<lparr>checked := True, greylisted := True\<rparr>) 0 Map.empty\<rparr>)
      = Some (q, plain_world\<lparr>smtpTable := setSmtpCache True ''a@b.de'' (smtp_initial\<lparr>checked := True, greylisted := True\<rparr>) 0 Map.empty\<rparr>)
    \<and> checked q \<and> \<not> greylisted q"
  using greylisting_lost_in_cache [where r = "smtp_initial\<lparr>checked := True, greylisted := True\<rparr>"
      and later = 5 and now = 0 and env = plain_env
      and w = "plain_world\<lparr>smtpTable := setSmtpCache True ''a@b.de'' (smtp_initial\<lparr>checked := True, greylisted := True\<rparr>) 0 Map.empty\<rparr>"
      and e = "''a@b.de''" and tab = Map.empty and cfg = plain_cfg and dmn = "''b.de''" and hosts = "[''mx'']"]
  by (auto simp: smtp_initial_def TTL_UNKNOWN_def plain_env_def)

end
