(* ===== verification/BotDetection.thy ===== *)
theory BotDetection
  imports Regex
begin

text \<open>
  \<^verbatim>\<open>src/engine/botDetection.ts\<close>: which opens and clicks come from a machine. Times are
  milliseconds since the epoch; the table of tracking events is a list of rows, and a query that
  throws is \<open>None\<close>.
\<close>

definition isAppleMppIp :: "string option \<Rightarrow> bool" where
  "isAppleMppIp ip \<longleftrightarrow> (case ip of None \<Rightarrow> False | Some s \<Rightarrow> s \<noteq> [] \<and> starts_with ''17.'' s)"

definition BOT_USER_AGENT_PATTERNS :: "regex list" where
  "BOT_USER_AGENT_PATTERNS =
     [Lit ''curl/'', Lit ''python-requests'', Lit ''go-http-client'', Lit ''okhttp'', Lit ''libwww-perl'',
      Then Bol (Lit ''wget/''), Lit ''headlesschrome'', Lit ''phantomjs'', Lit ''googlebot'',
      Lit ''bingbot'', Then WordB (Then (Lit ''bot'') WordB), Lit ''crawler'', Lit ''spider'',
      Lit ''scanner'', Then Bol (Lit ''java/''), Then Bol (Lit ''apache-httpclient'')]"

definition hasBotUserAgent :: "string option \<Rightarrow> bool" where
  "hasBotUserAgent userAgent =
     (case userAgent of
        None \<Rightarrow> True
      | Some ua \<Rightarrow> if ua = [] \<or> js_trim ua = [] then True
                  else list_ex (\<lambda>p. test_ci p ua) BOT_USER_AGENT_PATTERNS)"

definition PREFETCH_WINDOW_MS :: int where "PREFETCH_WINDOW_MS = 3000"

record tracking_input =
  t_ip :: "string option"
  t_userAgent :: "string option"
  t_sentAt :: "int option"
  t_occurredAt :: int

datatype bot_reason = AppleMpp | BotUserAgent | PrefetchTiming | IpFanout

text \<open>The classification is likely a bot exactly when it carries a reason; the flag is kept as the
  code returns it.\<close>

record tracking_classification =
  isLikelyBot :: bool
  botReason :: "bot_reason option"

definition is_bot :: "bot_reason \<Rightarrow> tracking_classification" where
  "is_bot r = \<lparr>isLikelyBot = True, botReason = Some r\<rparr>"

definition classifyTrackingEvent :: "tracking_input \<Rightarrow> tracking_classification" where
  "classifyTrackingEvent inp =
     (if isAppleMppIp (t_ip inp) then is_bot AppleMpp
      else if hasBotUserAgent (t_userAgent inp) then is_bot BotUserAgent
      else
        let late = \<lparr>isLikelyBot = False, botReason = None\<rparr>
        in case t_sentAt inp of
             None \<Rightarrow> late
           | Some sent \<Rightarrow>
               let msSinceSend = t_occurredAt inp - sent
               in if msSinceSend \<ge> 0 \<and> msSinceSend < PREFETCH_WINDOW_MS then is_bot PrefetchTiming else late)"

subsection \<open>Fan-out from one address\<close>

definition FANOUT_WINDOW_MS :: int where "FANOUT_WINDOW_MS = 30 * 60 * 1000"

definition FANOUT_DISTINCT_THRESHOLD :: nat where "FANOUT_DISTINCT_THRESHOLD = 8"

record tracking_event =
  te_ip :: "string option"
  te_occurredAt :: int
  te_sendMessageId :: "string option"

text \<open>\<open>findMany\<close> with \<open>where\<close>, \<open>distinct\<close>, \<open>select\<close> and \<open>take\<close>; the events
  without a message count as one value.\<close>

definition find_distinct_messages :: "string \<Rightarrow> int \<Rightarrow> nat \<Rightarrow> tracking_event list \<Rightarrow> string option list" where
  "find_distinct_messages ip since n rows =
     take n (remdups (map te_sendMessageId (filter (\<lambda>r. te_ip r = Some ip \<and> since \<le> te_occurredAt r) rows)))"

definition checkIpFanout :: "string option \<Rightarrow> int \<Rightarrow> tracking_event list option \<Rightarrow> bool" where
  "checkIpFanout ip occurredAt table =
     (case ip of
        None \<Rightarrow> False
      | Some a \<Rightarrow>
          if a = [] then False
          else case table of
            None \<Rightarrow> False
          | Some rows \<Rightarrow>
              length (find_distinct_messages a (occurredAt - FANOUT_WINDOW_MS) FANOUT_DISTINCT_THRESHOLD rows)
                \<ge> FANOUT_DISTINCT_THRESHOLD)"

subsection \<open>What the user-agent patterns mean\<close>

text \<open>A word: an occurrence with no word character next to it.\<close>

definition has_whole_word :: "string \<Rightarrow> string \<Rightarrow> bool" where
  "has_whole_word w s \<longleftrightarrow> (\<exists>u v. s = u @ w @ v \<and> (u = [] \<or> \<not> is_word (last u)) \<and> (v = [] \<or> \<not> is_word (hd v)))"

definition BOT_MARKERS :: "string list" where
  "BOT_MARKERS = [''curl/'', ''python-requests'', ''go-http-client'', ''okhttp'', ''libwww-perl'',
     ''headlesschrome'', ''phantomjs'', ''googlebot'', ''bingbot'', ''crawler'', ''spider'', ''scanner'']"

lemma test_ci_bol: "test_ci (Then Bol (Lit w)) s \<longleftrightarrow> starts_with w (map ascii_lower s)"
proof
  assume "test_ci (Then Bol (Lit w)) s"
  then show "starts_with w (map ascii_lower s)" by (auto simp: test_ci_iff starts_with_iff elim!: matches_elims)
next
  assume "starts_with w (map ascii_lower s)"
  then obtain v where "map ascii_lower s = [] @ w @ v" by (auto simp: starts_with_iff)
  then have "matches (Then Bol (Lit w)) (map ascii_lower s) 0 (length w)"
    by (intro m_then [OF m_bol] m_lit) simp_all
  then show "test_ci (Then Bol (Lit w)) s" unfolding test_ci_iff by blast
qed

lemma test_ci_word:
  assumes "w \<noteq> []" and "is_word (hd w)" and "is_word (last w)"
  shows "test_ci (Then WordB (Then (Lit w) WordB)) s \<longleftrightarrow> has_whole_word w (map ascii_lower s)"
proof -
  let ?t = "map ascii_lower s"
  have left: "word_boundary (u @ w @ v) (length u) \<longleftrightarrow> u = [] \<or> \<not> is_word (last u)" for u v
    using assms by (cases w; cases u rule: rev_cases)
      (auto simp: word_boundary_def word_at_def nth_append)
  have right: "word_boundary (u @ w @ v) (length u + length w) \<longleftrightarrow> v = [] \<or> \<not> is_word (hd v)" for u v
    using assms by (cases w rule: rev_cases; cases v)
      (auto simp: word_boundary_def word_at_def nth_append)
  show ?thesis
  proof
    assume "test_ci (Then WordB (Then (Lit w) WordB)) s"
    then obtain u v where "?t = u @ w @ v" "word_boundary ?t (length u)" "word_boundary ?t (length u + length w)"
      by (auto simp: test_ci_iff elim!: matches_elims)
    then show "has_whole_word w ?t"
      unfolding has_whole_word_def using left right by metis
  next
    assume "has_whole_word w ?t"
    then obtain u v where t: "?t = u @ w @ v" and "u = [] \<or> \<not> is_word (last u)" "v = [] \<or> \<not> is_word (hd v)"
      unfolding has_whole_word_def by blast
    then have "matches (Then WordB (Then (Lit w) WordB)) ?t (length u) (length u + length w)"
      unfolding t using left [of u v] right [of u v]
      by (intro m_then [of _ _ "length u" "length u"] m_then [of _ _ "length u" "length u + length w"]
          m_wordb m_lit refl) simp_all
    moreover have "length u \<le> length s" using arg_cong [OF t, of length] by simp
    ultimately show "test_ci (Then WordB (Then (Lit w) WordB)) s"
      unfolding test_ci_iff by blast
  qed
qed

lemma hasBotUserAgent_iff:
  "hasBotUserAgent (Some ua) \<longleftrightarrow> js_trim ua = [] \<or>
     (let t = map ascii_lower ua in
      list_ex (\<lambda>m. has_sub m t) BOT_MARKERS \<or> has_whole_word ''bot'' t \<or>
      list_ex (\<lambda>p. starts_with p t) [''wget/'', ''java/'', ''apache-httpclient''])"
  by (auto simp: hasBotUserAgent_def BOT_USER_AGENT_PATTERNS_def BOT_MARKERS_def test_ci_lit test_ci_bol
      test_ci_word is_word_def js_defs Let_def)

text \<open>An event counts as human exactly when its address is outside \<open>17.0.0.0/8\<close>, it
  names a mail client that carries none of the automation markers, and it does not fall in the
  first three seconds after the send; and it carries a reason exactly when it does not.\<close>

theorem human_event_iff:
  "(\<not> isLikelyBot (classifyTrackingEvent ev) \<longleftrightarrow>
     \<not> isAppleMppIp (t_ip ev) \<and>
     (\<exists>ua. t_userAgent ev = Some ua \<and> js_trim ua \<noteq> [] \<and>
        \<not> list_ex (\<lambda>m. has_sub m (map ascii_lower ua)) BOT_MARKERS \<and>
        \<not> has_whole_word ''bot'' (map ascii_lower ua) \<and>
        \<not> list_ex (\<lambda>p. starts_with p (map ascii_lower ua)) [''wget/'', ''java/'', ''apache-httpclient'']) \<and>
     \<not> (\<exists>sent. t_sentAt ev = Some sent \<and> 0 \<le> t_occurredAt ev - sent \<and> t_occurredAt ev - sent < 3000)) \<and>
   (isLikelyBot (classifyTrackingEvent ev) \<longleftrightarrow> botReason (classifyTrackingEvent ev) \<noteq> None)"
proof -
  have c: "\<not> isLikelyBot (classifyTrackingEvent ev) \<longleftrightarrow>
     \<not> isAppleMppIp (t_ip ev) \<and> \<not> hasBotUserAgent (t_userAgent ev) \<and>
     \<not> (\<exists>sent. t_sentAt ev = Some sent \<and> 0 \<le> t_occurredAt ev - sent \<and> t_occurredAt ev - sent < 3000)"
    by (auto simp: classifyTrackingEvent_def is_bot_def PREFETCH_WINDOW_MS_def Let_def split: option.splits)
  have "isLikelyBot (classifyTrackingEvent ev) \<longleftrightarrow> botReason (classifyTrackingEvent ev) \<noteq> None"
    by (auto simp: classifyTrackingEvent_def is_bot_def Let_def split: option.splits)
  moreover have "\<not> hasBotUserAgent (t_userAgent ev) \<longleftrightarrow>
     (\<exists>ua. t_userAgent ev = Some ua \<and> js_trim ua \<noteq> [] \<and>
        \<not> list_ex (\<lambda>m. has_sub m (map ascii_lower ua)) BOT_MARKERS \<and>
        \<not> has_whole_word ''bot'' (map ascii_lower ua) \<and>
        \<not> list_ex (\<lambda>p. starts_with p (map ascii_lower ua)) [''wget/'', ''java/'', ''apache-httpclient''])"
    by (cases "t_userAgent ev") (simp_all add: hasBotUserAgent_iff Let_def, simp add: hasBotUserAgent_def)
  ultimately show ?thesis unfolding c by blast
qed

text \<open>The messages one address touched since the window opened.\<close>

definition messages_touched :: "string \<Rightarrow> int \<Rightarrow> tracking_event list \<Rightarrow> string option set" where
  "messages_touched a since rows =
     te_sendMessageId ` {r \<in> set rows. te_ip r = Some a \<and> since \<le> te_occurredAt r}"

text \<open>The fan-out check answers yes exactly when the query succeeded and the address touched at
  least eight different messages in the last half hour (its events without a message count as one); a failed query never marks an event.\<close>

theorem ip_fanout_iff:
  "checkIpFanout ip t table \<longleftrightarrow>
     (\<exists>a rows. ip = Some a \<and> a \<noteq> [] \<and> table = Some rows \<and> card (messages_touched a (t - 1800000) rows) \<ge> 8)"
  by (auto simp: checkIpFanout_def find_distinct_messages_def messages_touched_def FANOUT_WINDOW_MS_def
      FANOUT_DISTINCT_THRESHOLD_def length_remdups_card_conv image_def Collect_conj_eq split: option.splits)

end
