(* ===== verification/Limiter.thy ===== *)
theory Limiter
  imports Prelude
begin

text \<open>
  \<^verbatim>\<open>src/lib/concurrencyLimiter.ts\<close>: the rolling pool. A task is its number in the
  order of the calls. The code's \<open>active\<close> and \<open>queue\<close> are kept as they are; a task whose
  resolver has been called is in \<open>l_running\<close> until its promise settles, and \<open>l_started\<close>
  records the order of the starts. Every task settles, with a value or with an error.
\<close>

subsection \<open>The interface of a pool\<close>

text \<open>What a caller may rely on: tasks start in the order of submission, a finished task makes room
  for the next, never more than \<open>cap\<close> run, and no slot is idle while a task waits.\<close>

locale task_pool =
  fixes submit :: "nat \<Rightarrow> 's \<Rightarrow> 's"
    and finish :: "nat \<Rightarrow> 's \<Rightarrow> 's"
    and running :: "'s \<Rightarrow> nat list"
    and waiting :: "'s \<Rightarrow> nat list"
    and cap :: nat
    and start :: 's
    and inv :: "'s \<Rightarrow> bool"
  assumes inv_start: "inv start" "running start = []" "waiting start = []"
    and inv_submit: "inv s \<Longrightarrow> inv (submit t s)"
    and inv_finish: "inv s \<Longrightarrow> t \<in> set (running s) \<Longrightarrow> inv (finish t s)"
    and submit_order: "inv s \<Longrightarrow> running (submit t s) @ waiting (submit t s) = running s @ waiting s @ [t]"
    and finish_order: "inv s \<Longrightarrow> t \<in> set (running s) \<Longrightarrow>
      running (finish t s) @ waiting (finish t s) = remove1 t (running s) @ waiting s"
    and within_cap: "inv s \<Longrightarrow> length (running s) \<le> cap"
    and no_idle_slot: "inv s \<Longrightarrow> waiting s \<noteq> [] \<Longrightarrow> length (running s) = cap"
begin

lemma submit_all: "inv (fold submit ts s) \<and> running (fold submit ts s) @ waiting (fold submit ts s) = running s @ waiting s @ ts"
  if "inv s"
  using that by (induction ts arbitrary: s) (simp_all add: inv_submit submit_order)

lemma never_stuck: "inv s \<Longrightarrow> 0 < cap \<Longrightarrow> running s @ waiting s \<noteq> [] \<Longrightarrow> running s \<noteq> []"
  using no_idle_slot by force

end

subsection \<open>The limiter\<close>

record limiter =
  l_active :: nat
  l_queue :: "nat list"
  l_running :: "nat list"
  l_started :: "nat list"

definition createLimiter :: limiter where
  "createLimiter = \<lparr>l_active = 0, l_queue = [], l_running = [], l_started = []\<rparr>"

text \<open>\<open>next\<close>; the call of \<open>run\<close> resolves the promise the task waits for.\<close>

definition next_task :: "nat \<Rightarrow> limiter \<Rightarrow> limiter" where
  "next_task maxConcurrent l =
     (if l_active l \<ge> maxConcurrent then l
      else case l_queue l of
             [] \<Rightarrow> l
           | t # q \<Rightarrow> l\<lparr>l_active := l_active l + 1, l_queue := q, l_running := l_running l @ [t],
               l_started := l_started l @ [t]\<rparr>)"

definition limit :: "nat \<Rightarrow> nat \<Rightarrow> limiter \<Rightarrow> limiter" where
  "limit maxConcurrent t l = next_task maxConcurrent (l\<lparr>l_queue := l_queue l @ [t]\<rparr>)"

text \<open>The \<open>finally\<close> block, when the promise of a running task settles.\<close>

definition release_slot :: "nat \<Rightarrow> nat \<Rightarrow> limiter \<Rightarrow> limiter" where
  "release_slot maxConcurrent t l =
     next_task maxConcurrent (l\<lparr>l_active := l_active l - 1, l_running := remove1 t (l_running l)\<rparr>)"

definition limiter_inv :: "nat \<Rightarrow> limiter \<Rightarrow> bool" where
  "limiter_inv maxConcurrent l \<longleftrightarrow> l_active l = length (l_running l) \<and> l_active l \<le> maxConcurrent \<and>
     (l_queue l \<noteq> [] \<longrightarrow> l_active l = maxConcurrent)"

interpretation pool: task_pool "limit n" "release_slot n" l_running l_queue n createLimiter "limiter_inv n" for n
proof unfold_locales
  fix s t assume inv: "limiter_inv n s" and t: "t \<in> set (l_running s)"
  show "limiter_inv n (release_slot n t s)"
    using inv t Suc_pred [OF length_pos_if_in_set [OF t]]
    by (auto simp: release_slot_def limiter_inv_def next_task_def length_remove1 split: list.split)
  show "l_running (release_slot n t s) @ l_queue (release_slot n t s) = remove1 t (l_running s) @ l_queue s"
    by (auto simp: release_slot_def next_task_def split: list.split)
qed (auto simp: limiter_inv_def createLimiter_def limit_def next_task_def split: list.split)

subsection \<open>Running a list of tasks\<close>

datatype ('e, 'r) settled_result = Fulfilled 'r | Rejected 'e

text \<open>The event loop: \<open>pick k\<close> says which of the running tasks settles as the \<open>k\<close>-th one,
  until none runs. The log has the settled tasks, the last one first.\<close>

fun drive :: "nat \<Rightarrow> (nat \<Rightarrow> nat) \<Rightarrow> nat \<Rightarrow> nat list \<Rightarrow> limiter \<Rightarrow> nat list \<times> limiter" where
  "drive maxConcurrent pick 0 fin l = (fin, l)"
| "drive maxConcurrent pick (Suc fuel) fin l =
     (if l_running l = [] then (fin, l)
      else let t = l_running l ! (pick (length fin) mod length (l_running l))
           in drive maxConcurrent pick fuel (t # fin) (release_slot maxConcurrent t l))"

text \<open>\<open>Promise.all\<close> over the settled wrappers: \<open>None\<close> when some task has not settled, else
  the results in the order of the items.\<close>

definition runWithConcurrency ::
  "(nat \<Rightarrow> nat) \<Rightarrow> 'a list \<Rightarrow> nat \<Rightarrow> ('a \<Rightarrow> nat \<Rightarrow> ('e, 'r) settled_result) \<Rightarrow> ('e, 'r) settled_result list option" where
  "runWithConcurrency pick items maxConcurrent f =
     (let l = fold (limit maxConcurrent) [0..<length items] createLimiter;
          (fin, l') = drive maxConcurrent pick (length items) [] l
      in if list_all (\<lambda>i. i \<in> set fin) [0..<length items]
         then Some (map (\<lambda>i. f (items ! i) i) [0..<length items]) else None)"

definition paidProviderLimiter_cap :: nat where "paidProviderLimiter_cap = 4"

subsection \<open>Properties\<close>

datatype pool_event = Submit nat | Settle nat

text \<open>A history of submissions and of settlements of running tasks.\<close>

inductive pool_run :: "nat \<Rightarrow> pool_event list \<Rightarrow> limiter \<Rightarrow> bool" for n where
  pool_init: "pool_run n [] createLimiter"
| pool_submit: "pool_run n es l \<Longrightarrow> pool_run n (es @ [Submit t]) (limit n t l)"
| pool_settle: "pool_run n es l \<Longrightarrow> t \<in> set (l_running l) \<Longrightarrow> pool_run n (es @ [Settle t]) (release_slot n t l)"

fun submitted :: "pool_event list \<Rightarrow> nat list" where
  "submitted [] = []"
| "submitted (Submit t # es) = t # submitted es"
| "submitted (Settle t # es) = submitted es"

lemma submitted_append [simp]: "submitted (es @ fs) = submitted es @ submitted fs"
  by (induction es rule: submitted.induct) simp_all

lemma pool_run_inv: "pool_run n es l \<Longrightarrow> limiter_inv n l"
  by (induction rule: pool_run.induct) (simp_all add: pool.inv_start pool.inv_submit pool.inv_finish)

lemma next_started: "l_started (next_task n l) @ l_queue (next_task n l) = l_started l @ l_queue l"
  by (auto simp: next_task_def split: list.split)

lemma pool_run_order: "pool_run n es l \<Longrightarrow> l_started l @ l_queue l = submitted es"
  by (induction rule: pool_run.induct)
    (simp_all add: createLimiter_def limit_def release_slot_def next_started)

text \<open>C39: over any interleaving of calls and completions the limiter never runs more than its
  maximum, leaves no slot idle while a call waits, and starts the calls in the order they were
  made.\<close>

theorem limiter_safe:
  assumes "pool_run n es l"
  shows "length (l_running l) \<le> n \<and> (l_queue l = [] \<or> length (l_running l) = n) \<and>
    (\<exists>waiting. submitted es = l_started l @ waiting)"
  using pool.within_cap [OF pool_run_inv [OF assms]] pool.no_idle_slot [OF pool_run_inv [OF assms]]
    pool_run_order [OF assms] by metis

theorem limiter_safe_witness:
  "length (l_running (release_slot 1 7 (limit 1 8 (limit 1 7 createLimiter)))) \<le> 1 \<and>
   l_running (release_slot 1 7 (limit 1 8 (limit 1 7 createLimiter))) = [8]"
proof -
  have r: "7 \<in> set (l_running (limit 1 8 (limit 1 7 createLimiter)))" by code_simp
  show ?thesis
    using limiter_safe [OF pool_settle [OF pool_submit [OF pool_submit [OF pool_init]] r]]
    by (simp add: limit_def release_slot_def next_task_def createLimiter_def)
qed

lemma insert_remove1: "t \<in> set xs \<Longrightarrow> insert t (set (remove1 t xs)) = set xs"
  by (induction xs) auto

lemma drive_settles:
  "limiter_inv n l \<Longrightarrow> 0 < n \<Longrightarrow> length (l_running l @ l_queue l) \<le> fuel \<Longrightarrow>
     drive n pick fuel fin l = (d, l') \<Longrightarrow>
     set d = set fin \<union> set (l_running l @ l_queue l) \<and> l_running l' = []"
proof (induction fuel arbitrary: fin l)
  case (Suc fuel)
  show ?case
  proof (cases "l_running l = []")
    case True
    then have "l_queue l = []" using pool.never_stuck [OF Suc.prems(1,2)] by blast
    then show ?thesis using True Suc.prems(4) by simp
  next
    case False
    define t where "t = l_running l ! (pick (length fin) mod length (l_running l))"
    have t: "t \<in> set (l_running l)" using False by (simp add: t_def)
    have inv: "limiter_inv n (release_slot n t l)" by (rule pool.inv_finish [OF Suc.prems(1) t])
    have ord: "l_running (release_slot n t l) @ l_queue (release_slot n t l) = remove1 t (l_running l) @ l_queue l"
      by (rule pool.finish_order [OF Suc.prems(1) t])
    have "length (l_running (release_slot n t l) @ l_queue (release_slot n t l)) \<le> fuel"
      using Suc.prems(3) t Suc_pred [OF length_pos_if_in_set [OF t]] unfolding ord
      by (simp add: length_remove1 del: Suc_pred)
    moreover have "drive n pick fuel (t # fin) (release_slot n t l) = (d, l')"
      using Suc.prems(4) False by (simp add: t_def Let_def)
    ultimately have ih: "set d = set (t # fin) \<union> set (remove1 t (l_running l) @ l_queue l) \<and> l_running l' = []"
      using Suc.IH [OF inv Suc.prems(2)] unfolding ord [symmetric] by blast
    then show ?thesis using insert_remove1 [OF t] by auto
  qed
qed auto

text \<open>With at least one slot, whatever the order in which the running tasks settle, the pool
  runs every task and returns all results in the order of the items, rejected tasks included.\<close>

theorem runWithConcurrency_all:
  assumes "0 < maxConcurrent"
  shows "runWithConcurrency pick items maxConcurrent f = Some (map (\<lambda>i. f (items ! i) i) [0..<length items])"
proof -
  let ?l = "fold (limit maxConcurrent) [0..<length items] createLimiter"
  have l: "limiter_inv maxConcurrent ?l" "l_running ?l @ l_queue ?l = [0..<length items]"
    using pool.submit_all [OF pool.inv_start(1), of maxConcurrent "[0..<length items]"] by (simp_all add: pool.inv_start)
  obtain d l' where d: "drive maxConcurrent pick (length items) [] ?l = (d, l')" by fastforce
  have "set d = set [0..<length items]"
    using drive_settles [OF l(1) assms _ d] unfolding l(2) by simp
  then show ?thesis by (simp add: runWithConcurrency_def d list_all_iff)
qed

theorem runWithConcurrency_all_witness:
  "runWithConcurrency (\<lambda>k. k + 1) [5, 6, 7 :: nat] 2 (\<lambda>x i. if x = 6 then Rejected ''e'' else Fulfilled (x + i))
     = Some [Fulfilled 5, Rejected ''e'', Fulfilled 9]"
  using runWithConcurrency_all [of 2 "\<lambda>k. k + 1" "[5, 6, 7 :: nat]" "\<lambda>x i. if x = 6 then Rejected ''e'' else Fulfilled (x + i)"]
  by (simp add: upt_rec)

end
