(* ===== verification/ApiKeys.thy ===== *)
theory ApiKeys
  imports Prelude
begin

text \<open>
  The API key record that authentication attaches to a request (the interface
  \<open>ApiKeyRecord\<close> of \<^verbatim>\<open>src/plugins/auth.ts\<close>, without the columns that only the routes
  show) and the table of keys, with the tenant transaction of \<^verbatim>\<open>src/lib/tenantContext.ts\<close>
  that updates one row. Dates are milliseconds since the epoch.
\<close>

record api_key =
  k_id :: string
  k_keyHash :: string
  k_ownerId :: "string option"
  k_userId :: "string option"
  k_rateLimit :: int
  k_monthlyLimit :: int
  k_currentMonthUsage :: int
  k_currentMonthFinderUsage :: int
  k_monthlySendLimit :: int
  k_currentMonthSendUsage :: int
  k_sendUsageResetAt :: "int option"
  k_usageResetAt :: "int option"
  k_plan :: "string option"
  k_isActive :: bool
  k_revokedAt :: "int option"
  k_permission :: string
  k_allowedIps :: "string list"
  k_usageAlertEnabled :: bool
  k_usageAlertSentAt :: "int option"
  k_extraVerificationCredits :: int
  k_expiresAt :: "int option"

type_synonym key_table = "string \<Rightarrow> api_key option"

text \<open>\<open>/^[a-zA-Z0-9_-]+$/\<close>.\<close>

definition valid_tenant_id :: "string \<Rightarrow> bool" where
  "valid_tenant_id i \<longleftrightarrow> i \<noteq> [] \<and> list_all (\<lambda>c. is_alpha c \<or> is_digit c \<or> c \<in> set ''_-'') i"

text \<open>\<open>withTenant(id, (tx) => fn(tx))\<close>: \<open>None\<close> when the transaction throws, which it
  does when the database is down or the id is malformed, and whenever its body does.\<close>

definition withTenant :: "bool \<Rightarrow> string \<Rightarrow> (key_table \<Rightarrow> 'a option) \<Rightarrow> key_table \<Rightarrow> 'a option" where
  "withTenant db_up i body tab = (if \<not> db_up \<or> \<not> valid_tenant_id i then None else body tab)"

text \<open>\<open>tx.apiKey.update\<close> throws when there is no row.\<close>

definition update_key :: "string \<Rightarrow> (api_key \<Rightarrow> api_key) \<Rightarrow> key_table \<Rightarrow> key_table option" where
  "update_key i f tab = (case tab i of None \<Rightarrow> None | Some row \<Rightarrow> Some (tab(i \<mapsto> f row)))"

lemma update_key_Some [simp]: "tab i = Some row \<Longrightarrow> update_key i f tab = Some (tab(i \<mapsto> f row))"
  by (simp add: update_key_def)

lemma withTenant_up: "valid_tenant_id i \<Longrightarrow> withTenant True i body tab = body tab"
  by (simp add: withTenant_def)

lemma withTenant_SomeD: "withTenant up i (update_key i f) tab = Some tab' \<Longrightarrow>
    \<exists>row. tab i = Some row \<and> tab' = tab(i \<mapsto> f row)"
  by (auto simp: withTenant_def update_key_def split: if_splits option.splits)

end
