(* ===== verification/ErrorHandler.thy ===== *)
theory ErrorHandler
  imports Prelude
begin

text \<open>
  \<^verbatim>\<open>src/plugins/errorHandler.ts\<close>: the application errors and the mapping from whatever a
  route throws to a status and a JSON body. Details are kept as opaque strings, except the two
  detail objects that the code builds itself. The logger and the crash reporter are output only; a
  reply lists whether the crash reporter is called.
\<close>

datatype error_details =
    RetryAfterMs int
  | Quota int int "int option"
  | Opaque string
  | Issues "(string \<times> string) list"

record app_error =
  e_status :: nat
  e_code :: string
  e_message :: string
  e_details :: "error_details option"

definition AppError :: "nat \<Rightarrow> string \<Rightarrow> string \<Rightarrow> error_details option \<Rightarrow> app_error" where
  "AppError s c m d = \<lparr>e_status = s, e_code = c, e_message = m, e_details = d\<rparr>"

definition unauthorized :: "string \<Rightarrow> app_error" where
  "unauthorized msg = AppError 401 ''UNAUTHORIZED'' msg None"

definition forbidden :: "string \<Rightarrow> app_error" where
  "forbidden msg = AppError 403 ''FORBIDDEN'' msg None"

definition notFound :: "string \<Rightarrow> app_error" where
  "notFound resource = AppError 404 ''NOT_FOUND'' (resource @ '' not found'') None"

definition rateLimited :: "int \<Rightarrow> app_error" where
  "rateLimited retryAfter = AppError 429 ''RATE_LIMITED'' ''Too many requests'' (Some (RetryAfterMs retryAfter))"

definition quotaExceeded :: "int \<Rightarrow> int \<Rightarrow> int option \<Rightarrow> app_error" where
  "quotaExceeded used limit requested =
     AppError 429 ''QUOTA_EXCEEDED'' ''Monthly verification quota exceeded'' (Some (Quota used limit requested))"

definition validationFailed :: "error_details option \<Rightarrow> app_error" where
  "validationFailed d = AppError 422 ''VALIDATION_FAILED'' ''Request validation failed'' d"

definition internalError :: "string \<Rightarrow> app_error" where
  "internalError msg = AppError 500 ''INTERNAL_ERROR'' msg None"

definition serviceUnavailable :: "string \<Rightarrow> app_error" where
  "serviceUnavailable service = AppError 503 ''SERVICE_UNAVAILABLE'' (service @ '' is temporarily unavailable'') None"

text \<open>What a route can throw: an application error, a Zod error with its issues (path and
  message), a Fastify error with its message, its \<open>validation\<close>, \<open>statusCode\<close> and \<open>code\<close>
  fields when present.\<close>

datatype thrown =
    App app_error
  | Zod "(string list \<times> string) list"
  | Plain string "string option" "nat option" "string option"

record api_body =
  b_error :: string
  b_code :: string
  b_requestId :: string
  b_details :: "error_details option"

record error_reply =
  r_status :: nat
  r_body :: api_body
  r_reported :: bool

definition error_reply_of :: "nat \<Rightarrow> string \<Rightarrow> string \<Rightarrow> string \<Rightarrow> error_details option \<Rightarrow> bool \<Rightarrow> error_reply" where
  "error_reply_of status msg c requestId d reported =
     \<lparr>r_status = status, r_body = \<lparr>b_error = msg, b_code = c, b_requestId = requestId, b_details = d\<rparr>,
      r_reported = reported\<rparr>"

fun handle_error :: "string \<Rightarrow> thrown \<Rightarrow> error_reply" where
  "handle_error requestId (App e) =
     error_reply_of (e_status e) (e_message e) (e_code e) requestId (e_details e) (e_status e \<ge> 500)"
| "handle_error requestId (Zod issues) =
     error_reply_of 422 ''Request validation failed'' ''VALIDATION_FAILED'' requestId
       (Some (Issues (map (\<lambda>i. (join_with ''.'' (fst i), snd i)) issues))) False"
| "handle_error requestId (Plain msg validation statusCode c) =
     (if truthy validation then
        error_reply_of 400 msg ''VALIDATION_FAILED'' requestId (map_option Opaque validation) False
      else case statusCode of
        Some s \<Rightarrow>
          if s \<noteq> 0 \<and> s < 500 then error_reply_of s msg (or_else c ''REQUEST_ERROR'') requestId None False
          else error_reply_of 500 ''An unexpected error occurred'' ''INTERNAL_ERROR'' requestId None True
      | None \<Rightarrow> error_reply_of 500 ''An unexpected error occurred'' ''INTERNAL_ERROR'' requestId None True)"

definition handle_not_found :: "string \<Rightarrow> string \<Rightarrow> string \<Rightarrow> error_reply" where
  "handle_not_found method url requestId =
     error_reply_of 404 (''Route '' @ method @ '' '' @ url @ '' not found'') ''NOT_FOUND'' requestId None False"

text \<open>The message of an error that is not an application error never reaches a client with a
  status of 500 or more: such a reply is the fixed internal-error body, and exactly these replies and
  the application errors from 500 up are sent to the crash reporter.\<close>

theorem unexpected_error_hidden:
  "case t of
     App e \<Rightarrow> r_reported (handle_error rid t) = (e_status e \<ge> 500)
   | _ \<Rightarrow> r_status (handle_error rid t) < 500 \<and> \<not> r_reported (handle_error rid t) \<or>
       handle_error rid t = error_reply_of 500 ''An unexpected error occurred'' ''INTERNAL_ERROR'' rid None True"
  by (cases t) (auto simp: error_reply_of_def split: option.split)

end
