(* ===== verification/Auth.thy ===== *)
theory Auth
  imports ApiKeys JsMap ErrorHandler
begin

text \<open>
  \<^verbatim>\<open>src/plugins/auth.ts\<close>: authentication by API key with its in-process cache, the checks of
  \<open>requireAuth\<close>, and the session checks of the organization routes. The hash of a key and
  the verification of a session token are parameters; a database lookup that throws is
  \<open>None\<close>. Headers are already lower-cased by Node and a repeated \<open>x-api-key\<close> is a list.
\<close>

datatype header = Missing | Single string | Multiple "string list"

record http_request =
  rq_authorization :: "string option"
  rq_xApiKey :: header
  rq_xForwardedFor :: "string option"
  rq_ip :: string
  rq_url :: string

definition extractRawKey :: "http_request \<Rightarrow> string option" where
  "extractRawKey rq =
     (let xKey = (case rq_xApiKey rq of Single s \<Rightarrow> if length s > 0 then Some s else None | _ \<Rightarrow> None)
      in case rq_authorization rq of
           None \<Rightarrow> xKey
         | Some h \<Rightarrow>
             if h = [] then xKey
             else let parts = split_on CHR '' '' h
                  in if length parts = 2 \<and> js_lower (parts ! 0) = ''bearer'' then Some (parts ! 1) else xKey)"

subsection \<open>The key cache\<close>

record key_entry =
  ke_record :: api_key
  ke_expiresAt :: int

type_synonym key_cache = "(string \<times> key_entry) list"

definition KEY_CACHE_TTL_MS :: int where "KEY_CACHE_TTL_MS = 60000"

definition KEY_CACHE_MAX_SIZE :: nat where "KEY_CACHE_MAX_SIZE = 10000"

definition getCachedKey :: "string \<Rightarrow> int \<Rightarrow> key_cache \<Rightarrow> api_key option \<times> key_cache" where
  "getCachedKey hash now c =
     (case map_of c hash of
        None \<Rightarrow> (None, c)
      | Some entry \<Rightarrow>
          if now > ke_expiresAt entry then (None, map_delete hash c) else (Some (ke_record entry), c))"

definition setCachedKey :: "string \<Rightarrow> api_key \<Rightarrow> int \<Rightarrow> key_cache \<Rightarrow> key_cache" where
  "setCachedKey hash r now c =
     (let c' = (if length c \<ge> KEY_CACHE_MAX_SIZE then (case c of [] \<Rightarrow> c | p # _ \<Rightarrow> map_delete (fst p) c) else c)
      in map_set hash \<lparr>ke_record = r, ke_expiresAt = now + KEY_CACHE_TTL_MS\<rparr> c')"

interpretation keys: bounded_map_cache getCachedKey setCachedKey ke_expiresAt ke_record
  "\<lambda>r now. \<lparr>ke_record = r, ke_expiresAt = now + KEY_CACHE_TTL_MS\<rparr>" KEY_CACHE_TTL_MS KEY_CACHE_MAX_SIZE
  by unfold_locales
    (simp_all add: getCachedKey_def setCachedKey_def evict_oldest_def KEY_CACHE_MAX_SIZE_def Let_def)

subsection \<open>Resolving a key\<close>

definition past :: "int option \<Rightarrow> int \<Rightarrow> bool" where
  "past d now \<longleftrightarrow> (case d of None \<Rightarrow> False | Some t \<Rightarrow> t \<le> now)"

text \<open>\<open>lookup\<close> is the database query by hash.\<close>

definition resolveApiKey ::
  "(string \<Rightarrow> string) \<Rightarrow> (string \<Rightarrow> api_key option option) \<Rightarrow> int \<Rightarrow> http_request \<Rightarrow> key_cache \<Rightarrow>
     (app_error + api_key) \<times> key_cache" where
  "resolveApiKey hashApiKey lookup now rq c =
     (if \<not> truthy (extractRawKey rq) then
        (Inl (unauthorized ''No API key provided. Use \"Authorization: Bearer <key>\" or \"X-API-Key: <key>\".''), c)
      else
        let hash = hashApiKey (or_else (extractRawKey rq) []);
            (cached, c1) = getCachedKey hash now c
        in case cached of
             Some r \<Rightarrow>
               (if \<not> k_isActive r then Inl (unauthorized ''API key has been revoked.'') else Inr r, c1)
           | None \<Rightarrow>
               (case lookup hash of
                  None \<Rightarrow> (Inl (serviceUnavailable ''Database''), c1)
                | Some None \<Rightarrow> (Inl (unauthorized ''Invalid API key.''), c1)
                | Some (Some r) \<Rightarrow>
                    if \<not> k_isActive r then (Inl (unauthorized ''API key has been revoked.''), c1)
                    else if past (k_revokedAt r) now then (Inl (unauthorized ''API key has been revoked.''), c1)
                    else if past (k_expiresAt r) now then
                      (Inl (unauthorized ''API key has expired. Create a new key to continue.''), c1)
                    else (Inr r, setCachedKey hash r now c1)))"

definition SEND_ONLY_ALLOWED :: "string list" where
  "SEND_ONLY_ALLOWED = [''/v1/send'', ''/track/'', ''/v1/unsubscribe'']"

definition caller_ip :: "http_request \<Rightarrow> string" where
  "caller_ip rq = (case rq_xForwardedFor rq of
     Some h \<Rightarrow> js_trim (hd (split_on CHR '','' h)) | None \<Rightarrow> rq_ip rq)"

definition authorize :: "http_request \<Rightarrow> api_key \<Rightarrow> app_error + api_key" where
  "authorize rq k =
     (if length (k_allowedIps k) > 0 \<and> caller_ip rq \<notin> set (k_allowedIps k) then
        Inl (forbidden (''Request from IP '' @ caller_ip rq @ '' is not allowed by this API key's IP allowlist.''))
      else if k_permission k = ''sending_access'' \<and>
          \<not> list_ex (\<lambda>prefix. starts_with prefix (rq_url rq)) SEND_ONLY_ALLOWED then
        Inl (forbidden ''This API key only has sending access. A full_access key is required for this endpoint.'')
      else Inr k)"

definition requireAuth ::
  "(string \<Rightarrow> string) \<Rightarrow> (string \<Rightarrow> api_key option option) \<Rightarrow> int \<Rightarrow> http_request \<Rightarrow> key_cache \<Rightarrow>
     (app_error + api_key) \<times> key_cache" where
  "requireAuth hashApiKey lookup now rq c =
     (case resolveApiKey hashApiKey lookup now rq c of
        (Inl e, c') \<Rightarrow> (Inl e, c')
      | (Inr k, c') \<Rightarrow> (authorize rq k, c'))"

definition requireFullAccess :: "api_key \<Rightarrow> app_error option" where
  "requireFullAccess k =
     (if k_permission k \<noteq> ''full_access'' then
        Some (forbidden ''This API key only has sending access. A full_access key is required for this endpoint.'')
      else None)"

subsection \<open>Sessions\<close>

record session_payload =
  sp_userId :: string
  sp_email :: string
  sp_orgId :: "string option"
  sp_orgRole :: "string option"

record user_row =
  u_id :: string
  u_email :: string
  u_orgId :: "string option"

record session_user =
  su_userId :: string
  su_email :: string
  su_orgId :: "string option"
  su_orgRole :: "string option"

text \<open>\<open>verifySession\<close> is \<open>None\<close> when the token is rejected; \<open>users\<close> is the user table,
  whose lookup may throw an error that is not an application error.\<close>

datatype session_outcome = Refused app_error | Crashed | Session session_user

definition requireOrgSession ::
  "(string \<Rightarrow> session_payload option) \<Rightarrow> (string \<Rightarrow> user_row option option) \<Rightarrow> http_request \<Rightarrow> session_outcome" where
  "requireOrgSession verifySession users rq =
     (case rq_authorization rq of
        None \<Rightarrow> Refused (unauthorized ''Missing session token'')
      | Some h \<Rightarrow>
          if \<not> starts_with ''Bearer '' h then Refused (unauthorized ''Missing session token'')
          else case verifySession (drop 7 h) of
            None \<Rightarrow> Refused (unauthorized ''Session expired - please sign in again'')
          | Some p \<Rightarrow>
              (case users (sp_userId p) of
                 None \<Rightarrow> Crashed
               | Some None \<Rightarrow> Refused (unauthorized ''User not found'')
               | Some (Some u) \<Rightarrow> Session
                   \<lparr>su_userId = u_id u, su_email = u_email u,
                    su_orgId = (case sp_orgId p of Some i \<Rightarrow> Some i | None \<Rightarrow> u_orgId u),
                    su_orgRole = sp_orgRole p\<rparr>))"

definition requireOrgAdmin ::
  "(string \<Rightarrow> session_payload option) \<Rightarrow> (string \<Rightarrow> user_row option option) \<Rightarrow> http_request \<Rightarrow> session_outcome" where
  "requireOrgAdmin verifySession users rq =
     (case requireOrgSession verifySession users rq of
        Session s \<Rightarrow>
          if su_orgRole s \<noteq> Some ''admin'' then Refused (forbidden ''Admin role required for this action'')
          else Session s
      | other \<Rightarrow> other)"

subsection \<open>Which requests are let in\<close>

text \<open>A request that was served: its time, the answers of the database then, and the request.\<close>

type_synonym auth_event = "int \<times> (string \<Rightarrow> api_key option option) \<times> http_request"

definition auth_run :: "(string \<Rightarrow> string) \<Rightarrow> auth_event list \<Rightarrow> key_cache" where
  "auth_run hash evs = foldl (\<lambda>c (now, lookup, rq). snd (requireAuth hash lookup now rq c)) [] evs"

text \<open>What the database says of a key at a time.\<close>

definition good_key :: "(string \<Rightarrow> api_key option option) \<Rightarrow> string \<Rightarrow> api_key \<Rightarrow> int \<Rightarrow> bool" where
  "good_key lookup h k t \<longleftrightarrow> lookup h = Some (Some k) \<and> k_isActive k \<and> \<not> past (k_revokedAt k) t \<and> \<not> past (k_expiresAt k) t"

lemma snd_requireAuth: "snd (requireAuth hash lookup now rq c) = snd (resolveApiKey hash lookup now rq c)"
  by (auto simp: requireAuth_def split: prod.split sum.split)

lemma resolve_cache:
  "snd (resolveApiKey hash lookup now rq c) \<in> {c, snd (getCachedKey (hash (or_else (extractRawKey rq) [])) now c)} \<or>
     (\<exists>k. good_key lookup (hash (or_else (extractRawKey rq) [])) k now \<and>
        snd (resolveApiKey hash lookup now rq c) =
          setCachedKey (hash (or_else (extractRawKey rq) [])) k now
            (snd (getCachedKey (hash (or_else (extractRawKey rq) [])) now c)))"
  by (auto simp: resolveApiKey_def good_key_def Let_def split: prod.splits option.splits)

lemma auth_run_ops:
  "\<exists>ops. auth_run hash evs = cache_run getCachedKey setCachedKey [] ops \<and>
     (\<forall>h k t. Put h k t \<in> set ops \<longrightarrow> (\<exists>lookup rq. (t, lookup, rq) \<in> set evs \<and> good_key lookup h k t))"
proof (induction evs rule: rev_induct)
  case Nil
  show ?case by (rule exI [of _ "[]"]) (simp add: auth_run_def cache_run_def)
next
  case (snoc ev evs)
  then obtain ops where ops: "auth_run hash evs = cache_run getCachedKey setCachedKey [] ops"
    "\<forall>h k t. Put h k t \<in> set ops \<longrightarrow> (\<exists>lookup rq. (t, lookup, rq) \<in> set evs \<and> good_key lookup h k t)" by blast
  obtain now lookup rq where ev: "ev = (now, lookup, rq)" by (cases ev)
  define h where "h = hash (or_else (extractRawKey rq) [])"
  have run: "auth_run hash (evs @ [ev]) = snd (resolveApiKey hash lookup now rq (auth_run hash evs))"
    by (simp add: auth_run_def ev snd_requireAuth)
  have old: "\<exists>lookup rq. (t, lookup, rq) \<in> set (evs @ [ev]) \<and> good_key lookup h k t" if "Put h k t \<in> set ops" for h k t
    using ops(2) that unfolding set_append by blast
  have new: "\<exists>lookup rq. (now, lookup, rq) \<in> set (evs @ [ev]) \<and> good_key lookup h k now" if "good_key lookup h k now" for h k
    using that ev by (intro exI [of _ lookup] exI [of _ rq]) simp
  consider (same) "auth_run hash (evs @ [ev]) = auth_run hash evs"
    | (get) "auth_run hash (evs @ [ev]) = snd (getCachedKey h now (auth_run hash evs))"
    | (put) k where "good_key lookup h k now"
        "auth_run hash (evs @ [ev]) = setCachedKey h k now (snd (getCachedKey h now (auth_run hash evs)))"
    using resolve_cache [of hash lookup now rq "auth_run hash evs"] unfolding run [symmetric] h_def by blast
  then show ?case
  proof cases
    case same
    then show ?thesis using ops(1) old by (intro exI [of _ ops]) simp
  next
    case get
    then show ?thesis using ops(1) old by (intro exI [of _ "ops @ [Get h now]"]) (simp add: cache_run_def)
  next
    case (put k)
    let ?ops = "ops @ [Get h now, Put h k now]"
    have "auth_run hash (evs @ [ev]) = cache_run getCachedKey setCachedKey [] ?ops"
      using put(2) ops(1) by (simp add: cache_run_def)
    moreover have "\<exists>lookup rq. (t, lookup, rq) \<in> set (evs @ [ev]) \<and> good_key lookup h' k' t"
      if "Put h' k' t \<in> set ?ops" for h' k' t
      using that old [of h' k' t] new [OF put(1)] by auto
    ultimately show ?thesis by blast
  qed
qed

lemma resolve_Inr:
  assumes "resolveApiKey hash lookup now rq c = (Inr k, c')"
  shows "(extractRawKey rq \<noteq> None \<and> or_else (extractRawKey rq) [] \<noteq> []) \<and> k_isActive k \<and>
    (fst (getCachedKey (hash (or_else (extractRawKey rq) [])) now c) = Some k \<or>
     good_key lookup (hash (or_else (extractRawKey rq) [])) k now)"
  using assms
  by (cases "extractRawKey rq")
    (auto simp: resolveApiKey_def good_key_def Let_def split: prod.splits option.splits if_splits)

text \<open>C6: over any history of requests, a request that is let in presents a key whose hash the database
  knew, at most one minute earlier, as an active key that was neither revoked nor expired at that
  moment; its allowlist is empty or names the address the code takes for the caller's; and a
  sending-only key reaches no route outside the three allowed prefixes.\<close>

theorem requireAuth_sound:
  assumes "requireAuth hash lookup now rq (auth_run hash evs) = (Inr k, c')"
  shows "\<exists>key t lookup' rq'. extractRawKey rq = Some key \<and> key \<noteq> [] \<and>
      (t, lookup', rq') \<in> insert (now, lookup, rq) (set evs) \<and> now \<le> t + 60000 \<and> good_key lookup' (hash key) k t \<and>
      (k_allowedIps k = [] \<or> caller_ip rq \<in> set (k_allowedIps k)) \<and>
      (if k_permission k = ''sending_access''
       then list_ex (\<lambda>p. starts_with p (rq_url rq)) [''/v1/send'', ''/track/'', ''/v1/unsubscribe''] else True)"
proof -
  obtain c1 where r: "resolveApiKey hash lookup now rq (auth_run hash evs) = (Inr k, c1)"
      and a: "authorize rq k = Inr k"
    using assms by (auto simp: requireAuth_def authorize_def split: prod.splits sum.splits if_splits)
  obtain key where key: "extractRawKey rq = Some key" "key \<noteq> []"
    using resolve_Inr [OF r] by auto
  have "\<exists>t lookup' rq'. (t, lookup', rq') \<in> insert (now, lookup, rq) (set evs) \<and> now \<le> t + 60000 \<and>
      good_key lookup' (hash key) k t"
  proof (cases "good_key lookup (hash key) k now")
    case True
    then show ?thesis by (intro exI [of _ now] exI [of _ lookup] exI [of _ rq]) simp
  next
    case False
    then have "fst (getCachedKey (hash key) now (auth_run hash evs)) = Some k"
      using resolve_Inr [OF r] key by simp
    moreover obtain ops where ops: "auth_run hash evs = cache_run getCachedKey setCachedKey [] ops"
      "\<forall>h k t. Put h k t \<in> set ops \<longrightarrow> (\<exists>lookup rq. (t, lookup, rq) \<in> set evs \<and> good_key lookup h k t)"
      using auth_run_ops by blast
    ultimately obtain t where "Put (hash key) k t \<in> set ops" "now \<le> t + KEY_CACHE_TTL_MS"
      using keys.hit_from_history [of "hash key" now ops k] by auto
    then obtain lookup' rq' where "(t, lookup', rq') \<in> set evs" "good_key lookup' (hash key) k t" "now \<le> t + 60000"
      using ops(2) unfolding KEY_CACHE_TTL_MS_def by blast
    then show ?thesis by (intro exI [of _ t] exI [of _ lookup'] exI [of _ rq']) simp
  qed
  then show ?thesis using key a by (auto simp: authorize_def SEND_ONLY_ALLOWED_def split: if_splits)
qed

text \<open>A test key and request.\<close>

definition send_key :: api_key where
  "send_key = \<lparr>k_id = ''k1'', k_keyHash = ''h'', k_ownerId = None, k_userId = None,
     k_rateLimit = 1000, k_monthlyLimit = 1000, k_currentMonthUsage = 0, k_currentMonthFinderUsage = 0,
     k_monthlySendLimit = 500, k_currentMonthSendUsage = 0, k_sendUsageResetAt = None,
     k_usageResetAt = None, k_plan = Some ''free'', k_isActive = True, k_revokedAt = None,
     k_permission = ''full_access'', k_allowedIps = [''10.0.0.1''], k_usageAlertEnabled = True,
     k_usageAlertSentAt = None, k_extraVerificationCredits = 0, k_expiresAt = None\<rparr>"

definition send_request :: http_request where
  "send_request = \<lparr>rq_authorization = Some ''Bearer cnt_1'', rq_xApiKey = Missing,
     rq_xForwardedFor = None, rq_ip = ''10.0.0.1'', rq_url = ''/v1/verify''\<rparr>"

lemma send_request_key [simp]: "extractRawKey send_request = Some ''cnt_1''"
  by code_simp

lemma send_resolves:
  "resolveApiKey hash (\<lambda>h. Some (Some send_key)) 5 send_request [] =
     (Inr send_key, setCachedKey (hash ''cnt_1'') send_key 5 [])"
  by (simp add: resolveApiKey_def getCachedKey_def past_def send_key_def)

theorem requireAuth_sound_witness:
  "\<exists>key t lookup' rq'. extractRawKey send_request = Some key \<and>
     (t, lookup', rq') \<in> {(5, \<lambda>h. Some (Some send_key), send_request)} \<and> good_key lookup' (rev key) send_key t"
proof -
  have "requireAuth rev (\<lambda>h. Some (Some send_key)) 5 send_request (auth_run rev []) =
      (Inr send_key, setCachedKey (rev ''cnt_1'') send_key 5 [])"
    by (simp add: requireAuth_def auth_run_def send_resolves authorize_def caller_ip_def)
      (simp add: send_key_def send_request_def)
  from requireAuth_sound [OF this] show ?thesis by auto
qed

subsection \<open>The allowlist trusts a header\<close>

lemma resolve_ip_independent:
  "resolveApiKey hash lookup now (rq\<lparr>rq_xForwardedFor := f, rq_ip := ip\<rparr>) c = resolveApiKey hash lookup now rq c"
  by (simp add: resolveApiKey_def extractRawKey_def)

text \<open>The allowlist of a key can be passed from any network address: a caller who has the key and
  writes an allowed address into the \<open>X-Forwarded-For\<close> header is let in, whatever the address the
  connection comes from.\<close>

theorem allowlist_spoofable:
  assumes "fst (resolveApiKey hash lookup now rq c) = Inr k" and "a \<in> set (k_allowedIps k)"
    and "js_trim a = a" and "CHR '','' \<notin> set a" and "k_permission k = ''full_access''"
  shows "fst (requireAuth hash lookup now (rq\<lparr>rq_xForwardedFor := Some a, rq_ip := attacker\<rparr>) c) = Inr k"
proof -
  have "caller_ip (rq\<lparr>rq_xForwardedFor := Some a, rq_ip := attacker\<rparr>) = a"
    using assms(3,4) by (simp add: caller_ip_def split_on_fresh)
  then have "authorize (rq\<lparr>rq_xForwardedFor := Some a, rq_ip := attacker\<rparr>) k = Inr k"
    using assms(2,5) by (simp add: authorize_def)
  then show ?thesis
    using assms(1) unfolding requireAuth_def resolve_ip_independent
    by (auto split: prod.split sum.split)
qed

theorem allowlist_spoofable_witness:
  "fst (requireAuth rev (\<lambda>h. Some (Some send_key)) 5
     (send_request\<lparr>rq_xForwardedFor := Some ''10.0.0.1'', rq_ip := ''6.6.6.6''\<rparr>) []) = Inr send_key"
proof -
  have "js_trim ''10.0.0.1'' = ''10.0.0.1''" by code_simp
  moreover have "''10.0.0.1'' \<in> set (k_allowedIps send_key)" "k_permission send_key = ''full_access''"
    by (simp_all add: send_key_def)
  ultimately show ?thesis
    using allowlist_spoofable [of rev "\<lambda>h. Some (Some send_key)" 5 send_request "[]" send_key "''10.0.0.1''" "''6.6.6.6''"]
    by (simp add: send_resolves)
qed

subsection \<open>Keys in headers\<close>

text \<open>A key without blanks is found again from either header, whatever the capitalization of the
  scheme, and an authorization header of another form is ignored in favour of \<open>x-api-key\<close>.\<close>

theorem extractRawKey_roundtrip:
  assumes "CHR '' '' \<notin> set key" and "key \<noteq> []" and "js_lower scheme = ''bearer'' " and "CHR '' '' \<notin> set scheme"
    and "CHR '' '' \<notin> set other"
  shows "extractRawKey (rq\<lparr>rq_authorization := Some (scheme @ '' '' @ key)\<rparr>) = Some key \<and>
    extractRawKey (rq\<lparr>rq_authorization := None, rq_xApiKey := Single key\<rparr>) = Some key \<and>
    extractRawKey (rq\<lparr>rq_authorization := Some other, rq_xApiKey := Single key\<rparr>) = Some key"
  using assms by (simp add: extractRawKey_def split_on_sep split_on_fresh Let_def)

theorem extractRawKey_roundtrip_witness:
  "extractRawKey (send_request\<lparr>rq_authorization := Some ''bEaReR cnt_2''\<rparr>) = Some ''cnt_2''"
proof -
  have "js_lower ''bEaReR'' = ''bearer''" by code_simp
  then show ?thesis using extractRawKey_roundtrip [of "''cnt_2''" "''bEaReR''" "''x''" send_request] by simp
qed

end
