(* ===== verification/Calendar.thy ===== *)
theory Calendar
  imports Prelude
begin

text \<open>
  The part of the JavaScript \<open>Date\<close> that the meters use: \<open>getFullYear\<close>, \<open>getMonth\<close>,
  \<open>new Date(year, month + 1, 1)\<close> and the date part of \<open>toISOString\<close>. A date is its number
  of milliseconds since 1970 and the time zone of the process is UTC. A month is numbered from
  January 1970, so that its number is 12 times the year plus the month of the code, and the roll
  over from December to January of \<open>new Date(y, 12, 1)\<close> is an addition of one.
\<close>

definition MS_PER_DAY :: int where "MS_PER_DAY = 86400000"

definition leap_year :: "int \<Rightarrow> bool" where
  "leap_year y \<longleftrightarrow> y mod 4 = 0 \<and> (y mod 100 \<noteq> 0 \<or> y mod 400 = 0)"

text \<open>Days from 1 January 1970 to 1 January of the year 1970 + \<open>k\<close>.\<close>

definition year_start :: "int \<Rightarrow> int" where
  "year_start k = 365 * k + (k + 1) div 4 - (k + 69) div 100 + (k + 369) div 400"

text \<open>Days before each month of a year.\<close>

definition days_before :: "bool \<Rightarrow> int \<Rightarrow> int" where
  "days_before leap m =
     (if m = 0 then 0 else if m = 1 then 31
      else (if leap then 1 else 0) +
        (if m = 2 then 59 else if m = 3 then 90 else if m = 4 then 120 else if m = 5 then 151
         else if m = 6 then 181 else if m = 7 then 212 else if m = 8 then 243 else if m = 9 then 273
         else if m = 10 then 304 else 334))"

definition month_start :: "int \<Rightarrow> int" where
  "month_start m = year_start (m div 12) + days_before (leap_year (1970 + m div 12)) (m mod 12)"

lemma succ_div_mod:
  fixes a n :: int
  assumes "0 < n"
  shows "(a + 1) div n = (if a mod n + 1 = n then a div n + 1 else a div n)"
    and "(a + 1) mod n = (if a mod n + 1 = n then 0 else a mod n + 1)"
proof -
  have eq: "a + 1 = (a mod n + 1) + n * (a div n)" by simp
  have "0 \<le> a mod n" "a mod n < n" using assms by simp_all
  then have "(a mod n + 1) div n = (if a mod n + 1 = n then 1 else 0)"
    "(a mod n + 1) mod n = (if a mod n + 1 = n then 0 else a mod n + 1)"
    by (auto simp: div_pos_pos_trivial mod_pos_pos_trivial)
  moreover have "(a + 1) div n = a div n + (a mod n + 1) div n"
    by (subst eq) (rule div_mult_self2, use assms in simp)
  moreover have "(a + 1) mod n = (a mod n + 1) mod n"
    by (subst eq) (rule mod_mult_self2)
  ultimately show "(a + 1) div n = (if a mod n + 1 = n then a div n + 1 else a div n)"
    "(a + 1) mod n = (if a mod n + 1 = n then 0 else a mod n + 1)" by simp_all
qed

lemma div_succ:
  fixes a b n :: int
  assumes "0 < n" and "b = a + 1"
  shows "b div n = a div n + (if b mod n = 0 then 1 else 0)"
proof -
  have "0 \<le> a mod n" using assms by simp
  then show ?thesis unfolding assms(2) succ_div_mod [OF assms(1)] by simp
qed

lemma year_length: "year_start (k + 1) = year_start k + (if leap_year (1970 + k) then 366 else 365)"
proof -
  have d: "(k + 2) div 4 = (k + 1) div 4 + (if (k + 2) mod 4 = 0 then 1 else 0)"
    "(k + 70) div 100 = (k + 69) div 100 + (if (k + 70) mod 100 = 0 then 1 else 0)"
    "(k + 370) div 400 = (k + 369) div 400 + (if (k + 370) mod 400 = 0 then 1 else 0)"
    by (rule div_succ; simp)+
  have e: "1970 + k = k + 2 + 492 * 4" "1970 + k = k + 70 + 19 * 100" "1970 + k = k + 370 + 4 * 400"
    "k + 370 = k + 70 + 3 * 100" "k + 70 = k + 2 + 17 * 4" by simp_all
  have m: "(1970 + k) mod 4 = (k + 2) mod 4" "(1970 + k) mod 100 = (k + 70) mod 100"
    "(1970 + k) mod 400 = (k + 370) mod 400"
    by (subst e(1), rule mod_mult_self1, subst e(2), rule mod_mult_self1, subst e(3), rule mod_mult_self1)
  have "(k + 370) mod 100 = (k + 70) mod 100" "(k + 70) mod 4 = (k + 2) mod 4"
    by (subst e(4), rule mod_mult_self1, subst e(5), rule mod_mult_self1)
  then have "(k + 70) mod 100 \<noteq> 0 \<Longrightarrow> (k + 370) mod 400 \<noteq> 0" "(k + 2) mod 4 \<noteq> 0 \<Longrightarrow> (k + 70) mod 100 \<noteq> 0"
    using mod_mod_cancel [of 100 400 "k + 370"] mod_mod_cancel [of 4 100 "k + 70"] by auto
  then show ?thesis unfolding leap_year_def m by (auto simp: year_start_def d add.assoc)
qed

lemma days_before_step:
  "0 \<le> r \<Longrightarrow> r < 11 \<Longrightarrow>
     days_before leap r + 28 \<le> days_before leap (r + 1) \<and> days_before leap (r + 1) \<le> days_before leap r + 31"
proof -
  assume "0 \<le> r" "r < 11"
  then have "nat r \<in> set [0..<11]" by auto
  then have "r \<in> int ` set [0..<11]" using \<open>0 \<le> r\<close> by (metis image_eqI int_nat_eq)
  then show ?thesis by (auto simp: days_before_def upt_rec)
qed

lemma month_length: "month_start m + 28 \<le> month_start (m + 1) \<and> month_start (m + 1) \<le> month_start m + 31"
proof (cases "m mod 12 = 11")
  case True
  then have "(m + 1) div 12 = m div 12 + 1" "(m + 1) mod 12 = 0" using succ_div_mod [of 12 m] by simp_all
  with True show ?thesis by (simp add: month_start_def year_length days_before_def)
next
  case False
  then have "(m + 1) div 12 = m div 12" "(m + 1) mod 12 = m mod 12 + 1" using succ_div_mod [of 12 m] by simp_all
  moreover have "0 \<le> m mod 12" "m mod 12 < 11"
    using False pos_mod_bound [of 12 m] by (simp, linarith)
  ultimately show ?thesis using days_before_step [of "m mod 12"] by (simp add: month_start_def)
qed

text \<open>The month of a day, searched upwards from a month that has begun.\<close>

function month_from :: "int \<Rightarrow> int \<Rightarrow> int" where
  "month_from m d = (if d < month_start (m + 1) then m else month_from (m + 1) d)"
  by pat_completeness auto

termination
proof (relation "measure (\<lambda>(m, d). nat (d - month_start m))")
  fix m d :: int
  assume "\<not> d < month_start (m + 1)"
  then show "((m + 1, d), m, d) \<in> measure (\<lambda>(m, d). nat (d - month_start m))"
    using month_length [of m] by simp
qed simp

declare month_from.simps [simp del]

definition month_of :: "int \<Rightarrow> int" where
  "month_of t = month_from 0 (t div MS_PER_DAY)"

text \<open>\<open>new Date(now.getFullYear(), now.getMonth() + 1, 1)\<close>.\<close>

definition next_month :: "int \<Rightarrow> int" where
  "next_month t = month_start (month_of t + 1) * MS_PER_DAY"

lemma month_from_bounds:
  "month_start m \<le> d \<Longrightarrow> month_start (month_from m d) \<le> d \<and> d < month_start (month_from m d + 1)"
proof (induction m d rule: month_from.induct)
  case (1 m d)
  then show ?case by (cases "d < month_start (m + 1)") (simp_all add: month_from.simps [of m d])
qed

lemma month_start_mono: "m < k \<Longrightarrow> month_start m < month_start k"
proof (induction k rule: int_gr_induct [of m])
  case base
  then show ?case using month_length [of m] by simp
next
  case (step i)
  then show ?case using month_length [of i] by simp
qed

lemma month_unique:
  "month_start m \<le> d \<Longrightarrow> d < month_start (m + 1) \<Longrightarrow> month_start k \<le> d \<Longrightarrow> d < month_start (k + 1) \<Longrightarrow> m = k"
  using month_start_mono [of "m + 1" k] month_start_mono [of "k + 1" m]
  by (cases m k rule: linorder_cases; cases "m + 1 = k"; cases "k + 1 = m") auto

lemma month_of_bounds:
  assumes "0 \<le> t"
  shows "month_start (month_of t) * MS_PER_DAY \<le> t" and "t < next_month t"
proof -
  have "month_start 0 \<le> t div MS_PER_DAY"
    using assms by (simp add: month_start_def year_start_def days_before_def MS_PER_DAY_def)
  from month_from_bounds [OF this]
  show "month_start (month_of t) * MS_PER_DAY \<le> t" "t < next_month t"
    by (auto simp: month_of_def next_month_def MS_PER_DAY_def)
qed

lemma next_month_within: "0 \<le> t \<Longrightarrow> next_month t \<le> t + 31 * MS_PER_DAY"
  using month_of_bounds(1) [of t] month_length [of "month_of t"]
  by (simp add: next_month_def MS_PER_DAY_def)

lemma month_of_next: "0 \<le> t \<Longrightarrow> month_of (next_month t) = month_of t + 1"
proof -
  assume t: "0 \<le> t"
  have d: "next_month t div MS_PER_DAY = month_start (month_of t + 1)"
    by (simp add: next_month_def MS_PER_DAY_def)
  have "0 \<le> next_month t" using t month_of_bounds(2) [of t] by simp
  then have "month_start 0 \<le> next_month t div MS_PER_DAY"
    by (simp add: month_start_def year_start_def days_before_def MS_PER_DAY_def)
  from month_from_bounds [OF this] show ?thesis
    unfolding month_of_def [of "next_month t"] d
    using month_unique [of "month_from 0 (month_start (month_of t + 1))" "month_start (month_of t + 1)" "month_of t + 1"]
      month_length [of "month_of t + 1"] by (simp add: add.assoc)
qed

text \<open>The day of the month, from 1, and \<open>date.toISOString().split('T')[0]\<close> for the years 1970 to
  9999.\<close>

definition pad2 :: "int \<Rightarrow> string" where
  "pad2 n = (if n < 10 then ''0'' else []) @ show_int n"

definition iso_day :: "int \<Rightarrow> string" where
  "iso_day t =
     (let m = month_of t
      in show_int (1970 + m div 12) @ ''-'' @ pad2 (m mod 12 + 1) @ ''-'' @
         pad2 (t div MS_PER_DAY - month_start m + 1))"

end
