(* ===== verification/UsageMeter.thy ===== *)
theory UsageMeter
  imports ApiKeys Calendar
begin

text \<open>
  \<^verbatim>\<open>src/plugins/usageMeter.ts\<close>: monthly quotas of verifications, of Finder leads and of
  sends. A handler gets the key record of the request (which authentication may have taken from
  its cache) and the table of keys; it returns the record with its assignments, the new table,
  the response headers and the outcome. The argument \<open>up\<close> says for each database
  transaction of the call whether it succeeds.
\<close>

subsection \<open>Plan limits\<close>

definition plan_lookup :: "(string \<times> int) list \<Rightarrow> string option \<Rightarrow> int option" where
  "plan_lookup limits plan = map_of limits (or_else plan ''free'')"

definition PLAN_LIMITS :: "(string \<times> int) list" where
  "PLAN_LIMITS = [(''free'', 1000), (''starter'', 5000), (''growth'', 15000), (''scale'', 100000)]"

definition getPlanLimit :: "string option \<Rightarrow> int option \<Rightarrow> int" where
  "getPlanLimit plan monthlyLimit = or_else (plan_lookup PLAN_LIMITS plan) (or_else monthlyLimit 1000)"

definition PLAN_MONITOR_LIMITS :: "(string \<times> int) list" where
  "PLAN_MONITOR_LIMITS = [(''free'', 5), (''starter'', 50), (''growth'', 200), (''scale'', 500)]"

definition getMonitorLimit :: "string option \<Rightarrow> int" where
  "getMonitorLimit plan = or_else (plan_lookup PLAN_MONITOR_LIMITS plan) 5"

definition PLAN_AGENT_RUN_LIMITS :: "(string \<times> int) list" where
  "PLAN_AGENT_RUN_LIMITS = [(''free'', 2), (''starter'', 10), (''growth'', 50), (''scale'', 200)]"

definition getAgentRunLimit :: "string option \<Rightarrow> int" where
  "getAgentRunLimit plan = or_else (plan_lookup PLAN_AGENT_RUN_LIMITS plan) 2"

definition PLAN_MAILBOX_LIMITS :: "(string \<times> int) list" where
  "PLAN_MAILBOX_LIMITS = [(''free'', 1), (''starter'', 5), (''growth'', 25), (''scale'', 100)]"

definition getMailboxLimit :: "string option \<Rightarrow> int" where
  "getMailboxLimit plan = or_else (plan_lookup PLAN_MAILBOX_LIMITS plan) 1"

definition PLAN_FINDER_LIMITS :: "(string \<times> int) list" where
  "PLAN_FINDER_LIMITS = [(''free'', 25), (''starter'', 250), (''growth'', 750), (''scale'', 2500)]"

definition getFinderLimit :: "string option \<Rightarrow> int" where
  "getFinderLimit plan = or_else (plan_lookup PLAN_FINDER_LIMITS plan) 25"

definition PLAN_SEND_LIMITS :: "(string \<times> int) list" where
  "PLAN_SEND_LIMITS = [(''free'', 1000), (''starter'', 5000), (''growth'', 15000), (''scale'', 100000)]"

definition getSendLimit :: "string option \<Rightarrow> int option \<Rightarrow> int" where
  "getSendLimit plan monthlySendLimit = or_else (plan_lookup PLAN_SEND_LIMITS plan) (or_else monthlySendLimit 500)"

subsection \<open>The verification quota\<close>

datatype meter_outcome = Pass | RateLimited

record usage_alert =
  al_keyId :: string
  al_ownerId :: "string option"
  al_used :: int
  al_limit :: int

record meter_reply =
  m_outcome :: meter_outcome
  m_headers :: "(string \<times> string) list"
  m_alert :: "usage_alert option"

definition fail_open :: meter_reply where
  "fail_open = \<lparr>m_outcome = Pass, m_headers = [], m_alert = None\<rparr>"

definition reset_label :: "int option \<Rightarrow> string" where
  "reset_label r = (case r of Some t \<Rightarrow> iso_day t | None \<Rightarrow> ''next month'')"

text \<open>The two writes of the rollover; \<open>None\<close> when one of them throws. The record keeps the
  assignments made before the throw.\<close>

definition roll_over ::
  "(nat \<Rightarrow> bool) \<Rightarrow> int \<Rightarrow> api_key \<Rightarrow> key_table \<Rightarrow> bool \<times> api_key \<times> key_table" where
  "roll_over up now key tab =
     (let nextReset = next_month now;
          (ok1, key1, tab1) =
            (if k_usageResetAt key = None then
               (case withTenant (up 0) (k_id key) (update_key (k_id key) (\<lambda>r. r\<lparr>k_usageResetAt := Some nextReset\<rparr>)) tab of
                  None \<Rightarrow> (False, key, tab)
                | Some tab' \<Rightarrow> (True, key\<lparr>k_usageResetAt := Some nextReset\<rparr>, tab'))
             else (True, key, tab))
      in if \<not> ok1 then (False, key1, tab1)
         else case k_usageResetAt key1 of
           None \<Rightarrow> (True, key1, tab1)
         | Some resetAt \<Rightarrow>
             if now \<ge> resetAt then
               (case withTenant (up 1) (k_id key1) (update_key (k_id key1)
                   (\<lambda>r. r\<lparr>k_currentMonthUsage := 0, k_currentMonthFinderUsage := 0, k_usageResetAt := Some nextReset\<rparr>)) tab1 of
                  None \<Rightarrow> (False, key1, tab1)
                | Some tab' \<Rightarrow>
                    (True, key1\<lparr>k_currentMonthUsage := 0, k_currentMonthFinderUsage := 0, k_usageResetAt := Some nextReset\<rparr>, tab'))
             else (True, key1, tab1))"

text \<open>At least 80 percent used, written without the floating-point division: the limit is positive
  here and below 10^15, where the rounded quotient compares with 0.8 as the exact one does.\<close>

definition alert_due :: "int \<Rightarrow> int \<Rightarrow> api_key \<Rightarrow> bool" where
  "alert_due now limit key \<longleftrightarrow> k_usageAlertEnabled key \<and> 5 * k_currentMonthUsage key \<ge> 4 * limit \<and>
     (case k_usageAlertSentAt key of None \<Rightarrow> True | Some sentAt \<Rightarrow> month_of sentAt \<noteq> month_of now)"

definition verification_limit :: "api_key \<Rightarrow> int" where
  "verification_limit key = getPlanLimit (k_plan key) (Some (k_monthlyLimit key)) + k_extraVerificationCredits key"

definition quota_reply :: "int \<Rightarrow> api_key \<Rightarrow> meter_reply" where
  "quota_reply now key =
     (let limit = verification_limit key; used = k_currentMonthUsage key in
      if used \<ge> limit then
        \<lparr>m_outcome = RateLimited,
         m_headers = [(''X-Usage-Limit'', show_int limit), (''X-Usage-Used'', show_int used),
           (''X-Usage-Reset'', reset_label (k_usageResetAt key))],
         m_alert = None\<rparr>
      else
        \<lparr>m_outcome = Pass,
         m_headers = [(''X-Usage-Limit'', show_int limit), (''X-Usage-Remaining'', show_int (max 0 (limit - used))),
           (''X-Usage-Reset'', reset_label (k_usageResetAt key))],
         m_alert = (if alert_due now limit key
           then Some \<lparr>al_keyId = k_id key, al_ownerId = (case k_ownerId key of Some i \<Rightarrow> Some i | None \<Rightarrow> k_userId key),
                  al_used = used, al_limit = limit\<rparr>
           else None)\<rparr>)"

text \<open>A request without a key passes untouched; an error other than the 429 fails open.\<close>

definition requireMonthlyQuota ::
  "(nat \<Rightarrow> bool) \<Rightarrow> int \<Rightarrow> api_key option \<Rightarrow> key_table \<Rightarrow> meter_reply \<times> api_key option \<times> key_table" where
  "requireMonthlyQuota up now request_key tab =
     (case request_key of
        None \<Rightarrow> (fail_open, None, tab)
      | Some key \<Rightarrow>
          (case roll_over up now key tab of
             (ok, key', tab') \<Rightarrow> (if ok then quota_reply now key' else fail_open, Some key', tab')))"

subsection \<open>The usage alert\<close>

text \<open>A message is rendered from the recipient and the two numbers.\<close>

record alert_mail =
  am_to :: string
  am_used :: int
  am_limit :: int

text \<open>\<open>user_email\<close> is the user lookup (\<open>None\<close>: it throws; \<open>Some None\<close>: no such
  user, or one without an address), \<open>mail_ok\<close> whether the mail is accepted.\<close>

definition sendUsageAlert ::
  "(string \<Rightarrow> string option option) \<Rightarrow> bool \<Rightarrow> bool \<Rightarrow> int \<Rightarrow> usage_alert \<Rightarrow> key_table \<times> alert_mail list \<Rightarrow>
     key_table \<times> alert_mail list" where
  "sendUsageAlert user_email mail_ok up now a w =
     (if \<not> truthy (al_ownerId a) then w
      else case user_email (or_else (al_ownerId a) []) of
        None \<Rightarrow> w
      | Some None \<Rightarrow> w
      | Some (Some addr) \<Rightarrow>
          if addr = [] \<or> \<not> mail_ok then w
          else
            let mails = snd w @ [\<lparr>am_to = addr, am_used = al_used a, am_limit = al_limit a\<rparr>]
            in case withTenant up (al_keyId a) (update_key (al_keyId a) (\<lambda>r. r\<lparr>k_usageAlertSentAt := Some now\<rparr>)) (fst w) of
                 None \<Rightarrow> (fst w, mails)
               | Some tab' \<Rightarrow> (tab', mails))"

subsection \<open>Counting\<close>

definition incrementUsageBy :: "bool \<Rightarrow> string \<Rightarrow> int \<Rightarrow> key_table \<Rightarrow> key_table" where
  "incrementUsageBy up i count tab =
     (if count \<le> 0 then tab
      else or_else (withTenant up i (update_key i (\<lambda>r. r\<lparr>k_currentMonthUsage := k_currentMonthUsage r + count\<rparr>)) tab) tab)"

definition incrementUsage :: "bool \<Rightarrow> string \<Rightarrow> key_table \<Rightarrow> key_table" where
  "incrementUsage up i tab = incrementUsageBy up i 1 tab"

definition FINDER_OVERFLOW_VERIFICATION_COST :: int where
  "FINDER_OVERFLOW_VERIFICATION_COST = 2"

record affordability =
  finderRemaining :: int
  verificationAsFinderRemaining :: int
  maxAffordable :: int

definition getFinderAffordability :: "api_key \<Rightarrow> affordability" where
  "getFinderAffordability key =
     (let remaining = max 0 (getFinderLimit (k_plan key) - k_currentMonthFinderUsage key);
          verificationRemaining = max 0 (verification_limit key - k_currentMonthUsage key);
          asFinder = verificationRemaining div FINDER_OVERFLOW_VERIFICATION_COST
      in \<lparr>finderRemaining = remaining, verificationAsFinderRemaining = asFinder,
          maxAffordable = remaining + asFinder\<rparr>)"

definition bill_finder :: "int \<Rightarrow> int \<Rightarrow> api_key \<Rightarrow> api_key" where
  "bill_finder allowance overflow r =
     (let r1 = (if allowance > 0 then r\<lparr>k_currentMonthFinderUsage := k_currentMonthFinderUsage r + allowance\<rparr> else r)
      in if overflow > 0
         then r1\<lparr>k_currentMonthUsage := k_currentMonthUsage r1 + overflow * FINDER_OVERFLOW_VERIFICATION_COST\<rparr>
         else r1)"

text \<open>\<open>tab\<close> is the table at the read and \<open>later\<close> what other requests make of it before
  the write.\<close>

definition incrementFinderUsage ::
  "(nat \<Rightarrow> bool) \<Rightarrow> (key_table \<Rightarrow> key_table) \<Rightarrow> string \<Rightarrow> int \<Rightarrow> key_table \<Rightarrow> key_table" where
  "incrementFinderUsage up later i count tab =
     (if count \<le> 0 then tab
      else case withTenant (up 0) i (\<lambda>t. Some (t i)) tab of
        None \<Rightarrow> later tab
      | Some None \<Rightarrow> later tab
      | Some (Some key) \<Rightarrow>
          let allowance = min count (finderRemaining (getFinderAffordability key));
              overflow = count - allowance
          in or_else (withTenant (up 1) i (update_key i (bill_finder allowance overflow)) (later tab)) (later tab))"

subsection \<open>The send quota\<close>

definition roll_over_send ::
  "(nat \<Rightarrow> bool) \<Rightarrow> int \<Rightarrow> api_key \<Rightarrow> key_table \<Rightarrow> bool \<times> api_key \<times> key_table" where
  "roll_over_send up now key tab =
     (let nextReset = next_month now;
          (ok1, key1, tab1) =
            (if k_sendUsageResetAt key = None then
               (case withTenant (up 0) (k_id key) (update_key (k_id key) (\<lambda>r. r\<lparr>k_sendUsageResetAt := Some nextReset\<rparr>)) tab of
                  None \<Rightarrow> (False, key, tab)
                | Some tab' \<Rightarrow> (True, key\<lparr>k_sendUsageResetAt := Some nextReset\<rparr>, tab'))
             else (True, key, tab))
      in if \<not> ok1 then (False, key1, tab1)
         else case k_sendUsageResetAt key1 of
           None \<Rightarrow> (True, key1, tab1)
         | Some resetAt \<Rightarrow>
             if now \<ge> resetAt then
               (case withTenant (up 1) (k_id key1) (update_key (k_id key1)
                   (\<lambda>r. r\<lparr>k_currentMonthSendUsage := 0, k_sendUsageResetAt := Some nextReset\<rparr>)) tab1 of
                  None \<Rightarrow> (False, key1, tab1)
                | Some tab' \<Rightarrow> (True, key1\<lparr>k_currentMonthSendUsage := 0, k_sendUsageResetAt := Some nextReset\<rparr>, tab'))
             else (True, key1, tab1))"

definition send_limit :: "api_key \<Rightarrow> int" where
  "send_limit key = getSendLimit (k_plan key) (Some (k_monthlySendLimit key))"

definition send_quota_reply :: "api_key \<Rightarrow> meter_reply" where
  "send_quota_reply key =
     (let limit = send_limit key; used = k_currentMonthSendUsage key in
      if used \<ge> limit then
        \<lparr>m_outcome = RateLimited,
         m_headers = [(''X-Send-Usage-Limit'', show_int limit), (''X-Send-Usage-Used'', show_int used),
           (''X-Send-Usage-Reset'', reset_label (k_sendUsageResetAt key))],
         m_alert = None\<rparr>
      else
        \<lparr>m_outcome = Pass,
         m_headers = [(''X-Send-Usage-Limit'', show_int limit),
           (''X-Send-Usage-Remaining'', show_int (max 0 (limit - used))),
           (''X-Send-Usage-Reset'', reset_label (k_sendUsageResetAt key))],
         m_alert = None\<rparr>)"

definition requireMonthlySendQuota ::
  "(nat \<Rightarrow> bool) \<Rightarrow> int \<Rightarrow> api_key option \<Rightarrow> key_table \<Rightarrow> meter_reply \<times> api_key option \<times> key_table" where
  "requireMonthlySendQuota up now request_key tab =
     (case request_key of
        None \<Rightarrow> (fail_open, None, tab)
      | Some key \<Rightarrow>
          (case roll_over_send up now key tab of
             (ok, key', tab') \<Rightarrow> (if ok then send_quota_reply key' else fail_open, Some key', tab')))"

definition incrementSendUsageBy :: "bool \<Rightarrow> string \<Rightarrow> int \<Rightarrow> key_table \<Rightarrow> key_table" where
  "incrementSendUsageBy up i count tab =
     (if count \<le> 0 then tab
      else or_else (withTenant up i (update_key i (\<lambda>r. r\<lparr>k_currentMonthSendUsage := k_currentMonthSendUsage r + count\<rparr>)) tab) tab)"

subsection \<open>Requests served with a fresh key\<close>

text \<open>One request: the key is read from the table, the gate decides, a request that passes is
  counted.\<close>

definition metered_request :: "string \<Rightarrow> int \<Rightarrow> key_table \<Rightarrow> bool \<times> key_table" where
  "metered_request i now tab =
     (case requireMonthlyQuota (\<lambda>k. True) now (tab i) tab of
        (r, key', tab') \<Rightarrow> if m_outcome r = Pass then (True, incrementUsage True i tab') else (False, tab'))"

fun metered_requests :: "string \<Rightarrow> int list \<Rightarrow> key_table \<Rightarrow> nat \<times> key_table" where
  "metered_requests i [] tab = (0, tab)"
| "metered_requests i (t # ts) tab =
     (case metered_request i t tab of
        (ok, tab1) \<Rightarrow> (case metered_requests i ts tab1 of
           (n, tab2) \<Rightarrow> ((if ok then Suc n else n), tab2)))"

lemma roll_over_current [simp]:
  "k_usageResetAt key = Some r \<Longrightarrow> now < r \<Longrightarrow> roll_over up now key tab = (True, key, tab)"
  by (simp add: roll_over_def)

lemma quota_pass_iff [simp]:
  "m_outcome (quota_reply now key) = Pass \<longleftrightarrow> k_currentMonthUsage key < verification_limit key"
  by (auto simp: quota_reply_def Let_def)

lemma incrementUsage_row:
  "valid_tenant_id i \<Longrightarrow> tab i = Some row \<Longrightarrow> 0 < n \<Longrightarrow>
     incrementUsageBy True i n tab = tab(i \<mapsto> row\<lparr>k_currentMonthUsage := k_currentMonthUsage row + n\<rparr>)"
  by (simp add: incrementUsageBy_def withTenant_up)

lemma verification_limit_usage [simp]:
  "verification_limit (row\<lparr>k_currentMonthUsage := u\<rparr>) = verification_limit row"
  by (simp add: verification_limit_def)

lemma metered_request_current:
  assumes "valid_tenant_id i" and "tab i = Some row" and "k_usageResetAt row = Some r" and "t < r"
  shows "metered_request i t tab =
    (if k_currentMonthUsage row < verification_limit row
     then (True, tab(i \<mapsto> row\<lparr>k_currentMonthUsage := k_currentMonthUsage row + 1\<rparr>)) else (False, tab))"
  using assms by (simp add: metered_request_def requireMonthlyQuota_def incrementUsage_def incrementUsage_row)

text \<open>C7: until the next reset, requests served one after the other with freshly read keys pass
  exactly until the limit of the plan and the purchased credits is used up, and the counter grows by
  the number that passed.\<close>

theorem quota_enforced:
  assumes "valid_tenant_id i" and "tab i = Some row" and "k_usageResetAt row = Some r"
    and "\<forall>t \<in> set ts. t < r"
  shows "metered_requests i ts tab =
    (let n = min (length ts) (nat (verification_limit row - k_currentMonthUsage row))
     in (n, if n = 0 then tab else tab(i \<mapsto> row\<lparr>k_currentMonthUsage := k_currentMonthUsage row + int n\<rparr>)))"
  using assms(2-4)
proof (induction ts arbitrary: tab row)
  case (Cons t ts)
  show ?case
  proof (cases "k_currentMonthUsage row < verification_limit row")
    case True
    let ?row = "row\<lparr>k_currentMonthUsage := k_currentMonthUsage row + 1\<rparr>"
    have step: "metered_request i t tab = (True, tab(i \<mapsto> ?row))"
      using metered_request_current [where tab = tab and i = i and row = row, OF assms(1) Cons.prems(1,2)] Cons.prems(3) True by simp
    have n: "nat (verification_limit row - k_currentMonthUsage row) =
        Suc (nat (verification_limit row - (k_currentMonthUsage row + 1)))" using True by simp
    define m where "m = min (length ts) (nat (verification_limit row - (k_currentMonthUsage row + 1)))"
    have "(tab(i \<mapsto> ?row)) i = Some ?row" by simp
    from Cons.IH [where tab = "tab(i \<mapsto> ?row)" and row = ?row, OF this] Cons.prems(2,3)
    have ih: "metered_requests i ts (tab(i \<mapsto> ?row)) =
        (m, if m = 0 then tab(i \<mapsto> ?row) else tab(i \<mapsto> row\<lparr>k_currentMonthUsage := k_currentMonthUsage row + 1 + int m\<rparr>))"
      by (simp add: Let_def m_def del: fun_upd_apply)
    have "min (length (t # ts)) (nat (verification_limit row - k_currentMonthUsage row)) = Suc m"
      by (simp add: m_def n)
    then show ?thesis by (simp add: step ih Let_def add.assoc del: fun_upd_apply)
  next
    case False
    then have step: "metered_request i t tab = (False, tab)"
      using metered_request_current [where tab = tab and i = i and row = row, OF assms(1) Cons.prems(1,2)] Cons.prems(3) by simp
    have "nat (verification_limit row - k_currentMonthUsage row) = 0" using False by simp
    then show ?thesis using Cons.IH [where tab = tab and row = row, OF Cons.prems(1,2)] Cons.prems(3) by (simp add: step Let_def)
  qed
qed simp

definition free_key :: "int \<Rightarrow> int \<Rightarrow> api_key" where
  "free_key used resetAt = \<lparr>k_id = ''k1'', k_keyHash = ''h'', k_ownerId = Some ''o'', k_userId = None,
     k_rateLimit = 1000, k_monthlyLimit = 1000, k_currentMonthUsage = used, k_currentMonthFinderUsage = 0,
     k_monthlySendLimit = 500, k_currentMonthSendUsage = 0, k_sendUsageResetAt = Some resetAt,
     k_usageResetAt = Some resetAt, k_plan = Some ''free'', k_isActive = True, k_revokedAt = None,
     k_permission = ''full_access'', k_allowedIps = [], k_usageAlertEnabled = True,
     k_usageAlertSentAt = None, k_extraVerificationCredits = 0, k_expiresAt = None\<rparr>"

lemma free_limit [simp]: "verification_limit (free_key u r) = 1000"
  by (simp add: verification_limit_def free_key_def getPlanLimit_def plan_lookup_def PLAN_LIMITS_def)

lemma free_key_sel [simp]:
  "k_currentMonthUsage (free_key u r) = u" "k_usageResetAt (free_key u r) = Some r" "k_id (free_key u r) = ''k1''"
  by (simp_all add: free_key_def)

lemma k1_valid [simp]: "valid_tenant_id ''k1''"
  by code_simp

theorem quota_enforced_witness:
  "fst (metered_requests ''k1'' [1, 2, 3] [''k1'' \<mapsto> free_key 998 100]) = 2"
  using quota_enforced [of "''k1''" "[''k1'' \<mapsto> free_key 998 100]" "free_key 998 100" 100 "[1, 2, 3]"]
  by (simp add: Let_def)

subsection \<open>The rollover\<close>

text \<open>The first request with a freshly read key at or after its reset date starts a new month:
  both verification counters are zero, in the record and in the table, and the next reset is the
  first day of the following month, after now and at most 31 days away.\<close>

theorem rollover_starts_month:
  assumes "valid_tenant_id i" and "tab i = Some row" and "k_id row = i" and "k_usageResetAt row = Some r"
    and "r \<le> now" and "0 \<le> now"
  shows "\<exists>reply row'. requireMonthlyQuota (\<lambda>k. True) now (Some row) tab = (reply, Some row', tab(i \<mapsto> row')) \<and>
     k_currentMonthUsage row' = 0 \<and> k_currentMonthFinderUsage row' = 0 \<and>
     (\<exists>r'. k_usageResetAt row' = Some r' \<and> now < r' \<and> r' \<le> now + 31 * MS_PER_DAY \<and> month_of r' = month_of now + 1)"
  using assms(1-5) month_of_bounds(2) [OF assms(6)] next_month_within [OF assms(6)] month_of_next [OF assms(6)]
  by (auto simp: requireMonthlyQuota_def roll_over_def withTenant_up Let_def)

theorem rollover_starts_month_witness:
  "\<exists>reply row'. requireMonthlyQuota (\<lambda>k. True) 100 (Some (free_key 998 100)) [''k1'' \<mapsto> free_key 998 100] =
      (reply, Some row', [''k1'' \<mapsto> row']) \<and> k_currentMonthUsage row' = 0"
  using rollover_starts_month [of "''k1''" "[''k1'' \<mapsto> free_key 998 100]" "free_key 998 100" 100 100] by auto

subsection \<open>Requests served with a cached key\<close>

text \<open>The record that authentication keeps in its cache is passed on from request to request; only
  the table sees the increments.\<close>

fun cached_requests :: "nat \<Rightarrow> int \<Rightarrow> api_key \<Rightarrow> key_table \<Rightarrow> nat \<times> key_table" where
  "cached_requests 0 now key tab = (0, tab)"
| "cached_requests (Suc n) now key tab =
     (case requireMonthlyQuota (\<lambda>k. True) now (Some key) tab of
        (r, None, tab') \<Rightarrow> (0, tab')
      | (r, Some key', tab') \<Rightarrow>
          if m_outcome r = Pass
          then (case cached_requests n now key' (incrementUsage True (k_id key) tab') of (k, tab'') \<Rightarrow> (Suc k, tab''))
          else cached_requests n now key' tab')"

text \<open>As long as a key is served from the cache of authentication with usage left, any number of
  requests passes and is counted, so the counter ends above the limit by any amount.\<close>

theorem cached_key_overshoots:
  assumes "valid_tenant_id (k_id key)" and "tab (k_id key) = Some row" and "k_usageResetAt key = Some r" and "now < r"
    and "k_currentMonthUsage key < verification_limit key"
  shows "fst (cached_requests n now key tab) = n \<and>
    (\<exists>row'. snd (cached_requests n now key tab) (k_id key) = Some row' \<and>
       k_currentMonthUsage row' = k_currentMonthUsage row + int n)"
  using assms(2)
proof (induction n arbitrary: tab row)
  case (Suc n)
  let ?row = "row\<lparr>k_currentMonthUsage := k_currentMonthUsage row + 1\<rparr>"
  have "incrementUsage True (k_id key) tab = tab(k_id key \<mapsto> ?row)"
    by (simp add: incrementUsage_def incrementUsage_row [where tab = tab and i = "k_id key" and row = row, OF assms(1) Suc.prems])
  then have run: "cached_requests (Suc n) now key tab =
      (Suc (fst (cached_requests n now key (tab(k_id key \<mapsto> ?row)))), snd (cached_requests n now key (tab(k_id key \<mapsto> ?row))))"
    using assms(3-5) by (simp add: requireMonthlyQuota_def split: prod.split)
  have "(tab(k_id key \<mapsto> ?row)) (k_id key) = Some ?row" by simp
  from Suc.IH [where tab = "tab(k_id key \<mapsto> ?row)" and row = ?row, OF this] show ?case unfolding run by (simp add: add.assoc del: fun_upd_apply)
qed simp

theorem cached_key_overshoots_witness:
  "\<exists>row'. snd (cached_requests 5 1 (free_key 999 100) [''k1'' \<mapsto> free_key 999 100]) ''k1'' = Some row' \<and>
     k_currentMonthUsage row' = 1004"
  using cached_key_overshoots [of "free_key 999 100" "[''k1'' \<mapsto> free_key 999 100]" "free_key 999 100" 100 1 5] by simp

text \<open>A request with a cached record from before the reset date clears the counters again, even
  when another request has already started the month and counted verifications in it.\<close>

theorem stale_key_resets_again:
  assumes "valid_tenant_id (k_id key)" and "tab (k_id key) = Some row" and "k_usageResetAt key = Some r" and "r \<le> now"
    and "k_usageResetAt row = Some (next_month now)" and "0 < k_currentMonthUsage row"
  shows "\<exists>reply key'. requireMonthlyQuota (\<lambda>k. True) now (Some key) tab = (reply, Some key',
     tab(k_id key \<mapsto> row\<lparr>k_currentMonthUsage := 0, k_currentMonthFinderUsage := 0\<rparr>))"
  using assms by (auto simp: requireMonthlyQuota_def roll_over_def withTenant_up Let_def)

theorem stale_key_resets_again_witness:
  "\<exists>reply key'. requireMonthlyQuota (\<lambda>k. True) 100 (Some (free_key 998 100)) [''k1'' \<mapsto> free_key 800 (next_month 100)] =
      (reply, Some key', [''k1'' \<mapsto> (free_key 800 (next_month 100))\<lparr>k_currentMonthUsage := 0, k_currentMonthFinderUsage := 0\<rparr>])"
  using stale_key_resets_again [of "free_key 998 100" "[''k1'' \<mapsto> free_key 800 (next_month 100)]"
      "free_key 800 (next_month 100)" 100 100] by simp

subsection \<open>Finder billing\<close>

text \<open>Billing \<open>count\<close> leads splits them into the Finder allowance and twice the verifications
  for the rest, and leaves both counters within their limits exactly when \<open>count\<close> is at most what
  the affordability check reported.\<close>

theorem finder_billing_affordable:
  assumes "valid_tenant_id i" and "tab i = Some row" and "0 < count"
    and "k_currentMonthFinderUsage row \<le> getFinderLimit (k_plan row)"
    and "k_currentMonthUsage row \<le> verification_limit row"
  shows "\<exists>row' fromAllowance. incrementFinderUsage (\<lambda>k. True) (\<lambda>t. t) i count tab = tab(i \<mapsto> row') \<and>
     0 \<le> fromAllowance \<and> fromAllowance \<le> count \<and>
     k_currentMonthFinderUsage row' = k_currentMonthFinderUsage row + fromAllowance \<and>
     k_currentMonthUsage row' = k_currentMonthUsage row + 2 * (count - fromAllowance) \<and>
     (k_currentMonthFinderUsage row' \<le> getFinderLimit (k_plan row) \<and> k_currentMonthUsage row' \<le> verification_limit row
        \<longleftrightarrow> count \<le> maxAffordable (getFinderAffordability row))"
proof -
  define a where "a = min count (finderRemaining (getFinderAffordability row))"
  have rem: "finderRemaining (getFinderAffordability row) = getFinderLimit (k_plan row) - k_currentMonthFinderUsage row"
    "maxAffordable (getFinderAffordability row) = getFinderLimit (k_plan row) - k_currentMonthFinderUsage row +
      (verification_limit row - k_currentMonthUsage row) div 2"
    using assms(4,5) by (simp_all add: getFinderAffordability_def FINDER_OVERFLOW_VERIFICATION_COST_def Let_def)
  have a: "0 \<le> a" "a \<le> count" "a \<le> getFinderLimit (k_plan row) - k_currentMonthFinderUsage row"
    "a = count \<or> a = getFinderLimit (k_plan row) - k_currentMonthFinderUsage row"
    using assms(3,4) by (auto simp: a_def rem)
  have upd: "incrementFinderUsage (\<lambda>k. True) (\<lambda>t. t) i count tab = tab(i \<mapsto> bill_finder a (count - a) row)"
    using assms(1-3) by (simp add: incrementFinderUsage_def withTenant_up Let_def a_def)
  have bill: "k_currentMonthFinderUsage (bill_finder a (count - a) row) = k_currentMonthFinderUsage row + a"
    "k_currentMonthUsage (bill_finder a (count - a) row) = k_currentMonthUsage row + 2 * (count - a)"
    using a(1,2) by (auto simp: bill_finder_def FINDER_OVERFLOW_VERIFICATION_COST_def Let_def)
  have "k_currentMonthUsage row + 2 * (count - a) \<le> verification_limit row \<longleftrightarrow>
      count - a \<le> (verification_limit row - k_currentMonthUsage row) div 2"
    by presburger
  then have "k_currentMonthFinderUsage row + a \<le> getFinderLimit (k_plan row) \<and>
      k_currentMonthUsage row + 2 * (count - a) \<le> verification_limit row
        \<longleftrightarrow> count \<le> maxAffordable (getFinderAffordability row)"
    using a assms(5) unfolding rem(2) by linarith
  then show ?thesis using upd bill a(1,2) by (intro exI [of _ "bill_finder a (count - a) row"] exI [of _ a]) simp
qed

theorem finder_billing_affordable_witness:
  "\<exists>row'. incrementFinderUsage (\<lambda>k. True) (\<lambda>t. t) ''k1'' 30 [''k1'' \<mapsto> free_key 0 100] = [''k1'' \<mapsto> row']"
  using finder_billing_affordable [of "''k1''" "[''k1'' \<mapsto> free_key 0 100]" "free_key 0 100" 30]
  by (auto simp: free_key_def getFinderLimit_def plan_lookup_def PLAN_FINDER_LIMITS_def
      verification_limit_def getPlanLimit_def PLAN_LIMITS_def)

subsection \<open>What the meters leave alone\<close>

definition send_view :: "api_key \<Rightarrow> int \<times> int option \<times> int" where
  "send_view k = (k_currentMonthSendUsage k, k_sendUsageResetAt k, k_extraVerificationCredits k)"

definition verification_view :: "api_key \<Rightarrow> int \<times> int \<times> int option \<times> int" where
  "verification_view k =
     (k_currentMonthUsage k, k_currentMonthFinderUsage k, k_usageResetAt k, k_extraVerificationCredits k)"

lemma update_key_view:
  "withTenant up i (update_key i f) tab = Some tab' \<Longrightarrow> (\<And>r. view (f r) = view r) \<Longrightarrow>
     map_option view (tab' j) = map_option view (tab j)"
  by (auto dest!: withTenant_SomeD)

lemma or_else_view:
  "(\<And>r. view (f r) = view r) \<Longrightarrow>
     map_option view (or_else (withTenant up i (update_key i f) tab) tab j) = map_option view (tab j)"
  by (cases "withTenant up i (update_key i f) tab") (auto simp: update_key_view)

text \<open>The two quotas are independent: the verification meter (gate, usage counter and Finder
  billing) never changes the send counter or the send reset date, the send meter never changes the
  verification counters or their reset date, and neither ever consumes a purchased credit.\<close>

theorem meters_independent:
  "map_option send_view (snd (snd (requireMonthlyQuota up now key tab)) j) = map_option send_view (tab j) \<and>
   map_option send_view (incrementUsageBy ok i n tab j) = map_option send_view (tab j) \<and>
   map_option send_view (incrementFinderUsage up (\<lambda>t. t) i n tab j) = map_option send_view (tab j) \<and>
   map_option verification_view (snd (snd (requireMonthlySendQuota up now key tab)) j) = map_option verification_view (tab j) \<and>
   map_option verification_view (incrementSendUsageBy ok i n tab j) = map_option verification_view (tab j)"
proof (intro conjI)
  show "map_option send_view (snd (snd (requireMonthlyQuota up now key tab)) j) = map_option send_view (tab j)"
    by (auto simp: requireMonthlyQuota_def roll_over_def Let_def update_key_view send_view_def split: option.splits)
  show "map_option verification_view (snd (snd (requireMonthlySendQuota up now key tab)) j) = map_option verification_view (tab j)"
    by (auto simp: requireMonthlySendQuota_def roll_over_send_def Let_def update_key_view verification_view_def split: option.splits)
  show "map_option send_view (incrementUsageBy ok i n tab j) = map_option send_view (tab j)"
    by (simp add: incrementUsageBy_def or_else_view send_view_def)
  show "map_option verification_view (incrementSendUsageBy ok i n tab j) = map_option verification_view (tab j)"
    by (simp add: incrementSendUsageBy_def or_else_view verification_view_def)
  have "send_view (bill_finder a b r) = send_view r" for a b r
    by (simp add: send_view_def bill_finder_def Let_def)
  then show "map_option send_view (incrementFinderUsage up (\<lambda>t. t) i n tab j) = map_option send_view (tab j)"
    by (auto simp: incrementFinderUsage_def Let_def or_else_view split: option.split)
qed

subsection \<open>One alert per month\<close>

text \<open>Once the usage alert of a month has been sent and recorded, no request of the same month
  that reads its key afresh asks for another one, and the recorded key is otherwise unchanged.\<close>

theorem one_alert_per_month:
  assumes "valid_tenant_id i" and "tab i = Some row" and "k_id row = i"
    and "m_alert (fst (requireMonthlyQuota up now (Some row) tab)) = Some a" and "al_keyId a = i"
    and "snd (sendUsageAlert users ok True now a (tab, mails)) \<noteq> mails"
    and "month_of later = month_of now" and "k_usageResetAt row = Some r" and "later < r"
  shows "\<exists>row'. fst (sendUsageAlert users ok True now a (tab, mails)) = tab(i \<mapsto> row') \<and>
     row' = row\<lparr>k_usageAlertSentAt := Some now\<rparr> \<and>
     m_alert (fst (requireMonthlyQuota up' later (Some row') (tab(i \<mapsto> row')))) = None"
proof -
  have "fst (sendUsageAlert users ok True now a (tab, mails)) = tab(i \<mapsto> row\<lparr>k_usageAlertSentAt := Some now\<rparr>)"
    using assms(1,2,5,6)
    by (auto simp: sendUsageAlert_def withTenant_up Let_def split: option.splits if_splits)
  moreover have "m_alert (fst (requireMonthlyQuota up' later (Some (row\<lparr>k_usageAlertSentAt := Some now\<rparr>))
      (tab(i \<mapsto> row\<lparr>k_usageAlertSentAt := Some now\<rparr>)))) = None"
    using assms(7-9) by (simp add: requireMonthlyQuota_def quota_reply_def alert_due_def Let_def)
  ultimately show ?thesis by blast
qed

theorem one_alert_per_month_witness:
  "m_alert (fst (requireMonthlyQuota (\<lambda>k. True) 2 (Some ((free_key 900 100)\<lparr>k_usageAlertSentAt := Some 1\<rparr>))
     [''k1'' \<mapsto> (free_key 900 100)\<lparr>k_usageAlertSentAt := Some 1\<rparr>])) = None"
  using one_alert_per_month [of "''k1''" "[''k1'' \<mapsto> free_key 900 100]" "free_key 900 100" "\<lambda>k. True" 1
      "\<lparr>al_keyId = ''k1'', al_ownerId = Some ''o'', al_used = 900, al_limit = 1000\<rparr>"
      "\<lambda>u. Some (Some ''a@b'')" True "[]" 2 100 "\<lambda>k. True"]
  by (simp add: requireMonthlyQuota_def quota_reply_def alert_due_def sendUsageAlert_def withTenant_up Let_def
      month_of_def MS_PER_DAY_def free_key_def)

end
