(* ===== verification/RateLimit.thy ===== *)
theory RateLimit
  imports ErrorHandler
begin

text \<open>
  \<^verbatim>\<open>src/plugins/rateLimit.ts\<close>: the fixed-window limiter on Redis, with the key names of
  \<^verbatim>\<open>src/lib/redis.ts\<close>. Redis is a parameter: its three commands over a state of its own,
  and an observer of the counter and the deadline of a key. \<open>redis_laws\<close> states the documented
  behaviour the limiter relies on. The argument \<open>up\<close> says for each command of a check whether
  the client sends it; a command that is not sent throws.
\<close>

record 's redis_client =
  incr :: "string \<Rightarrow> int \<Rightarrow> 's \<Rightarrow> nat \<times> 's"
  expire :: "string \<Rightarrow> int \<Rightarrow> int \<Rightarrow> 's \<Rightarrow> 's"
  ttl :: "string \<Rightarrow> int \<Rightarrow> 's \<Rightarrow> int"
  counter :: "'s \<Rightarrow> string \<Rightarrow> (nat \<times> int option) option"

text \<open>A counter whose deadline has passed is gone.\<close>

definition live :: "(nat \<times> int option) option \<Rightarrow> int \<Rightarrow> (nat \<times> int option) option" where
  "live c t = (case c of
     Some (n, Some d) \<Rightarrow> if d \<le> t then None else c
   | _ \<Rightarrow> c)"

definition incremented :: "(nat \<times> int option) option \<Rightarrow> int \<Rightarrow> nat \<times> int option" where
  "incremented c t = (case live c t of None \<Rightarrow> (1, None) | Some (n, d) \<Rightarrow> (n + 1, d))"

text \<open>INCR starts a missing key at 1 without a deadline and keeps the deadline of an existing one,
  EXPIRE sets the deadline of an existing key; other keys are untouched.\<close>

definition redis_laws :: "'s redis_client \<Rightarrow> bool" where
  "redis_laws R \<longleftrightarrow>
     (\<forall>k t s. fst (incr R k t s) = fst (incremented (counter R s k) t)) \<and>
     (\<forall>k t s. counter R (snd (incr R k t s)) = (counter R s)(k := Some (incremented (counter R s k) t))) \<and>
     (\<forall>k secs t s. counter R (expire R k secs t s) =
        (case live (counter R s k) t of
           None \<Rightarrow> counter R s
         | Some (n, d) \<Rightarrow> (counter R s)(k := Some (n, Some (t + 1000 * secs)))))"

subsection \<open>One check\<close>

definition rateLimit_key :: "string \<Rightarrow> string" where
  "rateLimit_key apiKeyId = ''rl:'' @ apiKeyId"

definition ipRateLimit_key :: "string \<Rightarrow> string \<Rightarrow> string" where
  "ipRateLimit_key scope ip = ''rl:ip:'' @ scope @ '':'' @ ip"

record rate_limit_info =
  ri_limit :: int
  ri_remaining :: int
  ri_resetAt :: int

datatype rate_check = Info rate_limit_info | Limited app_error | RedisThrow

definition window_ms :: "int \<Rightarrow> int" where
  "window_ms t = (if t > 0 then t * 1000 else 60000)"

definition runRateLimitCheck ::
  "'s redis_client \<Rightarrow> (nat \<Rightarrow> bool) \<Rightarrow> int \<Rightarrow> string \<Rightarrow> int \<Rightarrow> 's \<Rightarrow> rate_check \<times> 's" where
  "runRateLimitCheck R up now key limitRpm s =
     (if \<not> up 0 then (RedisThrow, s)
      else
        let (count, s1) = incr R key now s
        in if count = 1 \<and> \<not> up 1 then (RedisThrow, s1)
           else
             let s2 = (if count = 1 then expire R key 60 now s1 else s1)
             in if \<not> up 2 then (RedisThrow, s2)
                else if int count > limitRpm then (Limited (rateLimited (window_ms (ttl R key now s2))), s2)
                else (Info \<lparr>ri_limit = limitRpm, ri_remaining = max 0 (limitRpm - int count),
                        ri_resetAt = now + window_ms (ttl R key now s2)\<rparr>, s2))"

text \<open>\<open>checkRateLimit\<close> and \<open>checkIpRateLimit\<close> differ in the key only. \<open>retry_up\<close> is the fate
  of the commands of the retry; \<open>None\<close> is the failure that lets the request through.\<close>

datatype gate = Admit "rate_limit_info option" | Refuse app_error

definition check_with_retry ::
  "'s redis_client \<Rightarrow> (nat \<Rightarrow> bool) \<Rightarrow> bool \<Rightarrow> (nat \<Rightarrow> bool) \<Rightarrow> int \<Rightarrow> string \<Rightarrow> int \<Rightarrow> 's \<Rightarrow> gate \<times> 's" where
  "check_with_retry R up reconnecting retry_up now key limitRpm s =
     (case runRateLimitCheck R up now key limitRpm s of
        (Info i, s1) \<Rightarrow> (Admit (Some i), s1)
      | (Limited e, s1) \<Rightarrow> (Refuse e, s1)
      | (RedisThrow, s1) \<Rightarrow>
          if reconnecting then
            (case runRateLimitCheck R retry_up now key limitRpm s1 of
               (Info i, s2) \<Rightarrow> (Admit (Some i), s2)
             | (Limited e, s2) \<Rightarrow> (Refuse e, s2)
             | (RedisThrow, s2) \<Rightarrow> (Admit None, s2))
          else (Admit None, s1))"

definition checkRateLimit ::
  "'s redis_client \<Rightarrow> (nat \<Rightarrow> bool) \<Rightarrow> bool \<Rightarrow> (nat \<Rightarrow> bool) \<Rightarrow> int \<Rightarrow> string \<Rightarrow> int \<Rightarrow> 's \<Rightarrow> gate \<times> 's" where
  "checkRateLimit R up reconnecting retry_up now apiKeyId limitRpm s =
     check_with_retry R up reconnecting retry_up now (rateLimit_key apiKeyId) limitRpm s"

definition checkIpRateLimit ::
  "'s redis_client \<Rightarrow> (nat \<Rightarrow> bool) \<Rightarrow> bool \<Rightarrow> (nat \<Rightarrow> bool) \<Rightarrow> int \<Rightarrow> string \<Rightarrow> string \<Rightarrow> int \<Rightarrow> 's \<Rightarrow> gate \<times> 's" where
  "checkIpRateLimit R up reconnecting retry_up now scope ip limitRpm s =
     check_with_retry R up reconnecting retry_up now (ipRateLimit_key scope ip) limitRpm s"

text \<open>The three headers; the last is \<open>Math.ceil(resetAt / 1000)\<close>.\<close>

definition rate_headers :: "rate_limit_info option \<Rightarrow> (string \<times> string) list" where
  "rate_headers info = (case info of
     None \<Rightarrow> []
   | Some i \<Rightarrow> [(''X-RateLimit-Limit'', show_int (ri_limit i)), (''X-RateLimit-Remaining'', show_int (ri_remaining i)),
       (''X-RateLimit-Reset'', show_int (- ((- ri_resetAt i) div 1000)))])"

definition gate_reply :: "gate \<times> 's \<Rightarrow> (app_error + (string \<times> string) list) \<times> 's" where
  "gate_reply g = (case g of (Admit i, s) \<Rightarrow> (Inr (rate_headers i), s) | (Refuse e, s) \<Rightarrow> (Inl e, s))"

definition requireIpRateLimit ::
  "'s redis_client \<Rightarrow> (nat \<Rightarrow> bool) \<Rightarrow> bool \<Rightarrow> (nat \<Rightarrow> bool) \<Rightarrow> string \<Rightarrow> int \<Rightarrow> int \<Rightarrow> string \<Rightarrow> 's \<Rightarrow>
     (app_error + (string \<times> string) list) \<times> 's" where
  "requireIpRateLimit R up reconnecting retry_up scope limitRpm now ip s =
     gate_reply (checkIpRateLimit R up reconnecting retry_up now scope ip limitRpm s)"

text \<open>The key of the request is its id and its limit, if it has one.\<close>

definition requireRateLimit ::
  "'s redis_client \<Rightarrow> (nat \<Rightarrow> bool) \<Rightarrow> bool \<Rightarrow> (nat \<Rightarrow> bool) \<Rightarrow> int \<Rightarrow> int \<Rightarrow> (string \<times> int option) option \<Rightarrow> 's \<Rightarrow>
     (app_error + (string \<times> string) list) \<times> 's" where
  "requireRateLimit R up reconnecting retry_up default_rpm now key s =
     (case key of
        None \<Rightarrow> (Inr [], s)
      | Some (i, limit) \<Rightarrow>
          gate_reply (checkRateLimit R up reconnecting retry_up now i (or_else limit default_rpm) s))"

subsection \<open>Counting in a window\<close>

lemma live_simps [simp]:
  "live None t = None" "live (Some (n, None)) t = Some (n, None)"
  "live (Some (n, Some d)) t = (if d \<le> t then None else Some (n, Some d))"
  by (simp_all add: live_def)

lemma redis_incr:
  "redis_laws R \<Longrightarrow> incr R k t s = (count, s') \<Longrightarrow>
     count = fst (incremented (counter R s k) t) \<and>
     counter R s' = (counter R s)(k := Some (incremented (counter R s k) t))"
  unfolding redis_laws_def by (metis fst_conv snd_conv)

lemma redis_expire:
  "redis_laws R \<Longrightarrow> counter R s k = Some (n, None) \<Longrightarrow>
     counter R (expire R k secs t s) = (counter R s)(k := Some (n, Some (t + 1000 * secs)))"
  by (simp add: redis_laws_def)

text \<open>Checks in a row in which every command is sent; the list says which requests were admitted.\<close>

fun admitted :: "'s redis_client \<Rightarrow> string \<Rightarrow> int \<Rightarrow> int list \<Rightarrow> 's \<Rightarrow> bool list \<times> 's" where
  "admitted R key limitRpm [] s = ([], s)"
| "admitted R key limitRpm (t # ts) s =
     (case check_with_retry R (\<lambda>k. True) False (\<lambda>k. True) t key limitRpm s of
        (g, s1) \<Rightarrow> (case admitted R key limitRpm ts s1 of
           (bs, s2) \<Rightarrow> ((case g of Admit i \<Rightarrow> True | Refuse e \<Rightarrow> False) # bs, s2)))"

lemma check_next:
  assumes "redis_laws R" and "live (counter R s key) t = Some (n, d)" and "0 < n"
  shows "\<exists>g s1. check_with_retry R (\<lambda>k. True) r u t key limitRpm s = (g, s1) \<and>
    counter R s1 key = Some (n + 1, d) \<and> ((\<exists>i. g = Admit i) \<longleftrightarrow> int (n + 1) \<le> limitRpm)"
proof -
  obtain count s1 where i: "incr R key t s = (count, s1)" by fastforce
  have "count = n + 1" "counter R s1 key = Some (n + 1, d)"
    using redis_incr [OF assms(1) i] assms(2) by (simp_all add: incremented_def)
  with i assms(3) show ?thesis
    by (auto simp: check_with_retry_def runRateLimitCheck_def)
qed

lemma upt_zero: "[0..<Suc n] = 0 # map Suc [0..<n]"
  by (simp add: upt_conv_Cons map_Suc_upt del: upt_Suc)

lemma admitted_window:
  assumes "redis_laws R"
  shows "counter R s key = Some (n, d) \<Longrightarrow> 0 < n \<Longrightarrow> \<forall>t \<in> set ts. live (Some (n, d)) t \<noteq> None \<Longrightarrow>
    fst (admitted R key limitRpm ts s) = map (\<lambda>j. int (n + 1 + j) \<le> limitRpm) [0..<length ts] \<and>
    counter R (snd (admitted R key limitRpm ts s)) key = Some (n + length ts, d)"
proof (induction ts arbitrary: s n)
  case (Cons t ts)
  have "live (counter R s key) t = Some (n, d)"
    using Cons.prems(1,3) by (cases d) (auto split: if_splits)
  from check_next [OF assms this Cons.prems(2), of False "\<lambda>k. True" limitRpm] obtain g s1 where
    step: "check_with_retry R (\<lambda>k. True) False (\<lambda>k. True) t key limitRpm s = (g, s1)"
      "counter R s1 key = Some (n + 1, d)" "(\<exists>i. g = Admit i) \<longleftrightarrow> int (n + 1) \<le> limitRpm" by blast
  have "\<forall>t \<in> set ts. live (Some (n + 1, d)) t \<noteq> None"
    using Cons.prems(3) by (cases d) (auto split: if_splits)
  from Cons.IH [OF step(2) _ this] have ih:
    "fst (admitted R key limitRpm ts s1) = map (\<lambda>j. int (n + 1 + 1 + j) \<le> limitRpm) [0..<length ts]"
    "counter R (snd (admitted R key limitRpm ts s1)) key = Some (n + 1 + length ts, d)" by simp_all
  have "(case g of Admit i \<Rightarrow> True | Refuse e \<Rightarrow> False) = (int (n + 1) \<le> limitRpm)"
    using step(3) by (cases g) auto
  then show ?case
    using ih by (cases "admitted R key limitRpm ts s1") (simp add: step(1) upt_zero comp_def del: upt_Suc)
qed simp

text \<open>C8: with Redis answering, the requests for one key that arrive within a minute of the first one
  are admitted exactly up to the limit: the first \<open>limitRpm\<close> pass and every later one is
  refused.\<close>

theorem fixed_window:
  assumes "redis_laws R" and "live (counter R s key) t0 = None" and "\<forall>t \<in> set ts. t < t0 + 60000"
  shows "fst (admitted R key limitRpm (t0 # ts) s) = map (\<lambda>j. int (j + 1) \<le> limitRpm) [0..<Suc (length ts)]"
proof -
  obtain count s1 where i: "incr R key t0 s = (count, s1)" by fastforce
  have one: "count = 1" "counter R s1 key = Some (1, None)"
    using redis_incr [OF assms(1) i] assms(2) by (simp_all add: incremented_def)
  define s2 where "s2 = expire R key 60 t0 s1"
  have s2: "counter R s2 key = Some (1, Some (t0 + 60000))"
    using redis_expire [OF assms(1) one(2), of 60 t0] by (simp add: s2_def)
  obtain g where step: "check_with_retry R (\<lambda>k. True) False (\<lambda>k. True) t0 key limitRpm s = (g, s2)"
      "(case g of Admit i \<Rightarrow> True | Refuse e \<Rightarrow> False) = (1 \<le> limitRpm)"
    using i one(1) by (cases "limitRpm < 1") (auto simp: check_with_retry_def runRateLimitCheck_def s2_def Let_def)
  have "fst (admitted R key limitRpm ts s2) = map (\<lambda>j. int (1 + 1 + j) \<le> limitRpm) [0..<length ts]"
    using admitted_window [OF assms(1) s2, of ts limitRpm] assms(3) by (simp add: not_le)
  then show ?thesis
    using step by (cases "admitted R key limitRpm ts s2") (simp add: upt_zero comp_def del: upt_Suc)
qed

text \<open>A Redis server as the documentation describes it.\<close>

definition memory_redis :: "(string \<Rightarrow> (nat \<times> int option) option) redis_client" where
  "memory_redis = \<lparr>incr = (\<lambda>k t s. (fst (incremented (s k) t), s(k := Some (incremented (s k) t)))),
     expire = (\<lambda>k secs t s. case live (s k) t of None \<Rightarrow> s | Some (n, d) \<Rightarrow> s(k := Some (n, Some (t + 1000 * secs)))),
     ttl = (\<lambda>k t s. case live (s k) t of None \<Rightarrow> -2 | Some (n, None) \<Rightarrow> -1 | Some (n, Some d) \<Rightarrow> (d - t + 500) div 1000),
     counter = (\<lambda>s. s)\<rparr>"

lemma memory_redis_laws: "redis_laws memory_redis"
  by (auto simp: redis_laws_def memory_redis_def split: option.split)

theorem fixed_window_witness:
  "fst (admitted memory_redis ''rl:k'' 2 [0, 5, 59999] Map.empty) = [True, True, False]"
  using fixed_window [OF memory_redis_laws, of Map.empty "''rl:k''" 0 "[5, 59999]" 2]
  by (simp add: memory_redis_def upt_rec)

subsection \<open>When EXPIRE is lost\<close>

text \<open>When the first request of a window increments the counter but its EXPIRE is not sent, the key
  never gets a deadline: that request passes without a check, the next ones are counted up to the limit,
  and from then on every request for the key is refused, at any later time, although Redis works.\<close>

theorem lost_expire_blocks_forever:
  assumes "redis_laws R" and "live (counter R s key) t0 = None" and "up 0" and "\<not> up 1"
    and "check_with_retry R up False retry_up t0 key limitRpm s = (g, s1)"
  shows "g = Admit None \<and>
    fst (admitted R key limitRpm ts s1) = map (\<lambda>j. int (j + 2) \<le> limitRpm) [0..<length ts]"
proof -
  obtain count s' where i: "incr R key t0 s = (count, s')" by fastforce
  have one: "count = 1" "counter R s' key = Some (1, None)"
    using redis_incr [OF assms(1) i] assms(2) by (simp_all add: incremented_def)
  have "g = Admit None" "s1 = s'"
    using assms(3-5) i one(1) by (auto simp: check_with_retry_def runRateLimitCheck_def)
  then show ?thesis
    using admitted_window [OF assms(1) one(2), of ts limitRpm] by (simp add: add.commute)
qed

theorem lost_expire_blocks_forever_witness:
  "fst (admitted memory_redis ''rl:k'' 2 [10^9, 2 * 10^9, 3 * 10^9] (Map.empty(''rl:k'' \<mapsto> (1, None)))) = [True, False, False]"
proof -
  have step: "check_with_retry memory_redis (\<lambda>k. k = 0) False (\<lambda>k. True) 0 ''rl:k'' 2 Map.empty =
      (Admit None, Map.empty(''rl:k'' \<mapsto> (1, None)))"
    by (simp add: check_with_retry_def runRateLimitCheck_def memory_redis_def incremented_def)
  have "live (counter memory_redis Map.empty ''rl:k'') 0 = None" by (simp add: memory_redis_def)
  from lost_expire_blocks_forever [OF memory_redis_laws this _ _ step, of "[10^9, 2 * 10^9, 3 * 10^9]"]
  show ?thesis by (simp add: upt_rec)
qed

text \<open>The retry during a reconnect does not undo this: after an INCR that was sent and an EXPIRE that
  was not, the retry counts the same request a second time and leaves the counter without a
  deadline.\<close>

theorem retry_double_counts:
  assumes "redis_laws R" and "live (counter R s key) t0 = None" and "up 0" and "\<not> up 1"
    and "check_with_retry R up True (\<lambda>k. True) t0 key limitRpm s = (g, s1)"
  shows "counter R s1 key = Some (2, None)"
proof -
  obtain count s' where i: "incr R key t0 s = (count, s')" by fastforce
  have one: "count = 1" "counter R s' key = Some (1, None)"
    using redis_incr [OF assms(1) i] assms(2) by (simp_all add: incremented_def)
  obtain count' s'' where i': "incr R key t0 s' = (count', s'')" by fastforce
  have two: "count' = 2" "counter R s'' key = Some (2, None)"
    using redis_incr [OF assms(1) i'] one(2) by (simp_all add: incremented_def)
  show ?thesis
    using assms(3-5) i i' one(1) two
    by (auto simp: check_with_retry_def runRateLimitCheck_def split: if_splits)
qed

theorem retry_double_counts_witness:
  "counter memory_redis (snd (check_with_retry memory_redis (\<lambda>k. k = 0) True (\<lambda>k. True) 0 ''rl:k'' 5 Map.empty)) ''rl:k''
     = Some (2, None)"
proof -
  have "live (counter memory_redis Map.empty ''rl:k'') 0 = None" by (simp add: memory_redis_def)
  from retry_double_counts [OF memory_redis_laws this, of "\<lambda>k. k = 0" 5, OF _ _ prod.collapse [symmetric]]
  show ?thesis by simp
qed

end
