(* ===== verification/WebhookSign.thy ===== *)
theory WebhookSign
  imports Prelude "HOL-Library.Word"
begin

unbundle bit_operations_syntax

text \<open>
  The signatures of \<^verbatim>\<open>src/lib/crypto.ts\<close>. HMAC-SHA256 is a parameter that gives a digest
  of 32 bytes, a byte being a character; the two text encodings and the comparison loops are the
  code's and the standard library's.
\<close>

subsection \<open>Encodings\<close>

definition hex_char :: "nat \<Rightarrow> char" where
  "hex_char n = ''0123456789abcdef'' ! n"

definition hex :: "string \<Rightarrow> string" where
  "hex s = concat (map (\<lambda>c. [hex_char (code c div 16), hex_char (code c mod 16)]) s)"

definition b64_char :: "nat \<Rightarrow> char" where
  "b64_char n = ''ABCDEFGHIJKLMNOPQRSTUVWXYZabcdefghijklmnopqrstuvwxyz0123456789-_'' ! n"

text \<open>\<open>digest('base64url')\<close> has no padding.\<close>

fun base64url :: "string \<Rightarrow> string" where
  "base64url [] = []"
| "base64url [a] = [b64_char (code a div 4), b64_char (code a mod 4 * 16)]"
| "base64url [a, b] =
     [b64_char (code a div 4), b64_char (code a mod 4 * 16 + code b div 16), b64_char (code b mod 16 * 4)]"
| "base64url (a # b # c # s) =
     b64_char (code a div 4) # b64_char (code a mod 4 * 16 + code b div 16) #
     b64_char (code b mod 16 * 4 + code c div 64) # b64_char (code c mod 64) # base64url s"

text \<open>\<open>Buffer.from(s)\<close>: UTF-8, for the characters of the string model.\<close>

definition utf8 :: "string \<Rightarrow> 8 word list" where
  "utf8 s = concat (map (\<lambda>c. if code c < 128 then [of_nat (code c)]
     else [of_nat (192 + code c div 64), of_nat (128 + code c mod 64)]) s)"

subsection \<open>Signing and verifying\<close>

definition hmacSign :: "(string \<Rightarrow> string \<Rightarrow> string) \<Rightarrow> string \<Rightarrow> string \<Rightarrow> string" where
  "hmacSign hmac secret body = base64url (hmac secret body)"

definition signWebhookPayload :: "(string \<Rightarrow> string \<Rightarrow> string) \<Rightarrow> string \<Rightarrow> string \<Rightarrow> string" where
  "signWebhookPayload hmac secret body = ''sha256='' @ hex (hmac secret body)"

text \<open>\<open>for (i < a.length) diff |= (a[i] ?? 0) ^ (b[i] ?? 0)\<close>.\<close>

fun diff_loop :: "8 word list \<Rightarrow> 8 word list \<Rightarrow> 8 word \<Rightarrow> 8 word" where
  "diff_loop [] b diff = diff"
| "diff_loop (x # a) [] diff = diff_loop a [] (diff OR (x XOR 0))"
| "diff_loop (x # a) (y # b) diff = diff_loop a b (diff OR (x XOR y))"

definition hmacVerify :: "(string \<Rightarrow> string \<Rightarrow> string) \<Rightarrow> string \<Rightarrow> string \<Rightarrow> string \<Rightarrow> bool" where
  "hmacVerify hmac secret body sig =
     (let expected = hmacSign hmac secret body
      in if length expected \<noteq> length sig then False else diff_loop (utf8 expected) (utf8 sig) 0 = 0)"

definition verifyWebhookSignature :: "(string \<Rightarrow> string \<Rightarrow> string) \<Rightarrow> string \<Rightarrow> string \<Rightarrow> string \<Rightarrow> bool" where
  "verifyWebhookSignature hmac secret body sig =
     (if sig = [] then False
      else
        let expected = signWebhookPayload hmac secret body
        in if length expected \<noteq> length sig then False else diff_loop (utf8 expected) (utf8 sig) 0 = 0)"

subsection \<open>Properties\<close>

lemma or_zero_iff: "(a OR b = 0) \<longleftrightarrow> a = 0 \<and> b = (0 :: 8 word)"
  by (simp add: or_eq_0_iff)

lemma xor_zero_iff: "(a XOR b = 0) \<longleftrightarrow> a = (b :: 8 word)"
  by (metis xor_self_eq xor.left_neutral xor.assoc xor.commute)

lemma diff_loop_zero: "diff_loop a b d = 0 \<Longrightarrow> d = 0"
  by (induction a b d rule: diff_loop.induct) (simp_all add: or_zero_iff)

lemma diff_loop_iff: "length a \<le> length b \<Longrightarrow> diff_loop a b d = 0 \<longleftrightarrow> d = 0 \<and> take (length a) b = a"
proof (induction a b d rule: diff_loop.induct)
  case (3 x a y b diff)
  then show ?case by (auto simp: or_zero_iff xor_zero_iff)
qed auto

lemma code_less: "code c < 256"
  by (metis of_char_mod_256 mod_less_divisor zero_less_numeral)

lemma utf8_Cons:
  "utf8 (c # s) = (if code c < 128 then [of_nat (code c)]
     else [of_nat (192 + code c div 64), of_nat (128 + code c mod 64)]) @ utf8 s"
  by (simp add: utf8_def)

lemma length_utf8: "length s \<le> length (utf8 s)"
  by (induction s) (auto simp: utf8_Cons utf8_def)

lemma utf8_ascii_length: "\<forall>c \<in> set s. code c < 128 \<Longrightarrow> length (utf8 s) = length s"
  by (induction s) (simp_all add: utf8_Cons, simp add: utf8_def)

lemma of_nat_byte_eq: "m < 256 \<Longrightarrow> n < 256 \<Longrightarrow> (of_nat m :: 8 word) = of_nat n \<longleftrightarrow> m = n"
  by (simp add: word_of_nat_eq_iff take_bit_nat_eq_self)

lemma code_inject: "code c = code d \<longleftrightarrow> c = d"
  by (metis char_of_char)

text \<open>An ASCII text agrees with a text of the same length exactly when the bytes agree as far as the
  first one goes: a character above 127 starts with a byte that no ASCII text has.\<close>

lemma utf8_prefix_iff:
  "\<forall>c \<in> set a. code c < 128 \<Longrightarrow> length a = length b \<Longrightarrow> take (length a) (utf8 b) = utf8 a \<longleftrightarrow> b = a"
proof (induction a arbitrary: b)
  case (Cons x a)
  then obtain y b' where b: "b = y # b'" "length a = length b'" by (cases b) auto
  have x: "code x < 128" using Cons.prems by simp
  show ?case
  proof (cases "code y < 128")
    case True
    have "(of_nat (code y) :: 8 word) = of_nat (code x) \<longleftrightarrow> y = x"
      using code_less [of x] code_less [of y] by (simp add: of_nat_byte_eq code_inject)
    then show ?thesis
      using Cons.IH [of b'] Cons.prems(1) b x True by (simp add: utf8_Cons)
  next
    case False
    have "(of_nat (192 + code y div 64) :: 8 word) \<noteq> of_nat (code x)"
      using less_mult_imp_div_less [of "code y" 64 64] code_less [of y] x by (subst of_nat_byte_eq) simp_all
    then have "take (length (x # a)) (utf8 b) \<noteq> utf8 (x # a)"
      using b x False by (simp add: utf8_Cons)
    moreover have "b \<noteq> x # a" using b x False by auto
    ultimately show ?thesis by simp
  qed
qed (simp add: utf8_def)

lemma hex_char_ascii: "n < 16 \<Longrightarrow> code (hex_char n) < 128"
proof -
  assume "n < 16"
  then have "n \<in> set [0..<16]" by simp
  moreover have "list_all (\<lambda>n. code (hex_char n) < 128) [0..<16]" by code_simp
  ultimately show ?thesis by (simp add: list_all_iff)
qed

lemma hex_ascii: "\<forall>c \<in> set (hex s). code c < 128"
  using code_less by (auto simp: hex_def hex_char_ascii less_mult_imp_div_less)

lemma length_hex: "length (hex s) = 2 * length s"
  by (induction s) (simp_all add: hex_def)

lemma length_base64url: "length (base64url s) = (4 * length s + 2) div 3"
  by (induction s rule: base64url.induct) simp_all

lemma sign_ascii: "\<forall>c \<in> set (signWebhookPayload hmac secret body). code c < 128"
  using hex_ascii by (auto simp: signWebhookPayload_def)

lemma verify_accepts_iff:
  "verifyWebhookSignature hmac secret body sig \<longleftrightarrow> sig = signWebhookPayload hmac secret body"
proof (cases "length sig = length (signWebhookPayload hmac secret body)")
  case True
  have len: "length (utf8 (signWebhookPayload hmac secret body)) = length sig"
    using utf8_ascii_length [OF sign_ascii] True by simp
  then have "diff_loop (utf8 (signWebhookPayload hmac secret body)) (utf8 sig) 0 = 0 \<longleftrightarrow>
      sig = signWebhookPayload hmac secret body"
    using diff_loop_iff [of "utf8 (signWebhookPayload hmac secret body)" "utf8 sig" 0] length_utf8 [of sig]
      utf8_prefix_iff [OF sign_ascii True [symmetric]] True by simp
  moreover have "sig \<noteq> []" using True by (auto simp: signWebhookPayload_def)
  ultimately show ?thesis using True by (simp add: verifyWebhookSignature_def Let_def)
next
  case False
  then show ?thesis by (auto simp: verifyWebhookSignature_def Let_def)
qed

text \<open>The constant-time check accepts exactly the documented signature of the body: the loop over
  the bytes neither accepts a wrong signature nor refuses the right one, whatever characters the
  header contains.\<close>

theorem verifyWebhookSignature_iff:
  "verifyWebhookSignature hmac secret body sig \<longleftrightarrow> sig = signWebhookPayload hmac secret body"
  by (rule verify_accepts_iff)

end
