(* ===== verification/Webhooks.thy ===== *)
theory Webhooks
  imports WebhookSign Complex_Main
begin

text \<open>
  Webhook fan-out (\<^verbatim>\<open>src/lib/webhooks.ts\<close>), the subscription names of
  \<^verbatim>\<open>src/routes/webhooks/index.ts\<close> and the delivery worker
  (\<^verbatim>\<open>src/workers/webhookWorker.ts\<close>) over one state: the webhook rows, the delivery rows,
  the log of attempts and the queue. A payload is its JSON text. The queue keeps the ids of all jobs it
  was given and, as BullMQ documents, ignores a job whose id it knows.
\<close>

record webhook =
  wh_id :: string
  wh_apiKeyId :: string
  wh_url :: string
  wh_secret :: string
  wh_events :: "string list"
  wh_isActive :: bool
  wh_lastPingAt :: "int option"
  wh_lastPingOk :: "bool option"
  wh_totalDeliveries :: nat
  wh_successCount :: nat
  wh_failureCount :: nat
  wh_consecutiveFailures :: nat
  wh_failureAlertSentAt :: "int option"

record delivery =
  d_id :: string
  d_webhookId :: string
  d_event :: string
  d_eventId :: "string option"
  d_payload :: string
  d_attempts :: nat
  d_maxAttempts :: nat
  d_nextRetryAt :: "int option"
  d_lastAttemptAt :: "int option"
  d_statusCode :: "nat option"
  d_responseBody :: "string option"
  d_errorMessage :: "string option"
  d_delivered :: bool
  d_failedPermanently :: bool

record job =
  j_deliveryId :: string
  j_webhookId :: string
  j_webhookUrl :: string
  j_webhookSecret :: string
  j_event :: string
  j_eventId :: string
  j_payload :: string
  j_attemptNumber :: nat
  j_jobId :: string
  j_delay :: int

datatype error_type = Timeout | ConnectionRefused | NetworkError | HttpError

record attempt_row =
  at_deliveryId :: string
  at_attemptNumber :: nat
  at_requestedAt :: int
  at_respondedAt :: int
  at_statusCode :: "nat option"
  at_responseBody :: "string option"
  at_errorType :: "error_type option"
  at_errorMessage :: "string option"
  at_success :: bool

record alert_job =
  aj_webhookId :: string
  aj_url :: string
  aj_apiKeyId :: string
  aj_failures :: nat

record hook_world =
  hooks :: "webhook list"
  deliveries :: "delivery list"
  attempt_log :: "attempt_row list"
  jobs :: "job list"
  job_ids :: "string list"
  hook_alerts :: "alert_job list"

definition add_job :: "job \<Rightarrow> hook_world \<Rightarrow> hook_world" where
  "add_job j w = (if j_jobId j \<in> set (job_ids w) then w
     else w\<lparr>jobs := jobs w @ [j], job_ids := job_ids w @ [j_jobId j]\<rparr>)"

subsection \<open>Event names\<close>

definition EVENT_TO_DB :: "(string \<times> string) list" where
  "EVENT_TO_DB =
     [(''email.sent'', ''email_sent''), (''email.delivered'', ''email_delivered''),
      (''email.bounced'', ''email_bounced''), (''email.complained'', ''email_complained''),
      (''email.send_failed'', ''email_send_failed''), (''email.status_changed'', ''monitor_status_change''),
      (''verification.completed'', ''verification_complete''), (''bulk_job.completed'', ''bulk_job_complete''),
      (''verification_complete'', ''verification_complete''), (''bulk_job_complete'', ''bulk_job_complete''),
      (''monitor_status_change'', ''monitor_status_change''), (''email_sent'', ''email_sent''),
      (''email_delivered'', ''email_delivered''), (''email_bounced'', ''email_bounced''),
      (''email_complained'', ''email_complained''), (''email_send_failed'', ''email_send_failed'')]"

definition toDbEvents :: "string list \<Rightarrow> string list" where
  "toDbEvents events = map (\<lambda>e. or_else (map_of EVENT_TO_DB e) e) events"

definition ALL_WEBHOOK_EVENTS :: "string list" where
  "ALL_WEBHOOK_EVENTS = [''verification.completed'', ''email.status_changed'', ''bulk_job.completed'',
     ''email.sent'', ''email.delivered'', ''email.bounced'', ''email.complained'', ''email.send_failed'',
     ''campaign.sent'', ''campaign.failed'', ''campaign.paused_bounce'', ''campaign.paused_quota'',
     ''domain.verified'', ''verification_complete'', ''bulk_job_complete'', ''monitor_status_change'']"

definition EVENT_ALIASES :: "(string \<times> string list) list" where
  "EVENT_ALIASES =
     [(''verification.completed'', [''verification.completed'', ''verification_complete'']),
      (''email.status_changed'', [''email.status_changed'', ''monitor_status_change'']),
      (''bulk_job.completed'', [''bulk_job.completed'', ''bulk_job_complete'']),
      (''verification_complete'', [''verification_complete'', ''verification.completed'']),
      (''bulk_job_complete'', [''bulk_job_complete'', ''bulk_job.completed'']),
      (''monitor_status_change'', [''monitor_status_change'', ''email.status_changed'']),
      (''email.sent'', [''email.sent'']), (''email.delivered'', [''email.delivered'']),
      (''email.bounced'', [''email.bounced'']), (''email.complained'', [''email.complained'']),
      (''email.send_failed'', [''email.send_failed''])]"

definition PRISMA_EVENT_MAP :: "(string \<times> string) list" where
  "PRISMA_EVENT_MAP =
     [(''verification.completed'', ''verification_complete''), (''email.status_changed'', ''monitor_status_change''),
      (''bulk_job.completed'', ''bulk_job_complete''), (''email.sent'', ''email_sent''),
      (''email.delivered'', ''email_delivered''), (''email.bounced'', ''email_bounced''),
      (''email.complained'', ''email_complained''), (''email.send_failed'', ''email_send_failed'')]"

definition aliases_of :: "string \<Rightarrow> string list" where
  "aliases_of event = or_else (map_of EVENT_ALIASES event) [event]"

definition subscribed :: "string \<Rightarrow> webhook \<Rightarrow> bool" where
  "subscribed event wh = list_ex (\<lambda>e. e \<in> set (aliases_of event)) (wh_events wh)"

definition buildEventId :: "string \<Rightarrow> string \<Rightarrow> string" where
  "buildEventId event sourceId = event @ '':'' @ sourceId"

subsection \<open>Dispatch\<close>

record dispatch_input =
  di_apiKeyId :: string
  di_event :: string
  di_eventId :: string
  di_payload :: string

definition new_delivery :: "string \<Rightarrow> nat \<Rightarrow> dispatch_input \<Rightarrow> webhook \<Rightarrow> delivery" where
  "new_delivery did maxAttempts inp wh =
     \<lparr>d_id = did, d_webhookId = wh_id wh, d_event = or_else (map_of PRISMA_EVENT_MAP (di_event inp)) (di_event inp),
      d_eventId = (if di_eventId inp = [] then None else Some (di_eventId inp)), d_payload = di_payload inp,
      d_attempts = 0, d_maxAttempts = maxAttempts, d_nextRetryAt = None, d_lastAttemptAt = None,
      d_statusCode = None, d_responseBody = None, d_errorMessage = None, d_delivered = False,
      d_failedPermanently = False\<rparr>"

text \<open>\<open>up\<close> says which of the three steps of one endpoint succeed (the search for an existing
  record, the insertion of the row, the queue), \<open>did\<close> is the id the database gives to the row.
  A step that throws ends the work for the endpoint; the error is logged.\<close>

definition deliverToEndpoint ::
  "(nat \<Rightarrow> bool) \<Rightarrow> string \<Rightarrow> nat \<Rightarrow> dispatch_input \<Rightarrow> webhook \<Rightarrow> hook_world \<Rightarrow> hook_world" where
  "deliverToEndpoint up did maxAttempts inp wh w =
     (if di_eventId inp \<noteq> [] \<and> \<not> up 0 then w
      else if di_eventId inp \<noteq> [] \<and>
          list_ex (\<lambda>d. d_webhookId d = wh_id wh \<and> d_eventId d = Some (di_eventId inp)) (deliveries w) then w
      else if \<not> up 1 then w
      else
        let w1 = w\<lparr>deliveries := deliveries w @ [new_delivery did maxAttempts inp wh]\<rparr>
        in if \<not> up 2 then w1
           else add_job \<lparr>j_deliveryId = did, j_webhookId = wh_id wh, j_webhookUrl = wh_url wh,
             j_webhookSecret = wh_secret wh, j_event = di_event inp, j_eventId = di_eventId inp,
             j_payload = di_payload inp, j_attemptNumber = 1, j_jobId = ''webhook-'' @ did @ ''-1'', j_delay = 0\<rparr> w1)"

text \<open>\<open>Promise.allSettled\<close> runs the endpoints concurrently; they are different webhooks and touch
  different rows, so they are taken one after the other. \<open>up wh\<close> and \<open>ids wh\<close> are the fate
  and the new id of one endpoint.\<close>

definition dispatchWebhook ::
  "bool \<Rightarrow> (string \<Rightarrow> nat \<Rightarrow> bool) \<Rightarrow> (string \<Rightarrow> string) \<Rightarrow> nat \<Rightarrow> dispatch_input \<Rightarrow> hook_world \<Rightarrow> hook_world" where
  "dispatchWebhook find_ok up ids maxAttempts inp w =
     (if \<not> find_ok then w
      else fold (\<lambda>wh. deliverToEndpoint (up (wh_id wh)) (ids (wh_id wh)) maxAttempts inp wh)
        (filter (subscribed (di_event inp))
          (filter (\<lambda>wh. wh_apiKeyId wh = di_apiKeyId inp \<and> wh_isActive wh) (hooks w))) w)"

subsection \<open>The retry schedule\<close>

definition MAX_BACKOFF_MS :: int where "MAX_BACKOFF_MS = 7200000"

definition RETRY_JITTER :: rat where "RETRY_JITTER = 1 / 5"

definition RETRY_DELAYS_MS :: "(nat \<times> int) list" where
  "RETRY_DELAYS_MS = [(1, 30000), (2, 120000), (3, 480000), (4, 2040000), (5, 7200000)]"

text \<open>\<open>rnd\<close> is the value of \<open>Math.random()\<close>, at least 0 and below 1; the floating-point
  arithmetic on these numbers is taken as exact.\<close>

definition retryDelayMs :: "rat \<Rightarrow> nat \<Rightarrow> int" where
  "retryDelayMs rnd attemptNumber =
     (let base = of_int (or_else (map_of RETRY_DELAYS_MS attemptNumber) MAX_BACKOFF_MS);
          jitter = base * RETRY_JITTER;
          offset = (rnd * 2 - 1) * jitter
      in min \<lfloor>base + offset + 1 / 2\<rfloor> MAX_BACKOFF_MS)"

subsection \<open>One attempt\<close>

datatype fetch_error = ErrorObject string string "string option" | OtherThrown string

text \<open>\<open>ErrorObject name message code\<close>. The response may still fail while its body is read.\<close>

datatype http_outcome =
    Response nat string
  | BodyFails nat fetch_error
  | FetchFails fetch_error

definition classifyError :: "nat \<Rightarrow> fetch_error \<Rightarrow> error_type \<times> string" where
  "classifyError timeoutMs e =
     (case e of
        ErrorObject name msg c \<Rightarrow>
          if name = ''AbortError'' \<or> has_sub ''abort'' msg then
            (Timeout, ''Request timed out after '' @ show_nat timeoutMs @ ''ms'')
          else if c = Some ''ECONNREFUSED'' then (ConnectionRefused, msg)
          else (NetworkError, msg)
      | OtherThrown s \<Rightarrow> (NetworkError, s))"

record hook_attempt =
  ar_success :: bool
  ar_statusCode :: "nat option"
  ar_responseBody :: "string option"
  ar_errorType :: "error_type option"
  ar_errorMessage :: "string option"

definition failed_attempt :: "nat \<Rightarrow> nat option \<Rightarrow> fetch_error \<Rightarrow> hook_attempt" where
  "failed_attempt timeoutMs statusCode e =
     (case classifyError timeoutMs e of (ty, msg) \<Rightarrow>
        \<lparr>ar_success = False, ar_statusCode = statusCode, ar_responseBody = Some msg, ar_errorType = Some ty,
         ar_errorMessage = Some msg\<rparr>)"

definition http_attempt :: "nat \<Rightarrow> http_outcome \<Rightarrow> hook_attempt" where
  "http_attempt timeoutMs out =
     (case out of
        Response status raw \<Rightarrow>
          let ok = 200 \<le> status \<and> status \<le> 299
          in \<lparr>ar_success = ok, ar_statusCode = Some status, ar_responseBody = Some (take 2048 raw),
              ar_errorType = (if ok then None else Some HttpError),
              ar_errorMessage = (if ok then None else Some (''HTTP '' @ show_nat status))\<rparr>
      | BodyFails status e \<Rightarrow> failed_attempt timeoutMs (Some status) e
      | FetchFails e \<Rightarrow> failed_attempt timeoutMs None e)"

definition request_headers :: "(string \<Rightarrow> string \<Rightarrow> string) \<Rightarrow> job \<Rightarrow> (string \<times> string) list" where
  "request_headers hmac j =
     [(''Content-Type'', ''application/json''),
      (''X-Continuum-Signature'', hmacSign hmac (j_webhookSecret j) (j_payload j)),
      (''X-Continuum-Event'', j_event j), (''X-Continuum-Delivery'', j_deliveryId j),
      (''X-Continuum-Event-Id'', j_eventId j), (''X-Continuum-Attempt'', show_nat (j_attemptNumber j)),
      (''User-Agent'', ''Continuum-Webhooks/1.0'')]"

subsection \<open>Signatures on the wire\<close>

text \<open>C23: whatever the payload and the secret, the signature header that the worker sends is refused by
  the documented verification of a receiver: it is the base64url text of the digest, while the check
  expects \<open>sha256=\<close> and the hexadecimal text.\<close>

theorem sent_signature_refused:
  assumes "\<And>s b. length (hmac s b) = 32"
  shows "\<exists>sig. map_of (request_headers hmac j) ''X-Continuum-Signature'' = Some sig \<and>
    \<not> verifyWebhookSignature hmac (j_webhookSecret j) (j_payload j) sig"
proof -
  have "length (hmacSign hmac (j_webhookSecret j) (j_payload j)) = 43"
    by (simp add: hmacSign_def length_base64url assms)
  moreover have "length (signWebhookPayload hmac (j_webhookSecret j) (j_payload j)) = 71"
    by (simp add: signWebhookPayload_def length_hex assms)
  ultimately have "hmacSign hmac (j_webhookSecret j) (j_payload j) \<noteq> signWebhookPayload hmac (j_webhookSecret j) (j_payload j)"
    by auto
  then show ?thesis by (simp add: request_headers_def verify_accepts_iff)
qed

definition test_job :: job where
  "test_job = \<lparr>j_deliveryId = ''d1'', j_webhookId = ''w1'', j_webhookUrl = ''https://x'', j_webhookSecret = ''s'',
     j_event = ''verification.completed'', j_eventId = ''verification.completed:v1'', j_payload = ''{}'',
     j_attemptNumber = 1, j_jobId = ''webhook-d1-1'', j_delay = 0\<rparr>"

theorem sent_signature_refused_witness:
  "\<exists>sig. map_of (request_headers (\<lambda>s b. replicate 32 CHR ''a'') test_job) ''X-Continuum-Signature'' = Some sig \<and>
     \<not> verifyWebhookSignature (\<lambda>s b. replicate 32 CHR ''a'') ''s'' ''{}'' sig"
  using sent_signature_refused [of "\<lambda>s b. replicate 32 CHR ''a''" test_job] by (simp add: test_job_def)

subsection \<open>Which events reach a subscriber\<close>

definition SEND_EVENTS :: "string list" where
  "SEND_EVENTS = [''email.sent'', ''email.delivered'', ''email.bounced'', ''email.complained'', ''email.send_failed'']"

lemma stored_name_not_dotted: "e \<in> set SEND_EVENTS \<Longrightarrow> e \<notin> set (toDbEvents es)"
proof
  assume e: "e \<in> set SEND_EVENTS" and "e \<in> set (toDbEvents es)"
  then obtain n where n: "e = or_else (map_of EVENT_TO_DB n) n" by (auto simp: toDbEvents_def)
  have vals: "list_all (\<lambda>p. snd p \<notin> set SEND_EVENTS) EVENT_TO_DB" by code_simp
  have keys: "list_all (\<lambda>e. e \<in> set (map fst EVENT_TO_DB)) SEND_EVENTS" by code_simp
  show False
  proof (cases "map_of EVENT_TO_DB n")
    case None
    then have "n \<in> set SEND_EVENTS" using e n by simp
    moreover have "n \<notin> fst ` set EVENT_TO_DB" using None by (simp add: map_of_eq_None_iff)
    moreover note keys
    ultimately show ?thesis by (auto simp: list_all_iff)
  next
    case (Some v)
    then have "(n, v) \<in> set EVENT_TO_DB" "v \<in> set SEND_EVENTS" using e n by (simp_all add: map_of_SomeD)
    then show ?thesis using vals by (force simp: list_all_iff)
  qed
qed

lemma send_event_alias: "e \<in> set SEND_EVENTS \<Longrightarrow> aliases_of e = [e]"
proof -
  assume "e \<in> set SEND_EVENTS"
  moreover have "list_all (\<lambda>e. aliases_of e = [e]) SEND_EVENTS" by code_simp
  ultimately show ?thesis by (simp add: list_all_iff)
qed

lemma send_event_unsubscribed: "e \<in> set SEND_EVENTS \<Longrightarrow> wh_events wh = toDbEvents es \<Longrightarrow> \<not> subscribed e wh"
  using stored_name_not_dotted by (auto simp: subscribed_def send_event_alias list_ex_iff)

text \<open>C24: none of the five send events is ever delivered: the subscriptions are stored under the names
  of the database enumeration, and the alias table of the dispatcher has no such name for these
  events, so a dispatch changes nothing, even for a webhook subscribed to all of them.\<close>

theorem send_events_never_delivered:
  assumes "di_event inp \<in> set SEND_EVENTS" and "\<forall>wh \<in> set (hooks w). \<exists>es. wh_events wh = toDbEvents es"
  shows "dispatchWebhook find_ok up ids maxAttempts inp w = w"
proof -
  have "filter (subscribed (di_event inp)) (filter P (hooks w)) = []" for P
    using assms send_event_unsubscribed by (auto simp: filter_empty_conv)
  then show ?thesis unfolding dispatchWebhook_def by (simp only: fold_simps if_cancel id_apply fold.simps)
qed

definition test_hook :: "string list \<Rightarrow> webhook" where
  "test_hook es = \<lparr>wh_id = ''w1'', wh_apiKeyId = ''k1'', wh_url = ''https://x'', wh_secret = ''s'',
     wh_events = toDbEvents es, wh_isActive = True, wh_lastPingAt = None, wh_lastPingOk = None,
     wh_totalDeliveries = 0, wh_successCount = 0, wh_failureCount = 0, wh_consecutiveFailures = 0,
     wh_failureAlertSentAt = None\<rparr>"

definition test_hooks :: "string list \<Rightarrow> hook_world" where
  "test_hooks es = \<lparr>hooks = [test_hook es], deliveries = [], attempt_log = [], jobs = [], job_ids = [], hook_alerts = []\<rparr>"

definition test_input :: "string \<Rightarrow> dispatch_input" where
  "test_input e = \<lparr>di_apiKeyId = ''k1'', di_event = e, di_eventId = buildEventId e ''m1'', di_payload = ''{}''\<rparr>"

theorem send_events_never_delivered_witness:
  "dispatchWebhook True (\<lambda>i k. True) (\<lambda>i. ''d1'') 5 (test_input ''email.bounced'') (test_hooks SEND_EVENTS) =
     test_hooks SEND_EVENTS"
  by (rule send_events_never_delivered) (auto simp: test_input_def SEND_EVENTS_def test_hooks_def test_hook_def)

text \<open>The verification, monitor and bulk events do reach a subscriber: a webhook that subscribes to
  such an event under its public or its legacy name gets it under both names.\<close>

theorem verification_events_delivered:
  "list_all (\<lambda>(public, legacy).
     list_all (\<lambda>name. subscribed name (test_hook [public]) \<and> subscribed name (test_hook [legacy])) [public, legacy])
   [(''verification.completed'', ''verification_complete''), (''email.status_changed'', ''monitor_status_change''),
    (''bulk_job.completed'', ''bulk_job_complete'')]"
  by code_simp

subsection \<open>No duplicate deliveries\<close>

text \<open>The pairs of webhook and event id that have a delivery record.\<close>

definition delivery_keys :: "hook_world \<Rightarrow> (string \<times> string option) list" where
  "delivery_keys w = map (\<lambda>d. (d_webhookId d, d_eventId d)) (filter (\<lambda>d. d_eventId d \<noteq> None) (deliveries w))"

lemma deliveries_add_job [simp]: "deliveries (add_job j w) = deliveries w"
  by (simp add: add_job_def)

lemma deliver_keys:
  "distinct (delivery_keys w) \<Longrightarrow> distinct (delivery_keys (deliverToEndpoint up did m inp wh w))"
  by (auto simp: deliverToEndpoint_def delivery_keys_def new_delivery_def Let_def list_ex_iff)

lemma fold_deliver_keys:
  "distinct (delivery_keys w) \<Longrightarrow>
     distinct (delivery_keys (fold (\<lambda>wh. deliverToEndpoint (up (wh_id wh)) (ids (wh_id wh)) m inp wh) whs w))"
  by (induction whs arbitrary: w) (simp_all add: deliver_keys)

text \<open>No dispatch, whatever fails in it, gives a webhook a second delivery record for the same
  event id.\<close>

theorem dispatch_no_duplicates:
  assumes "distinct (delivery_keys w)"
  shows "distinct (delivery_keys (dispatchWebhook find_ok up ids maxAttempts inp w))"
  by (simp add: dispatchWebhook_def fold_deliver_keys assms)

theorem dispatch_no_duplicates_witness:
  "distinct (delivery_keys (dispatchWebhook True (\<lambda>i k. True) (\<lambda>i. ''d2'') 5 (test_input ''verification.completed'')
     (dispatchWebhook True (\<lambda>i k. True) (\<lambda>i. ''d1'') 5 (test_input ''verification.completed'')
        (test_hooks [''verification.completed'']))))"
proof -
  have "distinct (delivery_keys (test_hooks es))" for es by (simp add: test_hooks_def delivery_keys_def)
  then show ?thesis by (intro dispatch_no_duplicates)
qed

text \<open>When the queue refuses the job of a new delivery, the record stays behind without a job, and
  because of it every later dispatch of the same event for the endpoint is skipped as a duplicate: the
  event is lost.\<close>

theorem queue_failure_loses_event:
  assumes "up 0" and "up 1" and "\<not> up 2" and "di_eventId inp \<noteq> []"
    and "\<forall>d \<in> set (deliveries w). d_webhookId d \<noteq> wh_id wh \<or> d_eventId d \<noteq> Some (di_eventId inp)"
  shows "\<exists>w'. deliverToEndpoint up did m inp wh w = w' \<and>
    deliveries w' = deliveries w @ [new_delivery did m inp wh] \<and> jobs w' = jobs w \<and>
    deliverToEndpoint up' did' m' inp wh w' = w'"
proof -
  have "\<not> list_ex (\<lambda>d. d_webhookId d = wh_id wh \<and> d_eventId d = Some (di_eventId inp)) (deliveries w)"
    using assms(5) by (auto simp: list_ex_iff)
  then have step: "deliverToEndpoint up did m inp wh w = w\<lparr>deliveries := deliveries w @ [new_delivery did m inp wh]\<rparr>"
    using assms(1-4) by (simp add: deliverToEndpoint_def Let_def)
  have "deliverToEndpoint up' did' m' inp wh (w\<lparr>deliveries := deliveries w @ [new_delivery did m inp wh]\<rparr>) =
      w\<lparr>deliveries := deliveries w @ [new_delivery did m inp wh]\<rparr>"
    using assms(4) by (simp add: deliverToEndpoint_def new_delivery_def)
  then show ?thesis unfolding step by simp
qed

theorem queue_failure_loses_event_witness:
  "\<exists>w'. deliverToEndpoint (\<lambda>k. k < 2) ''d1'' 5 (test_input ''bulk_job.completed'') (test_hook []) (test_hooks []) = w' \<and>
     deliverToEndpoint (\<lambda>k. True) ''d2'' 5 (test_input ''bulk_job.completed'') (test_hook []) w' = w'"
  using queue_failure_loses_event [of "\<lambda>k. k < 2" "test_input ''bulk_job.completed''" "test_hooks []" "test_hook []"
      "''d1''" 5 "\<lambda>k. True" "''d2''" 5]
  by (simp add: test_input_def buildEventId_def test_hooks_def)

subsection \<open>The retry schedule\<close>

lemma retry_delay_cases:
  "n = 1 \<or> n = 2 \<or> n = 3 \<or> n = 4 \<or> map_of RETRY_DELAYS_MS n \<in> {None, Some MAX_BACKOFF_MS}"
  by (auto simp: RETRY_DELAYS_MS_def MAX_BACKOFF_MS_def)

definition retry_base :: "nat \<Rightarrow> int" where
  "retry_base n = or_else (map_of RETRY_DELAYS_MS n) MAX_BACKOFF_MS"

lemma retry_base_values:
  "retry_base 1 = 30000" "retry_base 2 = 120000" "retry_base 3 = 480000" "retry_base 4 = 2040000"
  "retry_base n \<in> {30000, 120000, 480000, 2040000, 7200000}" "5 \<le> n \<Longrightarrow> retry_base n = 7200000"
  by (auto simp: retry_base_def RETRY_DELAYS_MS_def MAX_BACKOFF_MS_def)

lemma retry_delay_bounds:
  assumes "0 \<le> rnd" and "rnd < 1"
  shows "4 * retry_base n \<le> 5 * retryDelayMs rnd n" and "5 * retryDelayMs rnd n \<le> 6 * retry_base n"
    and "retryDelayMs rnd n \<le> MAX_BACKOFF_MS"
proof -
  define b where "b = (of_int (retry_base n) :: rat)"
  define x where "x = b + (rnd * 2 - 1) * (b / 5) + 1 / 2"
  have d: "retryDelayMs rnd n = min \<lfloor>x\<rfloor> MAX_BACKOFF_MS"
    by (simp add: retryDelayMs_def retry_base_def RETRY_JITTER_def x_def b_def Let_def)
  have b0: "0 \<le> b" using retry_base_values(5) [of n] by (auto simp: b_def)
  have lo: "b * 4 / 5 + 1 / 2 \<le> x" using b0 assms(1) by (simp add: x_def algebra_simps)
  have "rnd * b \<le> b" using b0 assms by (simp add: mult_left_le_one_le)
  then have hi: "x \<le> b * 6 / 5 + 1 / 2" by (simp add: x_def algebra_simps)
  have c: "retry_base n \<in> {30000, 120000, 480000, 2040000, 7200000}" by (rule retry_base_values(5))
  then obtain q where q: "retry_base n = 5 * q" "q \<le> 1440000" by auto
  have "of_int (4 * q) \<le> x" using lo by (simp add: b_def q)
  then have l: "4 * q \<le> \<lfloor>x\<rfloor>" by (simp add: le_floor_iff)
  have "x < of_int (6 * q) + 1" using hi by (simp add: b_def q)
  then have h: "\<lfloor>x\<rfloor> \<le> 6 * q" by (simp add: floor_le_iff)
  show "4 * retry_base n \<le> 5 * retryDelayMs rnd n" "5 * retryDelayMs rnd n \<le> 6 * retry_base n"
    "retryDelayMs rnd n \<le> MAX_BACKOFF_MS"
    using l h q unfolding d MAX_BACKOFF_MS_def by auto
qed

text \<open>Every retry delay is within 20 percent of its base and at most two hours, and whatever the
  random numbers, the delay after a later attempt is longer, up to the fifth.\<close>

theorem retry_backoff:
  assumes "0 \<le> r1" and "r1 < 1" and "0 \<le> r2" and "r2 < 1" and "1 \<le> n" and "n < m" and "m \<le> 5"
  shows "4 * retry_base n \<le> 5 * retryDelayMs r1 n \<and> 5 * retryDelayMs r1 n \<le> 6 * retry_base n \<and>
    retryDelayMs r1 m \<le> 7200000 \<and> retryDelayMs r1 n < retryDelayMs r2 m"
proof -
  have "n \<in> {1, 2, 3, 4}" "m \<in> {2, 3, 4, 5}" using assms(5-7) by auto
  then have "6 * retry_base n < 4 * retry_base m"
    using assms(6) retry_base_values(6) [of 5] retry_base_values(1) by (auto simp: retry_base_values(2-4))
  then show ?thesis
    using retry_delay_bounds [OF assms(1,2)] retry_delay_bounds [OF assms(3,4), of m]
      retry_delay_bounds(3) [OF assms(1,2), of m] retry_delay_bounds(1,2) [OF assms(1,2), of n]
    unfolding MAX_BACKOFF_MS_def by linarith
qed

theorem retry_backoff_witness: "retryDelayMs (99 / 100) 1 < retryDelayMs 0 2"
  using retry_backoff [of "99 / 100" 0 1 2] by simp

end
