(* ===== verification/WebhookWorker.thy ===== *)
theory WebhookWorker
  imports Webhooks
begin

text \<open>
  \<^verbatim>\<open>src/workers/webhookWorker.ts\<close>: the handler of one job of the queue, and the failure
  alert. A handler that throws leaves what it had written; the queue does not run it again
  (\<open>attempts: 1\<close>).
\<close>

definition FAILURE_ALERT_THRESHOLD :: nat where "FAILURE_ALERT_THRESHOLD = 5"

definition FAILURE_ALERT_COOLDOWN_MS :: int where "FAILURE_ALERT_COOLDOWN_MS = 24 * 60 * 60 * 1000"

text \<open>\<open>we_up\<close>: which of the five steps succeed (reading the delivery, logging the attempt,
  updating the delivery, updating the webhook, adding the next job).\<close>

record worker_env =
  we_up :: "nat \<Rightarrow> bool"
  we_http :: http_outcome
  we_requestedAt :: int
  we_respondedAt :: int
  we_now :: int
  we_rnd1 :: rat
  we_rnd2 :: rat
  we_timeoutMs :: nat

datatype job_end = Completed | JobThrew

definition find_delivery :: "string \<Rightarrow> hook_world \<Rightarrow> delivery option" where
  "find_delivery i w = List.find (\<lambda>d. d_id d = i) (deliveries w)"

definition find_hook :: "string \<Rightarrow> hook_world \<Rightarrow> webhook option" where
  "find_hook i w = List.find (\<lambda>h. wh_id h = i) (hooks w)"

definition update_delivery :: "string \<Rightarrow> (delivery \<Rightarrow> delivery) \<Rightarrow> hook_world \<Rightarrow> hook_world" where
  "update_delivery i f w = w\<lparr>deliveries := map (\<lambda>d. if d_id d = i then f d else d) (deliveries w)\<rparr>"

definition update_hook :: "string \<Rightarrow> (webhook \<Rightarrow> webhook) \<Rightarrow> hook_world \<Rightarrow> hook_world" where
  "update_hook i f w = w\<lparr>hooks := map (\<lambda>h. if wh_id h = i then f h else h) (hooks w)\<rparr>"

definition attempt_of :: "worker_env \<Rightarrow> job \<Rightarrow> hook_attempt \<Rightarrow> attempt_row" where
  "attempt_of env j r = \<lparr>at_deliveryId = j_deliveryId j, at_attemptNumber = j_attemptNumber j,
     at_requestedAt = we_requestedAt env, at_respondedAt = we_respondedAt env, at_statusCode = ar_statusCode r,
     at_responseBody = map_option (take 2048) (ar_responseBody r), at_errorType = ar_errorType r,
     at_errorMessage = map_option (take 500) (ar_errorMessage r), at_success = ar_success r\<rparr>"

definition delivered_row :: "worker_env \<Rightarrow> nat \<Rightarrow> hook_attempt \<Rightarrow> delivery \<Rightarrow> delivery" where
  "delivered_row env n r d = d\<lparr>d_delivered := True, d_attempts := n, d_lastAttemptAt := Some (we_respondedAt env),
     d_statusCode := ar_statusCode r, d_responseBody := map_option (take 2048) (ar_responseBody r),
     d_nextRetryAt := None, d_errorMessage := None\<rparr>"

definition hook_success :: "worker_env \<Rightarrow> webhook \<Rightarrow> webhook" where
  "hook_success env h = h\<lparr>wh_lastPingAt := Some (we_requestedAt env), wh_lastPingOk := Some True,
     wh_totalDeliveries := wh_totalDeliveries h + 1, wh_successCount := wh_successCount h + 1,
     wh_consecutiveFailures := 0, wh_failureAlertSentAt := None\<rparr>"

definition failed_row :: "worker_env \<Rightarrow> nat \<Rightarrow> bool \<Rightarrow> hook_attempt \<Rightarrow> delivery \<Rightarrow> delivery" where
  "failed_row env n exhausted r d = d\<lparr>d_attempts := n, d_lastAttemptAt := Some (we_respondedAt env),
     d_statusCode := ar_statusCode r, d_responseBody := map_option (take 2048) (ar_responseBody r),
     d_errorMessage := map_option (take 500) (ar_errorMessage r), d_failedPermanently := exhausted,
     d_nextRetryAt := (if exhausted then None else Some (we_now env + retryDelayMs (we_rnd1 env) n))\<rparr>"

definition hook_failure :: "worker_env \<Rightarrow> bool \<Rightarrow> webhook \<Rightarrow> webhook" where
  "hook_failure env exhausted h =
     (let k = (if exhausted then 1 else 0)
      in h\<lparr>wh_lastPingAt := Some (we_requestedAt env), wh_lastPingOk := Some False,
        wh_totalDeliveries := wh_totalDeliveries h + k, wh_failureCount := wh_failureCount h + k,
        wh_consecutiveFailures := wh_consecutiveFailures h + k\<rparr>)"

definition alert_needed :: "int \<Rightarrow> webhook \<Rightarrow> bool" where
  "alert_needed now h \<longleftrightarrow> wh_consecutiveFailures h \<ge> FAILURE_ALERT_THRESHOLD \<and>
     (case wh_failureAlertSentAt h of None \<Rightarrow> True | Some t \<Rightarrow> now - t \<ge> FAILURE_ALERT_COOLDOWN_MS)"

definition retry_job :: "worker_env \<Rightarrow> nat \<Rightarrow> job \<Rightarrow> job" where
  "retry_job env n j = j\<lparr>j_attemptNumber := n + 1, j_delay := retryDelayMs (we_rnd2 env) n,
     j_jobId := ''webhook-'' @ j_deliveryId j @ ''-'' @ show_nat (n + 1)\<rparr>"

definition success_path ::
  "worker_env \<Rightarrow> job \<Rightarrow> nat \<Rightarrow> hook_attempt \<Rightarrow> hook_world \<Rightarrow> job_end \<times> hook_world" where
  "success_path env j n r w =
     (if \<not> we_up env 2 then (JobThrew, w)
      else
        let w1 = update_delivery (j_deliveryId j) (delivered_row env n r) w
        in if \<not> we_up env 3 \<or> find_hook (j_webhookId j) w1 = None then (JobThrew, w1)
           else (Completed, update_hook (j_webhookId j) (hook_success env) w1))"

definition failure_path ::
  "worker_env \<Rightarrow> job \<Rightarrow> nat \<Rightarrow> nat \<Rightarrow> hook_attempt \<Rightarrow> hook_world \<Rightarrow> job_end \<times> hook_world" where
  "failure_path env j n maxAttempts r w =
     (let exhausted = (n \<ge> maxAttempts)
      in if \<not> we_up env 2 then (JobThrew, w)
         else
           let w1 = update_delivery (j_deliveryId j) (failed_row env n exhausted r) w
           in case find_hook (j_webhookId j) w1 of
                None \<Rightarrow> (JobThrew, w1)
              | Some h \<Rightarrow>
                  if \<not> we_up env 3 then (JobThrew, w1)
                  else
                    let h' = hook_failure env exhausted h;
                        w2 = update_hook (j_webhookId j) (hook_failure env exhausted) w1
                    in if exhausted then
                         (Completed, if alert_needed (we_now env) h'
                           then w2\<lparr>hook_alerts := hook_alerts w2 @ [\<lparr>aj_webhookId = j_webhookId j, aj_url = wh_url h',
                                aj_apiKeyId = wh_apiKeyId h', aj_failures = wh_consecutiveFailures h'\<rparr>]\<rparr>
                           else w2)
                       else if \<not> we_up env 4 then (JobThrew, w2)
                       else (Completed, add_job (retry_job env n j) w2))"

definition processWebhookDelivery :: "worker_env \<Rightarrow> job \<Rightarrow> hook_world \<Rightarrow> job_end \<times> hook_world" where
  "processWebhookDelivery env j w =
     (if \<not> we_up env 0 then (JobThrew, w)
      else case find_delivery (j_deliveryId j) w of
        None \<Rightarrow> (Completed, w)
      | Some d \<Rightarrow>
          if d_delivered d then (Completed, w)
          else if d_failedPermanently d then (Completed, w)
          else
            let r = http_attempt (we_timeoutMs env) (we_http env)
            in if \<not> we_up env 1 then (JobThrew, w)
               else
                 let w1 = w\<lparr>attempt_log := attempt_log w @ [attempt_of env j r]\<rparr>;
                     n = d_attempts d + 1
                 in if ar_success r then success_path env j n r w1
                    else failure_path env j n (d_maxAttempts d) r w1)"

text \<open>The alert. \<open>key_owner\<close> is the lookup of the key's \<open>ownerId\<close> and \<open>userId\<close>,
  \<open>user_email\<close> that of the user; \<open>None\<close> is a lookup that throws.\<close>

record failure_mail =
  fm_to :: string
  fm_url :: string
  fm_failures :: nat

definition sendWebhookFailureAlert ::
  "(string \<Rightarrow> (string option \<times> string option) option option) \<Rightarrow> (string \<Rightarrow> string option option) \<Rightarrow> bool \<Rightarrow> bool \<Rightarrow>
     int \<Rightarrow> alert_job \<Rightarrow> hook_world \<times> failure_mail list \<Rightarrow> hook_world \<times> failure_mail list" where
  "sendWebhookFailureAlert key_owner user_email mail_ok up now a wm =
     (case key_owner (aj_apiKeyId a) of
        None \<Rightarrow> wm
      | Some None \<Rightarrow> wm
      | Some (Some (ownerId, userId)) \<Rightarrow>
          let uid = (case ownerId of Some i \<Rightarrow> Some i | None \<Rightarrow> userId)
          in if \<not> truthy uid then wm
             else case user_email (or_else uid []) of
               None \<Rightarrow> wm
             | Some None \<Rightarrow> wm
             | Some (Some addr) \<Rightarrow>
                 if addr = [] \<or> \<not> mail_ok then wm
                 else
                   let mails = snd wm @ [\<lparr>fm_to = addr, fm_url = aj_url a, fm_failures = aj_failures a\<rparr>]
                   in if up then (update_hook (aj_webhookId a) (\<lambda>h. h\<lparr>wh_failureAlertSentAt := Some now\<rparr>) (fst wm), mails)
                      else (fst wm, mails))"

subsection \<open>Lookups and updates\<close>

lemma find_cong: "(\<And>x. P x = Q (f x)) \<Longrightarrow> List.find Q (map f xs) = map_option f (List.find P xs)"
  by (induction xs) auto

lemma find_delivery_update:
  "(\<And>d. d_id (f d) = d_id d) \<Longrightarrow>
     find_delivery i (update_delivery j f w) = map_option (\<lambda>d. if d_id d = j then f d else d) (find_delivery i w)"
  unfolding find_delivery_def update_delivery_def by (simp add: find_cong [where P = "\<lambda>d. d_id d = i"])

lemma find_hook_update:
  "(\<And>h. wh_id (f h) = wh_id h) \<Longrightarrow>
     find_hook i (update_hook j f w) = map_option (\<lambda>h. if wh_id h = j then f h else h) (find_hook i w)"
  unfolding find_hook_def update_hook_def by (simp add: find_cong [where P = "\<lambda>h. wh_id h = i"])

lemma find_delivery_id: "find_delivery i w = Some d \<Longrightarrow> d_id d = i"
  by (auto simp: find_delivery_def find_Some_iff)

lemma frame_simps [simp]:
  "find_hook i (update_delivery j f w) = find_hook i w" "jobs (update_delivery j f w) = jobs w"
  "find_delivery i (update_hook j g w) = find_delivery i w" "jobs (update_hook j g w) = jobs w"
  "job_ids (update_delivery j f w) = job_ids w" "job_ids (update_hook j g w) = job_ids w"
  "find_delivery i (w\<lparr>attempt_log := l\<rparr>) = find_delivery i w" "find_hook i (w\<lparr>attempt_log := l\<rparr>) = find_hook i w"
  "find_delivery i (w\<lparr>jobs := js\<rparr>) = find_delivery i w" "find_hook i (w\<lparr>jobs := js\<rparr>) = find_hook i w"
  "find_delivery i (w\<lparr>hook_alerts := a\<rparr>) = find_delivery i w" "find_hook i (w\<lparr>hook_alerts := a\<rparr>) = find_hook i w"
  "find_delivery i (add_job jb w) = find_delivery i w" "find_hook i (add_job jb w) = find_hook i w"
  by (simp_all add: find_delivery_def find_hook_def update_delivery_def update_hook_def add_job_def)

lemma jobs_add_job:
  "j_jobId j \<notin> set (job_ids w) \<Longrightarrow> jobs (add_job j w) = jobs w @ [j]"
  "j_jobId j \<notin> set (job_ids w) \<Longrightarrow> job_ids (add_job j w) = job_ids w @ [j_jobId j]"
  by (simp_all add: add_job_def)

lemma row_ids [simp]:
  "d_id (delivered_row env n r d) = d_id d" "d_id (failed_row env n x r d) = d_id d"
  "wh_id (hook_success env h) = wh_id h" "wh_id (hook_failure env x h) = wh_id h"
  by (simp_all add: delivered_row_def failed_row_def hook_success_def hook_failure_def Let_def)

lemma show_nat_inject: "show_nat m = show_nat n \<longleftrightarrow> m = n"
  by (metis parse_show_nat option.inject of_nat_eq_iff)

subsection \<open>The life of a delivery\<close>

text \<open>The worker takes the jobs one after the other; \<open>env k\<close> is what the \<open>k\<close>-th job meets.\<close>

fun work_off :: "(nat \<Rightarrow> worker_env) \<Rightarrow> nat \<Rightarrow> nat \<Rightarrow> hook_world \<Rightarrow> hook_world" where
  "work_off env k 0 w = w"
| "work_off env k (Suc fuel) w =
     (case jobs w of
        [] \<Rightarrow> w
      | j # js \<Rightarrow> work_off env (Suc k) fuel (snd (processWebhookDelivery (env k) j (w\<lparr>jobs := js\<rparr>))))"

definition endpoint_accepts :: "worker_env \<Rightarrow> bool" where
  "endpoint_accepts env \<longleftrightarrow> ar_success (http_attempt (we_timeoutMs env) (we_http env))"

text \<open>A delivery that waits for its attempt number \<open>k + 1\<close>: its job is the only one, its webhook
  exists, and the ids of its later jobs are new.\<close>

definition awaits :: "string \<Rightarrow> nat \<Rightarrow> nat \<Rightarrow> hook_world \<Rightarrow> bool" where
  "awaits did k maxAttempts w \<longleftrightarrow>
     (\<exists>j d. jobs w = [j] \<and> j_deliveryId j = did \<and> find_hook (j_webhookId j) w \<noteq> None \<and>
        find_delivery did w = Some d \<and> d_attempts d = k \<and> d_maxAttempts d = maxAttempts \<and>
        \<not> d_delivered d \<and> \<not> d_failedPermanently d) \<and>
     (\<forall>n > k + 1. ''webhook-'' @ did @ ''-'' @ show_nat n \<notin> set (job_ids w))"

lemma awaits_accepted:
  assumes "awaits did k m w" and "\<forall>i. we_up env i" and "endpoint_accepts env" and "jobs w = j # js"
  shows "\<exists>d. find_delivery did (snd (processWebhookDelivery env j (w\<lparr>jobs := js\<rparr>))) = Some d \<and> d_delivered d \<and>
    \<not> d_failedPermanently d \<and> d_attempts d = k + 1 \<and> jobs (snd (processWebhookDelivery env j (w\<lparr>jobs := js\<rparr>))) = []"
  using assms
  by (auto simp: awaits_def endpoint_accepts_def processWebhookDelivery_def success_path_def Let_def find_delivery_update
      delivered_row_def dest: find_delivery_id)

lemma awaits_exhausted:
  assumes "awaits did k m w" and "\<forall>i. we_up env i" and "\<not> endpoint_accepts env" and "jobs w = j # js" and "m \<le> k + 1"
  shows "\<exists>d. find_delivery did (snd (processWebhookDelivery env j (w\<lparr>jobs := js\<rparr>))) = Some d \<and> \<not> d_delivered d \<and>
    d_failedPermanently d \<and> d_attempts d = k + 1 \<and> jobs (snd (processWebhookDelivery env j (w\<lparr>jobs := js\<rparr>))) = []"
  using assms
  by (auto simp: awaits_def endpoint_accepts_def processWebhookDelivery_def failure_path_def Let_def find_delivery_update
      failed_row_def dest: find_delivery_id)

lemma awaits_retry:
  assumes "awaits did k m w" and "\<forall>i. we_up env i" and "\<not> endpoint_accepts env" and "jobs w = j # js" and "k + 1 < m"
  shows "awaits did (k + 1) m (snd (processWebhookDelivery env j (w\<lparr>jobs := js\<rparr>)))"
proof -
  obtain d where a: "js = []" "j_deliveryId j = did" "find_hook (j_webhookId j) w \<noteq> None"
      "find_delivery did w = Some d" "d_attempts d = k" "d_maxAttempts d = m" "\<not> d_delivered d" "\<not> d_failedPermanently d"
    and fresh: "\<forall>n > k + 1. ''webhook-'' @ did @ ''-'' @ show_nat n \<notin> set (job_ids w)"
    using assms(1,4) unfolding awaits_def by auto
  have new: "''webhook-'' @ did @ ''-'' @ show_nat (Suc (Suc k)) \<notin> set (job_ids w)" using fresh by simp
  have id: "d_id d = did" using a(4) by (rule find_delivery_id)
  show ?thesis
    using assms(2,3,5) a fresh new id
    by (auto simp: awaits_def endpoint_accepts_def processWebhookDelivery_def failure_path_def Let_def find_delivery_update
        find_hook_update failed_row_def jobs_add_job retry_job_def show_nat_inject)
qed

lemma work_off_awaits:
  "awaits did k m w \<Longrightarrow> k < m \<Longrightarrow> \<forall>i n. we_up (env n) i \<Longrightarrow> m - k \<le> fuel \<Longrightarrow>
     \<exists>d. find_delivery did (work_off env k fuel w) = Some d \<and> jobs (work_off env k fuel w) = [] \<and>
       (case List.find (\<lambda>n. endpoint_accepts (env n)) [k..<m] of
          Some n \<Rightarrow> d_delivered d \<and> \<not> d_failedPermanently d \<and> d_attempts d = n + 1
        | None \<Rightarrow> \<not> d_delivered d \<and> d_failedPermanently d \<and> d_attempts d = m)"
proof (induction "m - k" arbitrary: k w fuel)
  case 0
  then show ?case by simp
next
  case (Suc r)
  obtain f where f: "fuel = Suc f" using Suc.prems(2,4) by (cases fuel) auto
  obtain j js where j: "jobs w = j # js" using Suc.prems(1) unfolding awaits_def by auto
  let ?w = "snd (processWebhookDelivery (env k) j (w\<lparr>jobs := js\<rparr>))"
  have up: "\<forall>i. we_up (env k) i" using Suc.prems(3) by blast
  have step: "work_off env k fuel w = work_off env (Suc k) f ?w" by (simp add: f j)
  have stop: "work_off env (Suc k) f ?w = ?w" if "jobs ?w = []"
    using that by (cases f) simp_all
  have range: "[k..<m] = k # [Suc k..<m]" using Suc.prems(2) by (simp add: upt_conv_Cons)
  show ?case
  proof (cases "endpoint_accepts (env k)")
    case True
    from awaits_accepted [OF Suc.prems(1) up True j] show ?thesis
      using True stop unfolding step range by auto
  next
    case False
    show ?thesis
    proof (cases "k + 1 < m")
      case True
      have "r = m - (k + 1)" "m - (k + 1) \<le> f" using Suc.hyps(2) Suc.prems(4) f by auto
      from Suc.hyps(1) [OF this(1) awaits_retry [OF Suc.prems(1) up False j True] True Suc.prems(3) this(2)]
      show ?thesis using False unfolding step range by simp
    next
      case last: False
      with Suc.prems(2) have "m = k + 1" by simp
      from awaits_exhausted [OF Suc.prems(1) up False j] show ?thesis
        using False stop \<open>m = k + 1\<close> unfolding step range by auto
    qed
  qed
qed


definition test_env :: "http_outcome \<Rightarrow> worker_env" where
  "test_env h = \<lparr>we_up = (\<lambda>i. True), we_http = h, we_requestedAt = 0, we_respondedAt = 5, we_now = 6,
     we_rnd1 = 0, we_rnd2 = 1 / 2, we_timeoutMs = 10000\<rparr>"

definition pending_world :: hook_world where
  "pending_world = \<lparr>hooks = [test_hook [''verification.completed'']],
     deliveries = [new_delivery ''d1'' 3 (test_input ''verification.completed'') (test_hook [])],
     attempt_log = [], jobs = [test_job], job_ids = [''webhook-d1-1''], hook_alerts = []\<rparr>"

lemma pending_awaits: "awaits ''d1'' 0 3 pending_world"
proof -
  have "show_nat 1 = ''1''" by code_simp
  then have "show_nat n \<noteq> ''1''" if "Suc 0 < n" for n using that show_nat_inject [of n 1] by simp
  then show ?thesis
    by (auto simp: awaits_def pending_world_def test_job_def find_hook_def find_delivery_def test_hook_def new_delivery_def)
qed


subsection \<open>The recorded date of the next attempt\<close>

text \<open>After a failed attempt with attempts left, the row promises the next attempt at one random
  delay and the queue gets another, drawn again; already the random numbers 0 and one half give different
  dates, for every attempt number.\<close>

theorem recorded_retry_differs:
  assumes "awaits did k m w" and "\<forall>i. we_up env i" and "\<not> endpoint_accepts env" and "jobs w = j # js" and "k + 1 < m"
  shows "\<exists>d j'. find_delivery did (snd (processWebhookDelivery env j (w\<lparr>jobs := js\<rparr>))) = Some d \<and>
    jobs (snd (processWebhookDelivery env j (w\<lparr>jobs := js\<rparr>))) = [j'] \<and>
    d_nextRetryAt d = Some (we_now env + retryDelayMs (we_rnd1 env) (k + 1)) \<and>
    j_delay j' = retryDelayMs (we_rnd2 env) (k + 1) \<and>
    retryDelayMs 0 (k + 1) < retryDelayMs (1 / 2) (k + 1)"
proof -
  obtain d where a: "js = []" "j_deliveryId j = did" "find_hook (j_webhookId j) w \<noteq> None"
      "find_delivery did w = Some d" "d_attempts d = k" "d_maxAttempts d = m" "\<not> d_delivered d" "\<not> d_failedPermanently d"
    and fresh: "\<forall>n > k + 1. ''webhook-'' @ did @ ''-'' @ show_nat n \<notin> set (job_ids w)"
    using assms(1,4) unfolding awaits_def by auto
  have new: "''webhook-'' @ did @ ''-'' @ show_nat (Suc (Suc k)) \<notin> set (job_ids w)" using fresh by simp
  have id: "d_id d = did" using a(4) by (rule find_delivery_id)
  have "retryDelayMs 0 (k + 1) < retryDelayMs (1 / 2) (k + 1)"
    by (simp add: retryDelayMs_def RETRY_DELAYS_MS_def RETRY_JITTER_def MAX_BACKOFF_MS_def Let_def)
  then show ?thesis
    using assms(2,3,5) a new id
    by (auto simp: endpoint_accepts_def processWebhookDelivery_def failure_path_def Let_def find_delivery_update
        find_hook_update failed_row_def jobs_add_job retry_job_def)
qed

theorem recorded_retry_differs_witness:
  "\<exists>d j'. find_delivery ''d1'' (snd (processWebhookDelivery (test_env (Response 500 ''x'')) test_job (pending_world\<lparr>jobs := []\<rparr>))) = Some d \<and>
     jobs (snd (processWebhookDelivery (test_env (Response 500 ''x'')) test_job (pending_world\<lparr>jobs := []\<rparr>))) = [j'] \<and>
     d_nextRetryAt d \<noteq> Some (we_now (test_env (Response 500 ''x'')) + j_delay j')"
  using recorded_retry_differs [OF pending_awaits, of "test_env (Response 500 ''x'')" test_job "[]"]
  by (auto simp: test_env_def endpoint_accepts_def http_attempt_def pending_world_def)

subsection \<open>Job identities\<close>

text \<open>Processing a job again after its delivery has ended contacts no endpoint and changes
  nothing: neither the delivery, nor the log of attempts, nor the queue, nor the webhook.\<close>

theorem ended_delivery_untouched:
  assumes "find_delivery (j_deliveryId j) w = Some d" and "d_delivered d \<or> d_failedPermanently d"
  shows "snd (processWebhookDelivery env j w) = w"
  using assms by (auto simp: processWebhookDelivery_def)

theorem ended_delivery_untouched_witness:
  "\<exists>w. snd (processWebhookDelivery (test_env (Response 200 ''x'')) test_job w) = w \<and> deliveries w \<noteq> []"
proof (intro exI conjI)
  let ?w = "update_delivery ''d1'' (\<lambda>d. d\<lparr>d_delivered := True\<rparr>) pending_world"
  have "find_delivery (j_deliveryId test_job) ?w \<noteq> None \<and>
      (\<forall>d. find_delivery (j_deliveryId test_job) ?w = Some d \<longrightarrow> d_delivered d)"
    by (simp add: find_delivery_def update_delivery_def pending_world_def new_delivery_def test_job_def)
  then obtain d where "find_delivery (j_deliveryId test_job) ?w = Some d" "d_delivered d" by auto
  then show "snd (processWebhookDelivery (test_env (Response 200 ''x'')) test_job ?w) = ?w"
    using ended_delivery_untouched by blast
  show "deliveries ?w \<noteq> []" by (simp add: update_delivery_def pending_world_def)
qed

end
