(* ===== verification/Campaign.thy ===== *)
theory Campaign
  imports UsageMeter
begin

text \<open>
  \<^verbatim>\<open>src/workers/campaignWorker.ts\<close>: one run of the campaign job, from the resolution of the
  recipients to the chunked sending, with the send, cancel, resume and pick-winner handlers of
  \<^verbatim>\<open>src/routes/campaigns/index.ts\<close>. The tables are the state. What other processes do
  between two chunks, whether the first read of a chunk succeeds, the answer of the mail transport, the
  shuffle of the A/B split and the wall clock of a time zone are parameters (\<open>campaign_env\<close>). The
  result lists the mails the transport accepted, in order, with their variant. The dash of an error message is a hyphen. The content of a mail and
  the choice between the two transports are left out; the sends of a chunk touch different rows, so their order
  does not matter, and the usage of a chunk is recorded before the next one starts.
\<close>

subsection \<open>State\<close>

record contact =
  c_email :: string
  c_apiKeyId :: string
  c_firstName :: "string option"
  c_lastName :: "string option"
  c_customFields :: "(string \<times> string) list option"

record membership =
  mb_listId :: string
  mb_status :: string
  mb_contact :: contact

record segment_rule =
  sr_field :: string
  sr_operator :: string
  sr_value :: string

record segment =
  sg_id :: string
  sg_apiKeyId :: string
  sg_listId :: "string option"
  sg_rules :: "segment_rule list"

record campaign =
  ca_apiKeyId :: string
  ca_status :: string
  ca_errorMessage :: "string option"
  ca_listIds :: "string list"
  ca_segmentIds :: "string list"
  ca_excludeListIds :: "string list"
  ca_excludedEmails :: "string list"
  ca_subjectB :: "string option"
  ca_totalRecipients :: nat
  ca_sentCount :: nat
  ca_bounceCount :: nat
  ca_scheduledAt :: "int option"
  ca_sentAt :: "int option"
  ca_sendRatePerHour :: "int option"
  ca_sendDays :: "string list"
  ca_sendStartHour :: int
  ca_sendEndHour :: int
  ca_timezone :: string

record recipient_row =
  rr_campaignId :: string
  rr_email :: string
  rr_status :: string
  rr_variant :: string

record campaign_world =
  campaigns :: "string \<Rightarrow> campaign option"
  contacts :: "contact list"
  memberships :: "membership list"
  segments :: "segment list"
  suppressed_emails :: "string list"
  recipient_rows :: "recipient_row list"
  key_rows :: key_table
  campaign_events :: "(string \<times> string) list"
  registered :: "(string \<times> string) list"

text \<open>A transport that accepts the mail may be followed by a failing update of the recipient row.\<close>

datatype send_outcome = Rejected | Accepted bool

record campaign_env =
  ce_transport :: bool
  ce_shuffle :: "contact list \<Rightarrow> contact list"
  ce_between :: "nat \<Rightarrow> campaign_world \<Rightarrow> campaign_world"
  ce_up :: "nat \<Rightarrow> bool"
  ce_meter_up :: "nat \<Rightarrow> bool"
  ce_send :: "string \<Rightarrow> send_outcome"
  ce_register :: "string \<Rightarrow> bool"
  ce_clock :: "string \<Rightarrow> int \<Rightarrow> (string \<times> int) option"
  ce_cancelled :: "int \<Rightarrow> bool"

datatype campaign_end = Finished | Threw | StillWaiting

text \<open>A row of another tenant is invisible.\<close>

definition find_campaign :: "string \<Rightarrow> string \<Rightarrow> campaign_world \<Rightarrow> campaign option" where
  "find_campaign key cid w = (case campaigns w cid of
     None \<Rightarrow> None | Some c \<Rightarrow> if ca_apiKeyId c = key then Some c else None)"

definition set_campaign :: "string \<Rightarrow> (campaign \<Rightarrow> campaign) \<Rightarrow> campaign_world \<Rightarrow> campaign_world" where
  "set_campaign cid f w = w\<lparr>campaigns := (campaigns w)(cid := map_option f (campaigns w cid))\<rparr>"

subsection \<open>The send window\<close>

text \<open>\<open>clock\<close> gives the lower-case day name and the hour of an instant in a time zone, \<open>None\<close>
  when the zone is not one.\<close>

definition isInSendWindow :: "(string \<Rightarrow> int \<Rightarrow> (string \<times> int) option) \<Rightarrow> campaign \<Rightarrow> int \<Rightarrow> bool" where
  "isInSendWindow clock c now =
     (case clock (if ca_timezone c = [] then ''UTC'' else ca_timezone c) now of
        None \<Rightarrow> True
      | Some (day, hour) \<Rightarrow>
          if ca_sendDays c = [] then True
          else day \<in> set (ca_sendDays c) \<and> hour \<ge> ca_sendStartHour c \<and> hour < ca_sendEndHour c)"

datatype wait_end = Open int | Cancelled

definition POLL_MS :: int where "POLL_MS = 15 * 60 * 1000"

text \<open>The waiting loop: \<open>None\<close> after the given number of polls without an end.\<close>

fun wait_window :: "campaign_env \<Rightarrow> campaign \<Rightarrow> nat \<Rightarrow> int \<Rightarrow> wait_end option" where
  "wait_window env c polls now =
     (if isInSendWindow (ce_clock env) c now then Some (Open now)
      else case polls of
        0 \<Rightarrow> None
      | Suc n \<Rightarrow> if ce_cancelled env (now + POLL_MS) then Some Cancelled
                else wait_window env c n (now + POLL_MS))"

declare wait_window.simps [simp del]

subsection \<open>Recipients\<close>

definition field_value :: "contact \<Rightarrow> string \<Rightarrow> string" where
  "field_value c field =
     (if field = ''email'' then c_email c
      else if field = ''first_name'' then or_else (c_firstName c) []
      else if field = ''last_name'' then or_else (c_lastName c) []
      else if starts_with ''custom.'' field then
        (case c_customFields c of None \<Rightarrow> [] | Some cf \<Rightarrow> or_else (map_of cf (drop 7 field)) [])
      else [])"

definition rule_holds :: "contact \<Rightarrow> segment_rule \<Rightarrow> bool" where
  "rule_holds c rule =
     (let v = js_lower (field_value c (sr_field rule)); r = js_lower (sr_value rule) in
      if sr_operator rule = ''equals'' then v = r
      else if sr_operator rule = ''not_equals'' then v \<noteq> r
      else if sr_operator rule = ''contains'' then has_sub r v
      else if sr_operator rule = ''starts_with'' then starts_with r v
      else True)"

definition matchSegmentRules :: "contact \<Rightarrow> segment_rule list \<Rightarrow> bool" where
  "matchSegmentRules c rules = list_all (rule_holds c) rules"

text \<open>\<open>seen\<close> of the code is the set of the addresses of \<open>recipients\<close>.\<close>

definition add_recipient :: "contact list \<Rightarrow> contact \<Rightarrow> contact list" where
  "add_recipient rs c = (if c_email c \<in> set (map c_email rs) then rs else rs @ [c])"

definition list_members :: "campaign_world \<Rightarrow> string \<Rightarrow> string list \<Rightarrow> string list \<Rightarrow> contact list" where
  "list_members w key listIds excludeListIds =
     map mb_contact (filter (\<lambda>m. mb_listId m \<in> set listIds \<and> mb_status m = ''subscribed'' \<and>
        c_apiKeyId (mb_contact m) = key \<and>
        (if excludeListIds \<noteq> [] then mb_listId m \<notin> set excludeListIds else True)) (memberships w))"

definition segment_members :: "campaign_world \<Rightarrow> string \<Rightarrow> segment \<Rightarrow> contact list" where
  "segment_members w key seg =
     (case sg_listId seg of
        None \<Rightarrow> []
      | Some l \<Rightarrow> if l = [] then [] else
          filter (\<lambda>c. matchSegmentRules c (sg_rules seg))
            (map mb_contact (filter (\<lambda>m. mb_listId m = l \<and> mb_status m = ''subscribed'' \<and>
               c_apiKeyId (mb_contact m) = key) (memberships w))))"

definition campaign_segments :: "campaign_world \<Rightarrow> string \<Rightarrow> string list \<Rightarrow> segment list" where
  "campaign_segments w key ids = filter (\<lambda>s. sg_id s \<in> set ids \<and> sg_apiKeyId s = key) (segments w)"

definition resolve_recipients :: "campaign_world \<Rightarrow> string \<Rightarrow> campaign \<Rightarrow> contact list" where
  "resolve_recipients w key c =
     (let rs = foldl add_recipient [] (list_members w key (ca_listIds c) (ca_excludeListIds c))
      in foldl (\<lambda>rs seg. foldl add_recipient rs (segment_members w key seg)) rs
           (campaign_segments w key (ca_segmentIds c)))"

definition valid_recipients :: "campaign_world \<Rightarrow> string \<Rightarrow> campaign \<Rightarrow> contact list" where
  "valid_recipients w key c =
     filter (\<lambda>r. c_email r \<notin> set (suppressed_emails w) \<and> c_email r \<notin> set (ca_excludedEmails c))
       (resolve_recipients w key c)"

definition owned_count :: "campaign_world \<Rightarrow> string \<Rightarrow> contact list \<Rightarrow> nat" where
  "owned_count w key rs =
     length (filter (\<lambda>c. c_apiKeyId c = key \<and> c_email c \<in> set (map c_email rs)) (contacts w))"

text \<open>The A/B split: the first half of the shuffled recipients gets variant a.\<close>

definition assign_variants :: "campaign_env \<Rightarrow> campaign \<Rightarrow> contact list \<Rightarrow> (string \<times> string) list" where
  "assign_variants env c rs =
     (if truthy (ca_subjectB c) then
        let sh = ce_shuffle env rs; half = (length sh + 1) div 2
        in map (\<lambda>i. (c_email (sh ! i), if i < half then ''a'' else ''b'')) [0..<length sh]
      else [])"

definition variant_of :: "(string \<times> string) list \<Rightarrow> string \<Rightarrow> string" where
  "variant_of vs email = or_else (map_of vs email) ''a''"
subsection \<open>Sending\<close>

definition CHUNK_SIZE :: nat where "CHUNK_SIZE = 50"

definition mark_rows :: "string \<Rightarrow> string list \<Rightarrow> (recipient_row \<Rightarrow> recipient_row) \<Rightarrow> campaign_world \<Rightarrow> campaign_world" where
  "mark_rows cid emails f w = w\<lparr>recipient_rows :=
     map (\<lambda>r. if rr_campaignId r = cid \<and> rr_email r \<in> set emails then f r else r) (recipient_rows w)\<rparr>"

definition send_remaining :: "campaign_world \<Rightarrow> string \<Rightarrow> int" where
  "send_remaining w key =
     (let limit = (case key_rows w key of
            None \<Rightarrow> getSendLimit None None
          | Some row \<Rightarrow> getSendLimit (k_plan row) (Some (k_monthlySendLimit row)));
          used = (case key_rows w key of None \<Rightarrow> 0 | Some row \<Rightarrow> k_currentMonthSendUsage row)
      in max 0 (limit - used))"

text \<open>The three reasons to stop before a chunk; otherwise what is left of the send quota.\<close>

datatype gate = Stop campaign_world | Go nat

definition chunk_gate :: "string \<Rightarrow> string \<Rightarrow> campaign_world \<Rightarrow> gate" where
  "chunk_gate key cid w =
     (case (case find_campaign key cid w of
              None \<Rightarrow> None
            | Some cur \<Rightarrow>
                if ca_status cur = ''cancelled'' then Some w
                else if ca_sentCount cur \<ge> 50 \<and> ca_bounceCount cur * 20 > ca_sentCount cur then
                  Some ((set_campaign cid (\<lambda>c. c\<lparr>ca_status := ''paused_bounce''\<rparr>) w)
                    \<lparr>campaign_events := campaign_events w @ [(''campaign.paused_bounce'', cid)]\<rparr>)
                else None) of
        Some w' \<Rightarrow> Stop w'
      | None \<Rightarrow>
          let remaining = send_remaining w key
          in if remaining \<le> 0 then
               Stop ((set_campaign cid (\<lambda>c. c\<lparr>ca_status := ''paused_quota''\<rparr>) w)
                 \<lparr>campaign_events := campaign_events w @ [(''campaign.paused_quota'', cid)]\<rparr>)
             else Go (nat remaining))"

text \<open>The chunk without the recipients suppressed since the start of the run.\<close>

definition recheck_suppressed :: "nat \<Rightarrow> string \<Rightarrow> contact list \<Rightarrow> campaign_world \<Rightarrow> contact list \<times> campaign_world" where
  "recheck_suppressed k cid chunk w =
     (if k > 0 then
        let fresh = filter (\<lambda>e. e \<in> set (suppressed_emails w)) (map c_email chunk)
        in if fresh \<noteq> [] then
             (filter (\<lambda>r. c_email r \<notin> set fresh) chunk, mark_rows cid fresh (\<lambda>r. r\<lparr>rr_status := ''suppressed''\<rparr>) w)
           else (chunk, w)
      else (chunk, w))"

text \<open>The message row by which tracking and bounces find the mail: its address and its tracking token.\<close>

definition register_message :: "campaign_env \<Rightarrow> string \<Rightarrow> string \<Rightarrow> campaign_world \<Rightarrow> campaign_world" where
  "register_message env cid e w =
     (if ce_register env e then w\<lparr>registered := registered w @ [(e, cid @ ''_'' @ e)]\<rparr> else w)"

text \<open>One recipient: the number of counted sends, the accepted mails and the tables.\<close>

definition send_one :: "campaign_env \<Rightarrow> string \<Rightarrow> (string \<times> string) list \<Rightarrow> contact \<Rightarrow>
    nat \<times> (string \<times> string) list \<times> campaign_world \<Rightarrow> nat \<times> (string \<times> string) list \<times> campaign_world" where
  "send_one env cid vs r = (\<lambda>(n, mails, w).
     let e = c_email r; v = variant_of vs e in
     case ce_send env e of
       Rejected \<Rightarrow> (n, mails, mark_rows cid [e] (\<lambda>r. r\<lparr>rr_status := ''failed''\<rparr>) w)
     | Accepted True \<Rightarrow> (n + 1, mails @ [(e, v)],
         register_message env cid e (mark_rows cid [e] (\<lambda>r. r\<lparr>rr_status := ''sent'', rr_variant := v\<rparr>) w))
     | Accepted False \<Rightarrow> (n, mails @ [(e, v)], mark_rows cid [e] (\<lambda>r. r\<lparr>rr_status := ''failed''\<rparr>) w))"

definition send_chunk :: "campaign_env \<Rightarrow> string \<Rightarrow> (string \<times> string) list \<Rightarrow> contact list \<Rightarrow> campaign_world \<Rightarrow>
    nat \<times> (string \<times> string) list \<times> campaign_world" where
  "send_chunk env cid vs chunk w = fold (send_one env cid vs) chunk (0, [], w)"

definition chunk_delay :: "campaign \<Rightarrow> int" where
  "chunk_delay c = (case ca_sendRatePerHour c of
     None \<Rightarrow> 100
   | Some rate \<Rightarrow> if rate > 0 then max 100 (int CHUNK_SIZE * 3600000 div rate) else 100)"

definition campaign_sent :: "string \<Rightarrow> int \<Rightarrow> nat \<Rightarrow> campaign_world \<Rightarrow> campaign_world" where
  "campaign_sent cid now n w =
     (set_campaign cid (\<lambda>c. c\<lparr>ca_status := ''sent'', ca_sentAt := Some now, ca_sentCount := n\<rparr>) w)
       \<lparr>campaign_events := campaign_events w @ [(''campaign.sent'', cid)]\<rparr>"

text \<open>What follows a chunk: wait for the next one, or end.\<close>

definition after_chunk :: "campaign_env \<Rightarrow> nat \<Rightarrow> campaign \<Rightarrow> nat \<Rightarrow> int \<Rightarrow> wait_end option" where
  "after_chunk env polls c total_left now =
     (if CHUNK_SIZE < total_left then
        let now' = now + chunk_delay c
        in if ca_sendDays c \<noteq> [] then wait_window env c polls now' else Some (Open now')
      else Some (Open now))"

text \<open>One chunk that passed the gate: the sends, the progress and the send meter.\<close>

definition run_chunk :: "campaign_env \<Rightarrow> string \<Rightarrow> string \<Rightarrow> (string \<times> string) list \<Rightarrow> nat \<Rightarrow> nat \<Rightarrow> contact list \<Rightarrow>
    campaign_world \<Rightarrow> nat \<times> (string \<times> string) list \<times> campaign_world" where
  "run_chunk env key cid vs k sentCount chunk0 w =
     (let (chunk, w2) = recheck_suppressed k cid chunk0 w;
          (n, mails, w3) = send_chunk env cid vs chunk w2;
          w4 = set_campaign cid (\<lambda>c. c\<lparr>ca_sentCount := sentCount + n\<rparr>) w3
      in (n, mails, w4\<lparr>key_rows := incrementSendUsageBy (ce_meter_up env k) key (int n) (key_rows w4)\<rparr>))"

function send_chunks :: "campaign_env \<Rightarrow> nat \<Rightarrow> string \<Rightarrow> string \<Rightarrow> campaign \<Rightarrow> (string \<times> string) list \<Rightarrow>
    int \<Rightarrow> nat \<Rightarrow> nat \<Rightarrow> contact list \<Rightarrow> campaign_world \<Rightarrow> campaign_end \<times> (string \<times> string) list \<times> campaign_world" where
  "send_chunks env polls key cid c vs now k sentCount rest w =
     (if rest = [] then (Finished, [], campaign_sent cid now sentCount w)
      else if \<not> ce_up env k then (Threw, [], ce_between env k w)
      else case chunk_gate key cid (ce_between env k w) of
        Stop w1 \<Rightarrow> (Finished, [], w1)
      | Go remaining \<Rightarrow>
          let (n, mails, w5) = run_chunk env key cid vs k sentCount (take remaining (take CHUNK_SIZE rest)) (ce_between env k w)
          in case after_chunk env polls c (length rest) now of
               None \<Rightarrow> (StillWaiting, mails, w5)
             | Some Cancelled \<Rightarrow> (Finished, mails, w5)
             | Some (Open t) \<Rightarrow>
                 let (e, mails', w6) = send_chunks env polls key cid c vs t (k + 1) (sentCount + n) (drop CHUNK_SIZE rest) w5
                 in (e, mails @ mails', w6))"
  by pat_completeness auto

termination by (relation "measure (\<lambda>(env, polls, key, cid, c, vs, now, k, n, rest, w). length rest)")
  (auto simp: CHUNK_SIZE_def)

declare send_chunks.simps [simp del]

definition fail_campaign :: "string \<Rightarrow> string \<Rightarrow> campaign_world \<Rightarrow> campaign_world" where
  "fail_campaign cid msg = set_campaign cid (\<lambda>c. c\<lparr>ca_status := ''failed'', ca_errorMessage := Some msg\<rparr>)"

definition processCampaign :: "campaign_env \<Rightarrow> nat \<Rightarrow> int \<Rightarrow> string \<Rightarrow> string \<Rightarrow> campaign_world \<Rightarrow>
    campaign_end \<times> (string \<times> string) list \<times> campaign_world" where
  "processCampaign env polls now key cid w =
     (if \<not> ce_transport env then
        (case find_campaign key cid w of
           None \<Rightarrow> (Threw, [], w)
         | Some c \<Rightarrow> (Finished, [], fail_campaign cid ''Email sending is not configured. Contact support.'' w))
      else case find_campaign key cid w of
        None \<Rightarrow> (Finished, [], w)
      | Some c \<Rightarrow>
          if ca_status c = ''cancelled'' then (Finished, [], w)
          else
            let w1 = set_campaign cid (\<lambda>c. c\<lparr>ca_status := ''sending''\<rparr>) w
            in if ca_listIds c = [] \<and> ca_segmentIds c = [] then
                 (Finished, [], fail_campaign cid
                   ''No list_ids or segment_ids specified - refusing to send to an unbounded audience.'' w1)
               else
                 let valid = valid_recipients w1 key c; owned = owned_count w1 key valid
                 in if valid \<noteq> [] \<and> owned \<noteq> length valid then
                      (Finished, [], fail_campaign cid
                        (''Recipient isolation check failed: resolved '' @ show_nat (length valid) @
                         '' recipients but only '' @ show_nat owned @
                         '' are owned by this account. Send aborted before anything went out.'') w1)
                    else
                      let vs = assign_variants env c valid;
                          w2 = w1\<lparr>recipient_rows := recipient_rows w1 @
                            map (\<lambda>r. \<lparr>rr_campaignId = cid, rr_email = c_email r, rr_status = ''pending'',
                              rr_variant = variant_of vs (c_email r)\<rparr>) valid\<rparr>;
                          w3 = set_campaign cid (\<lambda>c. c\<lparr>ca_totalRecipients := length valid\<rparr>) w2
                      in send_chunks env polls key cid c vs now 0 0 valid w3)"

subsection \<open>The routes\<close>

text \<open>A queued job: its id, the campaign and the delay.\<close>

datatype route_end = BadRequest | NotFound | Forbidden | Queued "string \<times> string \<times> int" | Updated nat

definition send_route :: "string \<Rightarrow> string \<Rightarrow> int \<Rightarrow> campaign_world \<Rightarrow> route_end \<times> campaign_world" where
  "send_route key cid now w =
     (case find_campaign key cid w of
        None \<Rightarrow> (NotFound, w)
      | Some c \<Rightarrow>
          if ca_status c \<notin> {''draft'', ''scheduled''} then (Forbidden, w)
          else
            let delay = (case ca_scheduledAt c of None \<Rightarrow> 0 | Some t \<Rightarrow> max 0 (t - now));
                status = (if delay > 0 then ''scheduled'' else ''sending'')
            in (Queued (''campaign-'' @ cid, cid, delay), set_campaign cid (\<lambda>c. c\<lparr>ca_status := status\<rparr>) w))"

definition cancel_route :: "string \<Rightarrow> string \<Rightarrow> campaign_world \<Rightarrow> route_end \<times> campaign_world" where
  "cancel_route key cid w =
     (case find_campaign key cid w of
        None \<Rightarrow> (NotFound, w)
      | Some c \<Rightarrow>
          if ca_status c \<notin> {''scheduled'', ''sending''} then (Forbidden, w)
          else (Updated 1, set_campaign cid (\<lambda>c. c\<lparr>ca_status := ''cancelled''\<rparr>) w))"

definition resume_route :: "string \<Rightarrow> string \<Rightarrow> int \<Rightarrow> campaign_world \<Rightarrow> route_end \<times> campaign_world" where
  "resume_route key cid now w =
     (case find_campaign key cid w of
        None \<Rightarrow> (NotFound, w)
      | Some c \<Rightarrow>
          if ca_status c \<notin> {''paused_bounce'', ''paused_quota''} then (Forbidden, w)
          else (Queued (''campaign-'' @ cid @ ''-resume-'' @ show_int now, cid, 0),
                set_campaign cid (\<lambda>c. c\<lparr>ca_status := ''sending''\<rparr>) w))"

definition pick_winner_route :: "string \<Rightarrow> string \<Rightarrow> string \<Rightarrow> campaign_world \<Rightarrow> route_end \<times> campaign_world" where
  "pick_winner_route key cid winner w =
     (if winner \<notin> {''a'', ''b''} then (BadRequest, w) else case find_campaign key cid w of
        None \<Rightarrow> (NotFound, w)
      | Some c \<Rightarrow>
          if \<not> truthy (ca_subjectB c) then (Forbidden, w)
          else if ca_status c \<notin> {''sending'', ''paused_bounce'', ''paused_quota''} then (Forbidden, w)
          else
            let loser = (if winner = ''a'' then ''b'' else ''a'');
                hit = (\<lambda>r. rr_campaignId r = cid \<and> rr_status r = ''pending'' \<and> rr_variant r = loser)
            in (Updated (length (filter hit (recipient_rows w))),
                w\<lparr>recipient_rows := map (\<lambda>r. if hit r then r\<lparr>rr_variant := winner\<rparr> else r) (recipient_rows w)\<rparr>))"
subsection \<open>Who receives a campaign\<close>

lemma add_recipient_emails:
  "distinct (map c_email rs) \<Longrightarrow> distinct (map c_email (foldl add_recipient rs cs)) \<and>
     set (foldl add_recipient rs cs) \<subseteq> set rs \<union> set cs"
proof (induction cs arbitrary: rs)
  case (Cons c cs)
  have "distinct (map c_email (add_recipient rs c))" using Cons.prems by (auto simp: add_recipient_def)
  from Cons.IH [OF this] show ?case by (auto simp: add_recipient_def split: if_splits)
qed simp

lemma add_segments_emails:
  "distinct (map c_email rs) \<Longrightarrow>
   distinct (map c_email (foldl (\<lambda>rs seg. foldl add_recipient rs (f seg)) rs segs)) \<and>
     set (foldl (\<lambda>rs seg. foldl add_recipient rs (f seg)) rs segs) \<subseteq> set rs \<union> (\<Union>s \<in> set segs. set (f s))"
proof (induction segs arbitrary: rs)
  case (Cons s segs)
  note step = add_recipient_emails [OF Cons.prems, of "f s"]
  from Cons.IH [OF conjunct1 [OF step]] step show ?case by auto
qed simp

text \<open>A contact the campaign addresses: a subscribed contact of the account, through one of the
  lists, or through a segment whose rules it meets.\<close>

definition targeted :: "campaign_world \<Rightarrow> string \<Rightarrow> campaign \<Rightarrow> contact \<Rightarrow> bool" where
  "targeted w key c r \<longleftrightarrow> (\<exists>m \<in> set (memberships w). mb_contact m = r \<and> mb_status m = ''subscribed'' \<and>
     c_apiKeyId r = key \<and>
     (mb_listId m \<in> set (ca_listIds c) \<or>
      (\<exists>s \<in> set (segments w). sg_id s \<in> set (ca_segmentIds c) \<and> sg_apiKeyId s = key \<and>
         sg_listId s = Some (mb_listId m) \<and> matchSegmentRules r (sg_rules s))))"

lemma list_members_targeted: "set (list_members w key (ca_listIds c) ex) \<subseteq> Collect (targeted w key c)"
  by (auto simp: list_members_def targeted_def)

lemma segment_members_targeted:
  "s \<in> set (campaign_segments w key (ca_segmentIds c)) \<Longrightarrow> set (segment_members w key s) \<subseteq> Collect (targeted w key c)"
  by (fastforce simp: campaign_segments_def segment_members_def targeted_def split: option.splits if_splits)

lemma resolve_recipients_ok:
  "distinct (map c_email (resolve_recipients w key c))" "set (resolve_recipients w key c) \<subseteq> Collect (targeted w key c)"
proof -
  let ?rs = "foldl add_recipient [] (list_members w key (ca_listIds c) (ca_excludeListIds c))"
  have rs: "distinct (map c_email ?rs)" "set ?rs \<subseteq> Collect (targeted w key c)"
    using add_recipient_emails [of "[]" "list_members w key (ca_listIds c) (ca_excludeListIds c)"] list_members_targeted
    by (simp, fastforce)
  show "distinct (map c_email (resolve_recipients w key c))"
    using conjunct1 [OF add_segments_emails [OF rs(1)]] by (simp only: resolve_recipients_def Let_def)
  show "set (resolve_recipients w key c) \<subseteq> Collect (targeted w key c)"
    using add_segments_emails [OF rs(1), of "segment_members w key" "campaign_segments w key (ca_segmentIds c)"]
      rs(2) segment_members_targeted [of _ w key c] unfolding resolve_recipients_def Let_def by blast
qed

lemma valid_recipients_distinct: "distinct (map c_email (valid_recipients w key c))"
  by (simp add: valid_recipients_def distinct_map_filter resolve_recipients_ok(1))

definition delivers :: "campaign_env \<Rightarrow> contact \<Rightarrow> bool" where
  "delivers env r \<longleftrightarrow> ce_send env (c_email r) \<noteq> Rejected"

definition counted :: "campaign_env \<Rightarrow> contact \<Rightarrow> bool" where
  "counted env r \<longleftrightarrow> ce_send env (c_email r) = Accepted True"

text \<open>Sending touches the recipient rows and the message rows only.\<close>

definition rows_only :: "campaign_world \<Rightarrow> campaign_world \<Rightarrow> bool" where
  "rows_only w w' \<longleftrightarrow> w' = w\<lparr>recipient_rows := recipient_rows w', registered := registered w'\<rparr>"

lemma rows_only_refl: "rows_only w w"
  by (simp add: rows_only_def)

lemma rows_only_trans: "rows_only w w' \<Longrightarrow> rows_only w' w'' \<Longrightarrow> rows_only w w''"
  by (cases w; cases w'; cases w'') (simp add: rows_only_def)

lemma rows_only_mark: "rows_only w (mark_rows cid es f w)"
  by (simp add: rows_only_def mark_rows_def)

lemma rows_only_register: "rows_only w (register_message env cid e w)"
  by (simp add: rows_only_def register_message_def)

lemma send_one_eq:
  "\<exists>w'. send_one env cid vs r (n, mails, w) =
     (n + (if counted env r then 1 else 0),
      mails @ (if delivers env r then [(c_email r, variant_of vs (c_email r))] else []), w') \<and> rows_only w w'"
proof (cases "ce_send env (c_email r)")
  case Rejected
  then show ?thesis by (simp add: send_one_def counted_def delivers_def rows_only_mark)
next
  case (Accepted ok)
  then show ?thesis
    by (cases ok) (simp_all add: send_one_def counted_def delivers_def Let_def rows_only_mark
      rows_only_trans [OF rows_only_mark rows_only_register])
qed

lemma fold_send_one:
  "\<exists>w'. fold (send_one env cid vs) chunk (n, mails, w) =
     (n + length (filter (counted env) chunk),
      mails @ map (\<lambda>r. (c_email r, variant_of vs (c_email r))) (filter (delivers env) chunk), w') \<and> rows_only w w'"
proof (induction chunk arbitrary: n mails w)
  case Nil
  show ?case by (simp add: rows_only_refl)
next
  case (Cons r chunk)
  obtain w1 where step: "send_one env cid vs r (n, mails, w) = (n + (if counted env r then 1 else 0),
      mails @ (if delivers env r then [(c_email r, variant_of vs (c_email r))] else []), w1)" "rows_only w w1"
    using send_one_eq by blast
  from Cons.IH [of "n + (if counted env r then 1 else 0)"
      "mails @ (if delivers env r then [(c_email r, variant_of vs (c_email r))] else [])" w1]
  show ?case by (auto simp: step(1) intro: rows_only_trans [OF step(2)])
qed

lemma send_chunk_eq:
  "\<exists>w'. send_chunk env cid vs chunk w =
     (length (filter (counted env) chunk),
      map (\<lambda>r. (c_email r, variant_of vs (c_email r))) (filter (delivers env) chunk), w') \<and> rows_only w w'"
  using fold_send_one [of env cid vs chunk 0 "[]" w] by (simp add: send_chunk_def)

lemma recheck_suppressed_subseq: "recheck_suppressed k cid chunk w = (chunk', w') \<Longrightarrow> subseq chunk' chunk"
  by (auto simp: recheck_suppressed_def Let_def split: if_splits)

lemma recheck_suppressed_rows: "recheck_suppressed k cid chunk w = (chunk', w') \<Longrightarrow> rows_only w w'"
  by (auto simp: recheck_suppressed_def Let_def rows_only_mark rows_only_refl split: if_splits)

lemma run_chunk_eq:
  assumes "run_chunk env key cid vs k n chunk0 w = (m, mails, w5)"
  obtains chunk rows msgs where "subseq chunk chunk0" "m = length (filter (counted env) chunk)"
    "mails = map (\<lambda>r. (c_email r, variant_of vs (c_email r))) (filter (delivers env) chunk)"
    "k = 0 \<Longrightarrow> chunk = chunk0"
    "w5 = (set_campaign cid (\<lambda>c. c\<lparr>ca_sentCount := n + m\<rparr>) w)\<lparr>recipient_rows := rows, registered := msgs,
       key_rows := incrementSendUsageBy (ce_meter_up env k) key (int m) (key_rows w)\<rparr>"
proof -
  obtain chunk w2 where r: "recheck_suppressed k cid chunk0 w = (chunk, w2)" by fastforce
  obtain w3 where s: "send_chunk env cid vs chunk w2 = (length (filter (counted env) chunk),
      map (\<lambda>r. (c_email r, variant_of vs (c_email r))) (filter (delivers env) chunk), w3)" "rows_only w2 w3"
    using send_chunk_eq by blast
  have w3: "w3 = w\<lparr>recipient_rows := recipient_rows w3, registered := registered w3\<rparr>"
    using rows_only_trans [OF recheck_suppressed_rows [OF r] s(2)] by (simp add: rows_only_def)
  have k: "k = 0 \<Longrightarrow> chunk = chunk0" using r by (simp add: recheck_suppressed_def)
  show thesis
  proof (rule that [where chunk = chunk and rows = "recipient_rows w3" and msgs = "registered w3"])
    have m: "m = length (filter (counted env) chunk)"
      and w5: "w5 = (set_campaign cid (\<lambda>c. c\<lparr>ca_sentCount := n + m\<rparr>) w3)
        \<lparr>key_rows := incrementSendUsageBy (ce_meter_up env k) key (int m) (key_rows w3)\<rparr>"
      using assms by (auto simp: run_chunk_def r s(1) set_campaign_def)
    show "w5 = (set_campaign cid (\<lambda>c. c\<lparr>ca_sentCount := n + m\<rparr>) w)\<lparr>recipient_rows := recipient_rows w3, registered := registered w3,
       key_rows := incrementSendUsageBy (ce_meter_up env k) key (int m) (key_rows w)\<rparr>"
      unfolding w5 by (subst (1 2 3) w3) (simp add: set_campaign_def)
  qed (use assms r s k in \<open>auto simp: run_chunk_def Let_def recheck_suppressed_subseq\<close>)
qed

lemma run_chunk_subseq:
  "run_chunk env key cid vs k n (take r (take m rest)) w = (i, mails, w5) \<Longrightarrow> subseq (map fst mails) (map c_email (take m rest))"
proof (elim run_chunk_eq)
  fix chunk
  assume c: "subseq chunk (take r (take m rest))"
    and mails: "mails = map (\<lambda>r. (c_email r, variant_of vs (c_email r))) (filter (delivers env) chunk)"
  have "subseq (filter (delivers env) chunk) (take m rest)"
    using c by (meson subseq_filter_left subseq_order.trans prefix_imp_subseq take_is_prefix)
  then show "subseq (map fst mails) (map c_email (take m rest))"
    by (simp add: mails comp_def subseq_map)
qed

lemma run_chunk_length: "run_chunk env key cid vs k n chunk0 w = (m, mails, w') \<Longrightarrow> length mails \<le> length chunk0"
proof (elim run_chunk_eq)
  fix chunk
  assume "subseq chunk chunk0"
    and mails: "mails = map (\<lambda>r. (c_email r, variant_of vs (c_email r))) (filter (delivers env) chunk)"
  then have "length chunk \<le> length chunk0" by (simp add: list_emb_length)
  moreover have "length mails \<le> length chunk" by (simp add: mails)
  ultimately show ?thesis by simp
qed

lemma subseq_take_drop:
  "subseq xs (map f (take m ys)) \<Longrightarrow> subseq zs (map f (drop m ys)) \<Longrightarrow> subseq (xs @ zs) (map f ys)"
  by (metis append_take_drop_id list_emb_append_mono map_append)

lemma subseq_take: "subseq xs (map f (take m ys)) \<Longrightarrow> subseq xs (map f ys)"
  by (metis append_Nil2 list_emb_Nil subseq_take_drop)

text \<open>The cases of one round of the loop.\<close>

lemma send_chunks_Nil: "send_chunks env polls key cid c vs now k n [] w = (Finished, [], campaign_sent cid now n w)"
  by (subst send_chunks.simps) simp

lemma send_chunks_down: "rest \<noteq> [] \<Longrightarrow> \<not> ce_up env k \<Longrightarrow>
   send_chunks env polls key cid c vs now k n rest w = (Threw, [], ce_between env k w)"
  by (subst send_chunks.simps) simp

lemma send_chunks_Stop: "rest \<noteq> [] \<Longrightarrow> ce_up env k \<Longrightarrow> chunk_gate key cid (ce_between env k w) = Stop w1 \<Longrightarrow>
   send_chunks env polls key cid c vs now k n rest w = (Finished, [], w1)"
  by (subst send_chunks.simps) simp

lemma send_chunks_Go: "rest \<noteq> [] \<Longrightarrow> ce_up env k \<Longrightarrow> chunk_gate key cid (ce_between env k w) = Go q \<Longrightarrow>
   run_chunk env key cid vs k n (take q (take CHUNK_SIZE rest)) (ce_between env k w) = (m, mails, w5) \<Longrightarrow>
   send_chunks env polls key cid c vs now k n rest w =
     (case after_chunk env polls c (length rest) now of
        None \<Rightarrow> (StillWaiting, mails, w5)
      | Some Cancelled \<Rightarrow> (Finished, mails, w5)
      | Some (Open t) \<Rightarrow>
          let (e, mails', w6) = send_chunks env polls key cid c vs t (k + 1) (n + m) (drop CHUNK_SIZE rest) w5
          in (e, mails @ mails', w6))"
  by (subst send_chunks.simps) simp

lemma drop_chunk_less: "rest \<noteq> [] \<Longrightarrow> length (drop CHUNK_SIZE rest) < length rest"
  by (cases rest) (auto simp: CHUNK_SIZE_def)

lemma send_chunks_subseq:
  "send_chunks env polls key cid c vs now k n rest w = (e, mails, w') \<Longrightarrow> subseq (map fst mails) (map c_email rest)"
proof (induction rest arbitrary: now k n w e mails w' rule: length_induct)
  case (1 rest)
  show ?case
  proof (cases "rest = [] \<or> \<not> ce_up env k \<or> (\<exists>w1. chunk_gate key cid (ce_between env k w) = Stop w1)")
    case True
    with "1.prems" show ?thesis
      by (cases "rest = []"; cases "ce_up env k") (auto simp: send_chunks_Nil send_chunks_down send_chunks_Stop)
  next
    case False
    then obtain q where ne: "rest \<noteq> []" "ce_up env k" and g: "chunk_gate key cid (ce_between env k w) = Go q"
      by (cases "chunk_gate key cid (ce_between env k w)") auto
    obtain m ms w5 where r: "run_chunk env key cid vs k n (take q (take CHUNK_SIZE rest)) (ce_between env k w) = (m, ms, w5)"
      by (metis prod_cases3)
    note sub = run_chunk_subseq [OF r] and IH = "1.IH" [rule_format, OF drop_chunk_less [OF ne(1)]]
    show ?thesis
      using "1.prems" sub unfolding send_chunks_Go [OF ne g r]
      by (auto split: option.splits wait_end.splits prod.splits intro: subseq_take subseq_take_drop [OF _ IH])
  qed
qed

lemma valid_recipients_cong:
  assumes "memberships w' = memberships w" "segments w' = segments w" "suppressed_emails w' = suppressed_emails w"
  shows "valid_recipients w' key c = valid_recipients w key c"
proof -
  have "segment_members w' key = segment_members w key"
    by (rule ext) (simp add: segment_members_def assms split: option.split)
  then show ?thesis
    by (simp add: valid_recipients_def resolve_recipients_def list_members_def campaign_segments_def assms)
qed

lemma set_campaign_simps [simp]:
  "memberships (set_campaign cid f w) = memberships w" "segments (set_campaign cid f w) = segments w"
  "suppressed_emails (set_campaign cid f w) = suppressed_emails w" "contacts (set_campaign cid f w) = contacts w"
  "key_rows (set_campaign cid f w) = key_rows w" "recipient_rows (set_campaign cid f w) = recipient_rows w"
  "campaign_events (set_campaign cid f w) = campaign_events w"
  by (simp_all add: set_campaign_def)

lemma subseq_distinct: "subseq xs ys \<Longrightarrow> distinct ys \<Longrightarrow> distinct xs \<and> set xs \<subseteq> set ys"
  by (auto simp: subseq_conv_nths dest: in_set_nthsD)


subsection \<open>A run without interference\<close>

text \<open>A campaign that passes the checks before the first chunk.\<close>

definition launchable :: "campaign_env \<Rightarrow> campaign_world \<Rightarrow> string \<Rightarrow> string \<Rightarrow> campaign \<Rightarrow> bool" where
  "launchable env w key cid c \<longleftrightarrow> ce_transport env \<and> find_campaign key cid w = Some c \<and>
     ca_status c \<noteq> ''cancelled'' \<and> (ca_listIds c \<noteq> [] \<or> ca_segmentIds c \<noteq> []) \<and>
     owned_count w key (valid_recipients w key c) = length (valid_recipients w key c) \<and> ca_bounceCount c = 0"

definition undisturbed :: "campaign_env \<Rightarrow> bool" where
  "undisturbed env \<longleftrightarrow> ce_between env = (\<lambda>k w. w) \<and> (\<forall>k. ce_up env k)"

text \<open>The world in which the first chunk starts.\<close>

definition launched :: "campaign_env \<Rightarrow> campaign_world \<Rightarrow> string \<Rightarrow> string \<Rightarrow> campaign \<Rightarrow> campaign_world" where
  "launched env w key cid c =
     (let valid = valid_recipients w key c; vs = assign_variants env c valid;
          w1 = set_campaign cid (\<lambda>c. c\<lparr>ca_status := ''sending''\<rparr>) w
      in set_campaign cid (\<lambda>c. c\<lparr>ca_totalRecipients := length valid\<rparr>)
           (w1\<lparr>recipient_rows := recipient_rows w1 @
             map (\<lambda>r. \<lparr>rr_campaignId = cid, rr_email = c_email r, rr_status = ''pending'',
               rr_variant = variant_of vs (c_email r)\<rparr>) valid\<rparr>))"

lemma processCampaign_launchable:
  assumes "launchable env w key cid c"
  shows "processCampaign env polls now key cid w =
    send_chunks env polls key cid c (assign_variants env c (valid_recipients w key c)) now 0 0
      (valid_recipients w key c) (launched env w key cid c)"
proof -
  let ?w1 = "set_campaign cid (\<lambda>c. c\<lparr>ca_status := ''sending''\<rparr>) w"
  have "valid_recipients ?w1 key c = valid_recipients w key c" by (rule valid_recipients_cong) simp_all
  moreover have "owned_count ?w1 key rs = owned_count w key rs" for rs by (simp add: owned_count_def)
  ultimately show ?thesis
    using assms by (auto simp: processCampaign_def launchable_def launched_def Let_def)
qed

text \<open>What a run reads and does not write: the audience tables, and the campaign apart from its
  progress.\<close>

definition plan_of :: "campaign \<Rightarrow> string \<times> string list \<times> string list \<times> string list \<times> string list \<times> string option \<times> nat \<times> string list" where
  "plan_of c = (ca_apiKeyId c, ca_listIds c, ca_segmentIds c, ca_excludeListIds c, ca_excludedEmails c,
     ca_subjectB c, ca_bounceCount c, ca_sendDays c)"

definition same_audience :: "string \<Rightarrow> campaign_world \<Rightarrow> campaign_world \<Rightarrow> bool" where
  "same_audience cid w w' \<longleftrightarrow> memberships w' = memberships w \<and> segments w' = segments w \<and>
     suppressed_emails w' = suppressed_emails w \<and> contacts w' = contacts w \<and>
     map_option plan_of (campaigns w' cid) = map_option plan_of (campaigns w cid)"

lemma same_audience_refl [simp]: "same_audience cid w w"
  by (simp add: same_audience_def)

lemma same_audience_trans: "same_audience cid w w' \<Longrightarrow> same_audience cid w' w'' \<Longrightarrow> same_audience cid w w''"
  by (simp add: same_audience_def)

lemma same_audience_set:
  "(\<And>c. plan_of (f c) = plan_of c) \<Longrightarrow> same_audience cid w w' \<Longrightarrow> same_audience cid w (set_campaign cid f w')"
  by (auto simp: same_audience_def set_campaign_def option.map_comp comp_def)

lemma same_audience_update [simp]:
  "same_audience cid w (w'\<lparr>recipient_rows := rows\<rparr>) = same_audience cid w w'"
  "same_audience cid w (w'\<lparr>registered := msgs\<rparr>) = same_audience cid w w'"
  "same_audience cid w (w'\<lparr>key_rows := keys\<rparr>) = same_audience cid w w'"
  "same_audience cid w (w'\<lparr>campaign_events := evs\<rparr>) = same_audience cid w w'"
  by (simp_all add: same_audience_def)

lemma chunk_gate_audience: "chunk_gate key cid w = Stop w' \<Longrightarrow> same_audience cid w w'"
  by (auto simp: chunk_gate_def Let_def plan_of_def intro!: same_audience_set split: option.splits if_splits)

lemma run_chunk_audience: "run_chunk env key cid vs k n chunk w = (m, mails, w') \<Longrightarrow> same_audience cid w w'"
  by (elim run_chunk_eq) (simp add: same_audience_set plan_of_def)

lemma campaign_sent_audience: "same_audience cid w (campaign_sent cid now n w)"
  by (simp add: campaign_sent_def same_audience_set plan_of_def)

lemma send_chunks_audience:
  "undisturbed env \<Longrightarrow> send_chunks env polls key cid c vs now k n rest w = (e, mails, w') \<Longrightarrow> same_audience cid w w'"
proof (induction rest arbitrary: now k n w e mails w' rule: length_induct)
  case (1 rest)
  from "1.prems"(1) have id: "ce_between env k w = w" and up: "ce_up env k" by (simp_all add: undisturbed_def)
  show ?case
  proof (cases "rest = []")
    case True
    with "1.prems" show ?thesis by (auto simp: send_chunks_Nil campaign_sent_audience)
  next
    case ne: False
    show ?thesis
    proof (cases "chunk_gate key cid (ce_between env k w)")
      case (Stop w1)
      with "1.prems" ne up id show ?thesis by (auto simp: send_chunks_Stop chunk_gate_audience)
    next
      case (Go q)
      obtain m ms w5 where r: "run_chunk env key cid vs k n (take q (take CHUNK_SIZE rest)) (ce_between env k w) = (m, ms, w5)"
        by (metis prod_cases3)
      from r id have "same_audience cid w w5" by (simp add: run_chunk_audience)
      with "1.prems"(2) show ?thesis unfolding send_chunks_Go [OF ne up Go r]
        using "1.IH" [rule_format, OF drop_chunk_less [OF ne] "1.prems"(1)]
        by (auto split: option.splits wait_end.splits prod.splits intro: same_audience_trans)
    qed
  qed
qed

lemma valid_recipients_plan: "plan_of c' = plan_of c \<Longrightarrow> valid_recipients w key c' = valid_recipients w key c"
  by (simp add: plan_of_def valid_recipients_def resolve_recipients_def)

lemma launched_audience: "same_audience cid w (launched env w key cid c)"
  by (simp add: launched_def Let_def same_audience_set plan_of_def)

lemma launched_key_rows [simp]: "key_rows (launched env w key cid c) = key_rows w"
  by (simp add: launched_def Let_def)

definition campaign_running :: "campaign_world \<Rightarrow> string \<Rightarrow> string \<Rightarrow> bool" where
  "campaign_running w key cid \<longleftrightarrow> (\<exists>c. find_campaign key cid w = Some c \<and> ca_status c = ''sending'' \<and> ca_bounceCount c = 0)"

lemma running_gate:
  "campaign_running w key cid \<Longrightarrow> 0 < send_remaining w key \<Longrightarrow> chunk_gate key cid w = Go (nat (send_remaining w key))"
  by (auto simp: campaign_running_def chunk_gate_def)

lemma find_set_campaign:
  "find_campaign key cid w = Some c \<Longrightarrow> ca_apiKeyId (f c) = ca_apiKeyId c \<Longrightarrow>
   find_campaign key cid (set_campaign cid f w) = Some (f c)"
  by (auto simp: find_campaign_def set_campaign_def split: option.splits if_splits)

lemma find_campaign_update [simp]:
  "find_campaign key cid (w\<lparr>recipient_rows := rows\<rparr>) = find_campaign key cid w"
  "find_campaign key cid (w\<lparr>registered := msgs\<rparr>) = find_campaign key cid w"
  "find_campaign key cid (w\<lparr>key_rows := keys\<rparr>) = find_campaign key cid w"
  "find_campaign key cid (w\<lparr>campaign_events := evs\<rparr>) = find_campaign key cid w"
  by (simp_all add: find_campaign_def)

lemma launched_running: "launchable env w key cid c \<Longrightarrow> campaign_running (launched env w key cid c) key cid"
  by (auto simp: launchable_def launched_def campaign_running_def Let_def find_set_campaign)

lemma run_chunk_running:
  "run_chunk env key cid vs k n chunk w = (m, mails, w') \<Longrightarrow> campaign_running w key cid \<Longrightarrow> campaign_running w' key cid"
  by (elim run_chunk_eq) (auto simp: campaign_running_def find_set_campaign)

lemma run_chunk_remaining:
  "run_chunk env key cid vs k n chunk w = (m, mails, w') \<Longrightarrow> send_remaining w key - int m \<le> send_remaining w' key"
  by (elim run_chunk_eq)
    (auto simp: send_remaining_def Let_def incrementSendUsageBy_def withTenant_def update_key_def or_else_def split: option.splits)

lemma send_remaining_nonneg: "0 \<le> send_remaining w key"
  by (simp add: send_remaining_def)

lemma recheck_fresh:
  "set (map c_email chunk) \<inter> set (suppressed_emails w) = {} \<Longrightarrow> recheck_suppressed k cid chunk w = (chunk, w)"
  by (auto simp: recheck_suppressed_def Let_def filter_empty_conv)

lemma run_chunk_all:
  assumes "set (map c_email chunk) \<inter> set (suppressed_emails w) = {}"
    and "run_chunk env key cid vs k n chunk w = (m, mails, w')"
  shows "m = length (filter (counted env) chunk)"
    "mails = map (\<lambda>r. (c_email r, variant_of vs (c_email r))) (filter (delivers env) chunk)"
  using assms(2) send_chunk_eq [of env cid vs chunk w] by (auto simp: run_chunk_def recheck_fresh [OF assms(1)])

lemma send_chunks_all:
  assumes "undisturbed env" and "ca_sendDays c = []"
  shows "campaign_running w key cid \<Longrightarrow> int (length rest) \<le> send_remaining w key \<Longrightarrow>
    set (map c_email rest) \<inter> set (suppressed_emails w) = {} \<Longrightarrow>
    \<exists>w' c'. send_chunks env polls key cid c vs now k n rest w =
      (Finished, map (\<lambda>r. (c_email r, variant_of vs (c_email r))) (filter (delivers env) rest), w') \<and>
      find_campaign key cid w' = Some c' \<and> ca_status c' = ''sent'' \<and>
      ca_sentCount c' = n + length (filter (counted env) rest)"
proof (induction rest arbitrary: now k n w rule: length_induct)
  case (1 rest)
  show ?case
  proof (cases "rest = []")
    case True
    with "1.prems"(1) show ?thesis
      by (auto simp: send_chunks_Nil campaign_sent_def campaign_running_def find_set_campaign)
  next
    case ne: False
    from assms(1) have id: "ce_between env k w = w" and up: "ce_up env k" by (simp_all add: undisturbed_def)
    let ?q = "nat (send_remaining w key)" and ?now = "if CHUNK_SIZE < length rest then now + chunk_delay c else now"
    from ne "1.prems"(2) have q: "0 < send_remaining w key" "length rest \<le> ?q" by (cases rest; simp add: le_nat_iff)+
    have g: "chunk_gate key cid (ce_between env k w) = Go ?q"
      unfolding id by (rule running_gate [OF "1.prems"(1) q(1)])
    have chunk: "take ?q (take CHUNK_SIZE rest) = take CHUNK_SIZE rest"
      by (rule take_all) (use q(2) in simp)
    obtain m ms w5 where r: "run_chunk env key cid vs k n (take ?q (take CHUNK_SIZE rest)) (ce_between env k w) = (m, ms, w5)"
      by (metis prod_cases3)
    note r' = r [unfolded id chunk]
    have fresh: "set (map c_email (take CHUNK_SIZE rest)) \<inter> set (suppressed_emails w) = {}"
      "set (map c_email (drop CHUNK_SIZE rest)) \<inter> set (suppressed_emails w5) = {}"
      using "1.prems"(3) run_chunk_audience [OF r'] set_take_subset [of CHUNK_SIZE rest] set_drop_subset [of CHUNK_SIZE rest]
      by (auto simp: same_audience_def)
    note all = run_chunk_all [OF fresh(1) r']
    have "m \<le> length (take CHUNK_SIZE rest)" unfolding all(1) by (rule length_filter_le)
    with run_chunk_remaining [OF r'] "1.prems"(2)
    have "int (length (drop CHUNK_SIZE rest)) \<le> send_remaining w5 key"
      by (cases "CHUNK_SIZE \<le> length rest") (simp_all add: of_nat_diff send_remaining_nonneg)
    from "1.IH" [rule_format, OF drop_chunk_less [OF ne] run_chunk_running [OF r' "1.prems"(1)] this fresh(2)]
    obtain w' c' where rec: "send_chunks env polls key cid c vs ?now (k + 1) (n + m) (drop CHUNK_SIZE rest) w5 =
      (Finished, map (\<lambda>r. (c_email r, variant_of vs (c_email r))) (filter (delivers env) (drop CHUNK_SIZE rest)), w')"
      and c': "find_campaign key cid w' = Some c'" "ca_status c' = ''sent''"
        "ca_sentCount c' = n + m + length (filter (counted env) (drop CHUNK_SIZE rest))" by blast
    have split: "filter P (take CHUNK_SIZE rest) @ filter P (drop CHUNK_SIZE rest) = filter P rest" for P
      by (metis append_take_drop_id filter_append)
    have "after_chunk env polls c (length rest) now = Some (Open ?now)"
      by (simp add: after_chunk_def assms(2))
    then have "send_chunks env polls key cid c vs now k n rest w =
      (Finished, map (\<lambda>r. (c_email r, variant_of vs (c_email r))) (filter (delivers env) rest), w')"
      unfolding send_chunks_Go [OF ne up g r] using rec by (simp add: all(2) flip: split map_append)
    moreover have "ca_sentCount c' = n + length (filter (counted env) rest)"
      using c'(3) unfolding all(1) by (simp flip: split [of "counted env"])
    ultimately show ?thesis using c' by blast
  qed
qed

lemma valid_not_suppressed: "set (map c_email (valid_recipients w key c)) \<inter> set (suppressed_emails w) = {}"
  by (auto simp: valid_recipients_def)

text \<open>C18: a campaign that passes its checks, with quota for all its recipients and no send window, is
  marked as sent after it has offered every resolved recipient, in order, to the transport, however many
  chunks that takes; its final count is the number of recorded sends.\<close>

theorem campaign_reaches_everyone:
  assumes "launchable env w key cid c" and "undisturbed env" and "ca_sendDays c = []"
    and "int (length (valid_recipients w key c)) \<le> send_remaining w key"
  shows "\<exists>mails w' c'. processCampaign env polls now key cid w = (Finished, mails, w') \<and>
    map fst mails = map c_email (filter (delivers env) (valid_recipients w key c)) \<and>
    find_campaign key cid w' = Some c' \<and> ca_status c' = ''sent'' \<and>
    ca_sentCount c' = length (filter (counted env) (valid_recipients w key c))"
proof -
  let ?rs = "valid_recipients w key c" and ?vs = "assign_variants env c (valid_recipients w key c)"
  have "int (length ?rs) \<le> send_remaining (launched env w key cid c) key"
    using assms(4) by (simp add: send_remaining_def)
  moreover have "suppressed_emails (launched env w key cid c) = suppressed_emails w"
    using launched_audience by (auto simp: same_audience_def)
  ultimately obtain w' c' where "send_chunks env polls key cid c ?vs now 0 0 ?rs (launched env w key cid c) =
      (Finished, map (\<lambda>r. (c_email r, variant_of ?vs (c_email r))) (filter (delivers env) ?rs), w')"
    "find_campaign key cid w' = Some c'" "ca_status c' = ''sent''" "ca_sentCount c' = 0 + length (filter (counted env) ?rs)"
    using send_chunks_all [OF assms(2,3) launched_running [OF assms(1)], of ?rs polls ?vs now 0 0] valid_not_suppressed [of w key c]
    by auto
  then show ?thesis by (auto simp: processCampaign_launchable [OF assms(1)] comp_def)
qed

text \<open>C19: resuming a paused campaign mails again every recipient it had already mailed: the second run
  resolves the audience anew and never looks at the rows of the first one.\<close>

theorem resume_mails_again:
  assumes "launchable env w key cid c" and "undisturbed env"
    and "processCampaign env polls now key cid w = (e, mails, w1)"
    and "resume_route key cid later w1 = (Queued job, w2)"
    and "undisturbed env2" and "ce_transport env2" and "ca_sendDays c = []"
    and "send_remaining (w2\<lparr>key_rows := keys\<rparr>) key \<ge> int (length (valid_recipients w key c))"
    and "ce_send env2 = (\<lambda>a. Accepted True)"
  shows "\<exists>mails2 w3. processCampaign env2 polls later key cid (w2\<lparr>key_rows := keys\<rparr>) = (Finished, mails2, w3) \<and>
    set (map fst mails) \<subseteq> set (map fst mails2)"
proof -
  let ?w2 = "w2\<lparr>key_rows := keys\<rparr>" and ?vs = "assign_variants env c (valid_recipients w key c)"
  from assms(1) have fc: "find_campaign key cid w = Some c" by (simp add: launchable_def)
  have run: "send_chunks env polls key cid c ?vs now 0 0 (valid_recipients w key c) (launched env w key cid c) = (e, mails, w1)"
    using assms(3) by (simp add: processCampaign_launchable [OF assms(1)])
  have "same_audience cid w w1"
    using send_chunks_audience [OF assms(2) run] launched_audience same_audience_trans by blast
  moreover obtain c1 where c1: "find_campaign key cid w1 = Some c1"
    and w2: "w2 = set_campaign cid (\<lambda>c. c\<lparr>ca_status := ''sending''\<rparr>) w1"
    using assms(4) by (auto simp: resume_route_def split: option.splits if_splits)
  ultimately have aud: "same_audience cid w ?w2" by (simp add: same_audience_set plan_of_def)
  define c2 where "c2 = c1\<lparr>ca_status := ''sending''\<rparr>"
  have fc2: "find_campaign key cid ?w2 = Some c2"
    using c1 by (simp add: w2 c2_def find_set_campaign)
  then have plan: "plan_of c2 = plan_of c"
    using aud fc by (auto simp: same_audience_def find_campaign_def split: option.splits if_splits)
  have rs: "valid_recipients ?w2 key c2 = valid_recipients w key c"
    using valid_recipients_cong [of ?w2 w key c] aud valid_recipients_plan [OF plan] by (simp add: same_audience_def)
  have launch: "launchable env2 ?w2 key cid c2"
    using assms(1,6) fc2 plan aud rs
    by (auto simp: launchable_def plan_of_def c2_def same_audience_def owned_count_def)
  have days: "ca_sendDays c2 = []" using plan assms(7) by (simp add: plan_of_def)
  have all: "delivers env2 = (\<lambda>r. True)" by (simp add: delivers_def fun_eq_iff assms(9))
  have "set (map fst mails) \<subseteq> set (map c_email (valid_recipients w key c))"
    using subseq_distinct [OF send_chunks_subseq [OF run] valid_recipients_distinct] by blast
  moreover obtain mails2 w3 where "processCampaign env2 polls later key cid ?w2 = (Finished, mails2, w3)"
    "map fst mails2 = map c_email (valid_recipients w key c)"
    using campaign_reaches_everyone [OF launch assms(5) days, unfolded rs, OF assms(8), of polls later] by (auto simp: all)
  ultimately show ?thesis by (metis list.set_map)
qed

subsection \<open>The send quota\<close>

lemma fold_send_one_keeps:
  "r \<in> set (recipient_rows w) \<Longrightarrow> rr_email r \<notin> c_email ` set chunk \<Longrightarrow>
   r \<in> set (recipient_rows (snd (snd (fold (send_one env cid vs) chunk (n, mails, w)))))"
proof (induction chunk arbitrary: n mails w)
  case (Cons x chunk)
  obtain n' mails' w' where one: "send_one env cid vs x (n, mails, w) = (n', mails', w')" by (metis prod_cases3)
  have "r \<in> set (recipient_rows w')"
    using one Cons.prems by (force simp: send_one_def mark_rows_def register_message_def Let_def split: send_outcome.splits bool.splits if_splits)
  with Cons.IH [of w' n' mails'] Cons.prems show ?case by (simp add: one)
qed simp

text \<open>When the quota left is smaller than the last chunk of a campaign, the campaign mails no more
  than the quota allows, is nevertheless marked as sent, and the recipients beyond the quota keep their
  pending rows: nothing pauses it and nothing will ever send to them.\<close>

theorem quota_cut_marked_sent:
  assumes "launchable env w key cid c" and "undisturbed env"
    and "0 < send_remaining w key" and "send_remaining w key < int (length (valid_recipients w key c))"
    and "length (valid_recipients w key c) \<le> CHUNK_SIZE"
  shows "\<exists>mails w' c'. processCampaign env polls now key cid w = (Finished, mails, w') \<and>
    find_campaign key cid w' = Some c' \<and> ca_status c' = ''sent'' \<and> int (length mails) \<le> send_remaining w key \<and>
    (\<lambda>r. \<lparr>rr_campaignId = cid, rr_email = c_email r, rr_status = ''pending'',
       rr_variant = variant_of (assign_variants env c (valid_recipients w key c)) (c_email r)\<rparr>) `
      set (drop (nat (send_remaining w key)) (valid_recipients w key c)) \<subseteq> set (recipient_rows w')"
proof -
  let ?rs = "valid_recipients w key c" and ?vs = "assign_variants env c (valid_recipients w key c)"
  let ?q = "nat (send_remaining w key)" and ?w = "launched env w key cid c"
  let ?row = "\<lambda>r. \<lparr>rr_campaignId = cid, rr_email = c_email r, rr_status = ''pending'', rr_variant = variant_of ?vs (c_email r)\<rparr>"
  have id: "ce_between env 0 ?w = ?w" and up: "ce_up env 0" using assms(2) by (simp_all add: undisturbed_def)
  have ne: "?rs \<noteq> []" using assms(3,4) by auto
  have rem: "send_remaining ?w key = send_remaining w key" by (simp add: send_remaining_def)
  have g: "chunk_gate key cid (ce_between env 0 ?w) = Go ?q"
    unfolding id using running_gate [OF launched_running [OF assms(1)]] assms(3) rem by simp
  obtain m mails w5 where r: "run_chunk env key cid ?vs 0 0 (take ?q (take CHUNK_SIZE ?rs)) (ce_between env 0 ?w) = (m, mails, w5)"
    by (metis prod_cases3)
  have run: "processCampaign env polls now key cid w = (Finished, mails, campaign_sent cid now m w5)"
    unfolding processCampaign_launchable [OF assms(1)] send_chunks_Go [OF ne up g r]
    using assms(5) by (simp add: after_chunk_def send_chunks_Nil)
  have chunk: "take ?q (take CHUNK_SIZE ?rs) = take ?q ?rs" using assms(5) by simp
  have run5: "campaign_running w5 key cid"
    using run_chunk_running [OF r [unfolded id] launched_running [OF assms(1)]] .
  have "length mails \<le> length (take ?q ?rs)"
    by (rule run_chunk_length [OF r [unfolded id chunk]])
  then have len: "int (length mails) \<le> send_remaining w key" using assms(3) by (simp add: le_nat_iff)
  have "?row ` set (drop ?q ?rs) \<subseteq> set (recipient_rows w5)"
  proof
    fix x assume "x \<in> ?row ` set (drop ?q ?rs)"
    then obtain y where y: "y \<in> set (drop ?q ?rs)" "x = ?row y" by auto
    have "distinct (map c_email (take ?q ?rs) @ map c_email (drop ?q ?rs))"
      by (simp only: valid_recipients_distinct append_take_drop_id flip: map_append)
    then have "set (map c_email (take ?q ?rs)) \<inter> set (map c_email (drop ?q ?rs)) = {}" by (simp only: distinct_append)
    with y have out: "rr_email x \<notin> c_email ` set (take ?q ?rs)" by auto
    have inn: "x \<in> set (recipient_rows ?w)" using y by (auto simp: launched_def Let_def dest: in_set_dropD)
    have "x \<in> set (recipient_rows (snd (snd (send_chunk env cid ?vs (take ?q ?rs) ?w))))"
      using fold_send_one_keeps [OF inn out] by (simp add: send_chunk_def)
    then show "x \<in> set (recipient_rows w5)"
      using r [unfolded id chunk] by (auto simp: run_chunk_def recheck_suppressed_def split: prod.splits)
  qed
  then show ?thesis using run5 len
    by (auto simp: run campaign_sent_def campaign_running_def find_set_campaign)
qed

definition metered :: "campaign_env \<Rightarrow> campaign_world \<Rightarrow> string \<Rightarrow> bool" where
  "metered env w key \<longleftrightarrow> undisturbed env \<and> ce_meter_up env = (\<lambda>k. True) \<and> valid_tenant_id key \<and>
     key_rows w key \<noteq> None \<and> (\<forall>a. ce_send env a \<noteq> Accepted False)"

lemma run_chunk_metered:
  assumes "metered env w key" and "run_chunk env key cid vs k n (take (nat (send_remaining w key)) chunk) w = (m, mails, w')"
  shows "length mails = m \<and> int m + send_remaining w' key = send_remaining w key \<and> metered env w' key"
proof -
  obtain row where row: "key_rows w key = Some row" using assms(1) by (auto simp: metered_def)
  have d: "delivers env = counted env"
  proof
    fix r :: contact
    have "ce_send env (c_email r) \<noteq> Accepted False" using assms(1) by (simp add: metered_def)
    then show "delivers env r = counted env r" by (cases "ce_send env (c_email r)") (auto simp: delivers_def counted_def)
  qed
  show ?thesis
  proof (rule run_chunk_eq [OF assms(2)])
    fix sub rows msgs
    assume sub: "subseq sub (take (nat (send_remaining w key)) chunk)" and m: "m = length (filter (counted env) sub)"
      and mails: "mails = map (\<lambda>r. (c_email r, variant_of vs (c_email r))) (filter (delivers env) sub)"
      and w': "w' = (set_campaign cid (\<lambda>c. c\<lparr>ca_sentCount := n + m\<rparr>) w)\<lparr>recipient_rows := rows, registered := msgs,
        key_rows := incrementSendUsageBy (ce_meter_up env k) key (int m) (key_rows w)\<rparr>"
    have "m \<le> length sub" unfolding m by (rule length_filter_le)
    also have "\<dots> \<le> nat (send_remaining w key)" using list_emb_length [OF sub] by simp
    finally have le: "int m \<le> send_remaining w key" using send_remaining_nonneg [of w key] by linarith
    have keys: "key_rows w' = (key_rows w)(key \<mapsto> row\<lparr>k_currentMonthSendUsage := k_currentMonthSendUsage row + int m\<rparr>)"
      using assms(1) row unfolding w'
      by (cases "m = 0") (auto simp: metered_def incrementSendUsageBy_def withTenant_up fun_upd_idem_iff)
    then show ?thesis
      using le assms(1) row by (auto simp: m mails d send_remaining_def Let_def metered_def)
  qed
qed

lemma send_chunks_metered:
  "metered env w key \<Longrightarrow> send_chunks env polls key cid c vs now k n rest w = (e, mails, w') \<Longrightarrow>
   int (length mails) \<le> send_remaining w key"
proof (induction rest arbitrary: now k n w e mails w' rule: length_induct)
  case (1 rest)
  from "1.prems"(1) have id: "ce_between env k w = w" and up: "ce_up env k" by (simp_all add: metered_def undisturbed_def)
  show ?case
  proof (cases "rest = [] \<or> (\<exists>w1. chunk_gate key cid (ce_between env k w) = Stop w1)")
    case True
    with "1.prems" up show ?thesis
      by (cases "rest = []") (auto simp: send_chunks_Nil send_chunks_Stop send_remaining_nonneg)
  next
    case False
    then obtain q where ne: "rest \<noteq> []" and g: "chunk_gate key cid (ce_between env k w) = Go q"
      by (cases "chunk_gate key cid (ce_between env k w)") auto
    have q: "q = nat (send_remaining w key)"
      using g by (auto simp: id chunk_gate_def Let_def split: option.splits if_splits)
    obtain m ms w5 where r: "run_chunk env key cid vs k n (take q (take CHUNK_SIZE rest)) (ce_between env k w) = (m, ms, w5)"
      by (metis prod_cases3)
    have step: "length ms = m" "int m + send_remaining w5 key = send_remaining w key" "metered env w5 key"
      using run_chunk_metered [OF "1.prems"(1) r [unfolded id q]] by simp_all
    have IH: "send_chunks env polls key cid c vs t k' n' (drop CHUNK_SIZE rest) w5 = (e', ms', w6) \<Longrightarrow>
        int (length ms') \<le> send_remaining w5 key" for t k' n' e' ms' w6
      by (rule "1.IH" [rule_format, OF drop_chunk_less [OF ne] step(3)])
    show ?thesis
      using "1.prems"(2) step(1,2) send_remaining_nonneg [of w5 key] unfolding send_chunks_Go [OF ne up g r]
      by (auto split: option.splits wait_end.splits prod.splits dest!: IH)
  qed
qed

text \<open>A run whose sends are all recorded never mails more than what is left of the monthly send quota
  of its key.\<close>

theorem campaign_within_quota:
  assumes "metered env w key"
  shows "int (length (fst (snd (processCampaign env polls now key cid w)))) \<le> send_remaining w key"
proof -
  obtain e mails w' where run: "processCampaign env polls now key cid w = (e, mails, w')" by (metis prod_cases3)
  consider "mails = []" | c vs rest w1 where "send_chunks env polls key cid c vs now 0 0 rest w1 = (e, mails, w')"
    "key_rows w1 = key_rows w"
    using run by (auto simp: processCampaign_def Let_def split: option.splits if_splits)
  then have "int (length mails) \<le> send_remaining w key"
  proof cases
    case 1
    then show ?thesis by (simp add: send_remaining_nonneg)
  next
    case (2 c vs rest w1)
    then have "metered env w1 key" "send_remaining w1 key = send_remaining w key"
      using assms by (simp_all add: metered_def send_remaining_def)
    with send_chunks_metered [OF _ 2(1)] show ?thesis by simp
  qed
  then show ?thesis by (simp add: run)
qed

subsection \<open>A window that never opens, and lists that are not excluded\<close>

lemma wait_window_never:
  "(\<And>t. \<not> isInSendWindow (ce_clock env) c t) \<Longrightarrow> (\<And>t. \<not> ce_cancelled env t) \<Longrightarrow> wait_window env c polls now = None"
  by (induction polls arbitrary: now) (simp_all add: wait_window.simps)

text \<open>A send window that ends at or before the hour it starts, such as 22 to 6, never opens: a campaign
  of more than one chunk mails its first chunk at once and then waits for ever, in the worker.\<close>

theorem overnight_window_never_opens:
  assumes "launchable env w key cid c" and "undisturbed env" and "0 < send_remaining w key"
    and "CHUNK_SIZE < length (valid_recipients w key c)"
    and "ca_sendDays c \<noteq> []" and "ca_sendEndHour c \<le> ca_sendStartHour c"
    and "ce_clock env = (\<lambda>tz t. Some (day tz t, hour tz t))" and "ce_cancelled env = (\<lambda>t. False)"
  shows "\<exists>mails w'. processCampaign env polls now key cid w = (StillWaiting, mails, w') \<and> length mails \<le> CHUNK_SIZE"
proof -
  let ?rs = "valid_recipients w key c" and ?vs = "assign_variants env c (valid_recipients w key c)"
  let ?w = "launched env w key cid c" and ?q = "nat (send_remaining w key)"
  have id: "ce_between env 0 ?w = ?w" and up: "ce_up env 0" using assms(2) by (simp_all add: undisturbed_def)
  have ne: "?rs \<noteq> []" using assms(4) by auto
  have "send_remaining ?w key = send_remaining w key" by (simp add: send_remaining_def)
  then have g: "chunk_gate key cid (ce_between env 0 ?w) = Go ?q"
    unfolding id using running_gate [OF launched_running [OF assms(1)]] assms(3) by simp
  obtain m mails w5 where r: "run_chunk env key cid ?vs 0 0 (take ?q (take CHUNK_SIZE ?rs)) (ce_between env 0 ?w) = (m, mails, w5)"
    by (metis prod_cases3)
  have "\<not> isInSendWindow (ce_clock env) c t" for t
    using assms(5,6) by (simp add: isInSendWindow_def assms(7))
  then have "after_chunk env polls c (length ?rs) now = None"
    using assms(4,5) by (simp add: after_chunk_def Let_def wait_window_never assms(8))
  then have "processCampaign env polls now key cid w = (StillWaiting, mails, w5)"
    unfolding processCampaign_launchable [OF assms(1)] send_chunks_Go [OF ne up g r] by simp
  moreover have "length mails \<le> CHUNK_SIZE"
    using run_chunk_length [OF r] by simp
  ultimately show ?thesis by blast
qed

text \<open>Excluding lists the campaign does not target changes nothing: a contact of an excluded list who is
  also on a targeted one is mailed all the same.\<close>

theorem exclude_lists_without_effect:
  assumes "set (ca_excludeListIds c) \<inter> set (ca_listIds c) = {}"
  shows "valid_recipients w key c = valid_recipients w key (c\<lparr>ca_excludeListIds := []\<rparr>)"
proof -
  have "list_members w key (ca_listIds c) (ca_excludeListIds c) = list_members w key (ca_listIds c) []"
    unfolding list_members_def using assms by (intro arg_cong [of _ _ "map mb_contact"] filter_cong) auto
  then show ?thesis by (simp add: valid_recipients_def resolve_recipients_def)
qed

subsection \<open>Examples\<close>

definition test_contact :: "nat \<Rightarrow> contact" where
  "test_contact i = \<lparr>c_email = show_nat i @ ''@a.de'', c_apiKeyId = ''k1'', c_firstName = None, c_lastName = None,
     c_customFields = None\<rparr>"

definition test_campaign :: "string list \<Rightarrow> string list \<Rightarrow> campaign" where
  "test_campaign days exclude = \<lparr>ca_apiKeyId = ''k1'', ca_status = ''sending'', ca_errorMessage = None,
     ca_listIds = [''l''], ca_segmentIds = [], ca_excludeListIds = exclude, ca_excludedEmails = [], ca_subjectB = None,
     ca_totalRecipients = 0, ca_sentCount = 0, ca_bounceCount = 0, ca_scheduledAt = None, ca_sentAt = None, ca_sendRatePerHour = None,
     ca_sendDays = days, ca_sendStartHour = 22, ca_sendEndHour = 6, ca_timezone = []\<rparr>"

definition test_world :: "nat \<Rightarrow> int \<Rightarrow> string list \<Rightarrow> campaign_world" where
  "test_world n used days = \<lparr>campaigns = [''c'' \<mapsto> test_campaign days []], contacts = map test_contact [0..<n],
     memberships = map (\<lambda>i. \<lparr>mb_listId = ''l'', mb_status = ''subscribed'', mb_contact = test_contact i\<rparr>) [0..<n],
     segments = [], suppressed_emails = [], recipient_rows = [],
     key_rows = [''k1'' \<mapsto> (free_key 0 0)\<lparr>k_currentMonthSendUsage := used\<rparr>], campaign_events = [], registered = []\<rparr>"

definition good_env :: campaign_env where
  "good_env = \<lparr>ce_transport = True, ce_shuffle = id, ce_between = (\<lambda>k w. w), ce_up = (\<lambda>k. True), ce_meter_up = (\<lambda>k. True),
     ce_send = (\<lambda>a. Accepted True), ce_register = (\<lambda>a. True), ce_clock = (\<lambda>tz t. Some (''monday'', 9)), ce_cancelled = (\<lambda>t. False)\<rparr>"

lemma foldl_add_distinct: "distinct (map c_email (rs @ xs)) \<Longrightarrow> foldl add_recipient rs xs = rs @ xs"
  by (induction xs arbitrary: rs) (auto simp: add_recipient_def)

lemma test_contacts_distinct: "distinct (map c_email (map test_contact ns)) = distinct ns"
proof -
  have "inj (\<lambda>i. c_email (test_contact i))"
    by (rule injI) (simp add: test_contact_def, metis parse_show_nat of_nat_eq_iff option.inject)
  then show ?thesis by (simp add: distinct_map comp_def inj_on_subset [OF _ subset_UNIV])
qed

lemma test_recipients [simp]: "valid_recipients (test_world n used days) ''k1'' (test_campaign d []) = map test_contact [0..<n]"
proof -
  have "list_members (test_world n used days) ''k1'' [''l''] [] = map test_contact [0..<n]"
    by (simp add: list_members_def test_world_def filter_map comp_def test_contact_def)
  then show ?thesis
    using foldl_add_distinct [of "[]" "map test_contact [0..<n]"] test_contacts_distinct [of "[0..<n]"]
    by (simp add: valid_recipients_def resolve_recipients_def test_campaign_def campaign_segments_def test_world_def)
qed

lemma test_launchable: "launchable good_env (test_world n used days) ''k1'' ''c'' (test_campaign days [])"
proof -
  have "owned_count (test_world n used days) ''k1'' (map test_contact [0..<n]) = n"
    by (auto simp: owned_count_def test_world_def test_contact_def filter_map comp_def)
  then show ?thesis
    unfolding launchable_def by (simp add: good_env_def find_campaign_def) (simp add: test_world_def test_campaign_def)
qed

lemma good_undisturbed: "undisturbed good_env"
  by (simp add: undisturbed_def good_env_def)

lemma test_remaining [simp]: "send_remaining (test_world n used days) ''k1'' = max 0 (1000 - used)"
  by (simp add: send_remaining_def test_world_def free_key_def getSendLimit_def plan_lookup_def PLAN_SEND_LIMITS_def)

theorem campaign_reaches_everyone_witness:
  "\<exists>mails w'. processCampaign good_env 0 0 ''k1'' ''c'' (test_world 120 0 []) = (Finished, mails, w') \<and> length mails = 120"
proof -
  have "int (length (valid_recipients (test_world 120 0 []) ''k1'' (test_campaign [] []))) \<le>
      send_remaining (test_world 120 0 []) ''k1''" by simp
  from campaign_reaches_everyone [OF test_launchable good_undisturbed _ this]
  obtain mails w' where "processCampaign good_env 0 0 ''k1'' ''c'' (test_world 120 0 []) = (Finished, mails, w')"
    "map fst mails = map c_email (filter (delivers good_env) (map test_contact [0..<120]))"
    by (auto simp: test_campaign_def) (metis test_recipients test_campaign_def)
  moreover have "delivers good_env = (\<lambda>r. True)" by (simp add: delivers_def good_env_def fun_eq_iff)
  ultimately have "length (map fst mails) = 120" by simp
  then show ?thesis using \<open>processCampaign good_env 0 0 ''k1'' ''c'' (test_world 120 0 []) = (Finished, mails, w')\<close> by auto
qed

theorem quota_cut_marked_sent_witness:
  "\<exists>mails w' c'. processCampaign good_env 0 0 ''k1'' ''c'' (test_world 3 999 []) = (Finished, mails, w') \<and>
     find_campaign ''k1'' ''c'' w' = Some c' \<and> ca_status c' = ''sent'' \<and> length mails \<le> 1"
  using quota_cut_marked_sent [OF test_launchable good_undisturbed, of 3 999 "[]" 0 0] by (auto simp: CHUNK_SIZE_def)

theorem campaign_within_quota_witness:
  "int (length (fst (snd (processCampaign good_env 0 0 ''k1'' ''c'' (test_world 3 999 []))))) \<le> 1"
proof -
  have "metered good_env (test_world 3 999 []) ''k1''"
    by (simp add: metered_def good_undisturbed, simp add: good_env_def test_world_def)
  from campaign_within_quota [OF this] show ?thesis by simp
qed

theorem overnight_window_never_opens_witness:
  "\<forall>polls. fst (processCampaign good_env polls 0 ''k1'' ''c'' (test_world 51 0 [''monday''])) = StillWaiting"
proof
  fix polls
  have "CHUNK_SIZE < length (valid_recipients (test_world 51 0 [''monday'']) ''k1'' (test_campaign [''monday''] []))"
    by (simp add: CHUNK_SIZE_def)
  from overnight_window_never_opens [OF test_launchable good_undisturbed _ this, of "\<lambda>tz t. ''monday''" "\<lambda>tz t. 9" polls 0]
  show "fst (processCampaign good_env polls 0 ''k1'' ''c'' (test_world 51 0 [''monday''])) = StillWaiting"
    by (auto simp: test_campaign_def good_env_def)
qed

theorem exclude_lists_without_effect_witness:
  "valid_recipients (test_world 1 0 []) ''k1'' (test_campaign [] [''x'']) \<noteq> []"
proof -
  have "valid_recipients (test_world 1 0 []) ''k1'' (test_campaign [] [''x'']) =
      valid_recipients (test_world 1 0 []) ''k1'' ((test_campaign [] [''x''])\<lparr>ca_excludeListIds := []\<rparr>)"
    by (rule exclude_lists_without_effect) (simp add: test_campaign_def)
  moreover have "(test_campaign [] [''x''])\<lparr>ca_excludeListIds := []\<rparr> = test_campaign [] []" by (simp add: test_campaign_def)
  ultimately show ?thesis by simp
qed

text \<open>A quota of one mail for 51 recipients: the second chunk pauses the campaign.\<close>

lemma test_paused:
  "\<exists>w1 c1. processCampaign good_env 0 0 ''k1'' ''c'' (test_world 51 999 []) =
     (Finished, [(c_email (test_contact 0), ''a'')], w1) \<and>
     find_campaign ''k1'' ''c'' w1 = Some c1 \<and> ca_status c1 = ''paused_quota''"
proof -
  let ?w = "launched good_env (test_world 51 999 []) ''k1'' ''c'' (test_campaign [] [])"
  let ?rs = "map test_contact [0..<51]" and ?w' = "ce_between good_env 0 ?w"
  have vs: "assign_variants good_env (test_campaign [] []) ?rs = []" by (simp add: assign_variants_def test_campaign_def)
  have id: "?w' = ?w" by (simp add: good_env_def)
  have up: "ce_up good_env k" for k by (simp add: good_env_def)
  have run: "campaign_running ?w ''k1'' ''c''" by (rule launched_running [OF test_launchable])
  have met: "metered good_env ?w ''k1''"
    using good_undisturbed by (simp add: metered_def) (simp add: good_env_def test_world_def)
  have rem: "send_remaining ?w ''k1'' = 1" using test_remaining [of 51 999 "[]"] by (simp add: send_remaining_def)
  have g: "chunk_gate ''k1'' ''c'' ?w' = Go 1" unfolding id using running_gate [OF run] by (simp add: rem)
  have chunk: "take 1 (take CHUNK_SIZE ?rs) = [test_contact 0]" by (simp add: CHUNK_SIZE_def upt_conv_Cons)
  obtain m mails w5 where r: "run_chunk good_env ''k1'' ''c'' [] 0 0 (take 1 (take CHUNK_SIZE ?rs)) ?w' = (m, mails, w5)"
    by (metis prod_cases3)
  have "set (map c_email [test_contact 0]) \<inter> set (suppressed_emails ?w') = {}"
    unfolding id using launched_audience [of "''c''" "test_world 51 999 []" good_env "''k1''" "test_campaign [] []"]
    by (simp add: same_audience_def test_world_def)
  from run_chunk_all [OF this r [unfolded chunk]]
  have mails: "m = 1" "mails = [(c_email (test_contact 0), ''a'')]"
    by (simp_all add: counted_def delivers_def good_env_def variant_of_def)
  have rem5: "send_remaining w5 ''k1'' = 0"
    using run_chunk_metered [OF met, of "''c''" "[]" 0 0 "take CHUNK_SIZE ?rs"] r by (simp add: rem id mails del: take_take)
  have run5: "campaign_running w5 ''k1'' ''c''" using run_chunk_running [OF r [unfolded id] run] .
  define w6 where "w6 = (set_campaign ''c'' (\<lambda>c. c\<lparr>ca_status := ''paused_quota''\<rparr>) w5)
    \<lparr>campaign_events := campaign_events w5 @ [(''campaign.paused_quota'', ''c'')]\<rparr>"
  have g5: "chunk_gate ''k1'' ''c'' (ce_between good_env 1 w5) = Stop w6"
    using run5 rem5 by (auto simp: chunk_gate_def campaign_running_def good_env_def w6_def)
  have after: "after_chunk good_env 0 (test_campaign [] []) (length ?rs) 0 = Some (Open (chunk_delay (test_campaign [] [])))"
    by (simp add: after_chunk_def CHUNK_SIZE_def test_campaign_def)
  have nes: "drop CHUNK_SIZE ?rs \<noteq> []" "?rs \<noteq> []" by (simp_all add: CHUNK_SIZE_def)
  have stop: "send_chunks good_env 0 ''k1'' ''c'' (test_campaign [] []) [] t (0 + 1) (0 + m) (drop CHUNK_SIZE ?rs) w5 = (Finished, [], w6)" for t
    by (rule send_chunks_Stop [OF nes(1) up]) (use g5 in simp)
  have "processCampaign good_env 0 0 ''k1'' ''c'' (test_world 51 999 []) = (Finished, mails, w6)"
    unfolding processCampaign_launchable [OF test_launchable] test_recipients vs send_chunks_Go [OF nes(2) up g r] after
    by (simp only: option.case wait_end.case stop Let_def prod.case append_Nil2)
  moreover obtain c5 where "find_campaign ''k1'' ''c'' w5 = Some c5" using run5 by (auto simp: campaign_running_def)
  ultimately show ?thesis by (auto simp: mails w6_def find_set_campaign)
qed

theorem resume_mails_again_witness:
  "\<exists>w2 mails2 w3 job. (\<exists>w1. processCampaign good_env 0 0 ''k1'' ''c'' (test_world 51 999 []) =
       (Finished, [(c_email (test_contact 0), ''a'')], w1) \<and> resume_route ''k1'' ''c'' 9 w1 = (Queued job, w2)) \<and>
     processCampaign good_env 0 9 ''k1'' ''c'' (w2\<lparr>key_rows := key_rows (test_world 51 0 [])\<rparr>) = (Finished, mails2, w3) \<and>
     c_email (test_contact 0) \<in> set (map fst mails2)"
proof -
  obtain w1 c1 where run: "processCampaign good_env 0 0 ''k1'' ''c'' (test_world 51 999 []) =
      (Finished, [(c_email (test_contact 0), ''a'')], w1)"
    and c1: "find_campaign ''k1'' ''c'' w1 = Some c1" "ca_status c1 = ''paused_quota''" using test_paused by blast
  obtain job w2 where res: "resume_route ''k1'' ''c'' 9 w1 = (Queued job, w2)" using c1 by (simp add: resume_route_def)
  have "send_remaining (w2\<lparr>key_rows := key_rows (test_world 51 0 [])\<rparr>) ''k1'' = send_remaining (test_world 51 0 []) ''k1''"
    by (simp add: send_remaining_def)
  then have "send_remaining (w2\<lparr>key_rows := key_rows (test_world 51 0 [])\<rparr>) ''k1'' \<ge>
      int (length (valid_recipients (test_world 51 999 []) ''k1'' (test_campaign [] [])))" by simp
  from resume_mails_again [OF test_launchable good_undisturbed run res good_undisturbed _ _ this]
  show ?thesis using run res by (cases job) (auto simp: good_env_def test_campaign_def)
qed
end
