(* ===== verification/Tracking.thy ===== *)
theory Tracking
  imports BotDetection Campaign
begin

text \<open>
  \<^verbatim>\<open>src/routes/track/index.ts\<close>: what an opened pixel or a followed link records. A request is
  given by the message id of its verified token; messages, events, and the open and click counters of the campaigns
  are the state. The argument \<open>up\<close> says for the queries of a handler, in their order, whether they succeed
  where the code catches the failure: the query of the fan-out check, the insertion of the event, the
  transaction that counts, and in it the look-up of the variant.
\<close>

record sent_message =
  sm_id :: string
  sm_apiKeyId :: string
  sm_to :: string
  sm_trackingToken :: "string option"
  sm_sentAt :: "int option"
  sm_status :: string

record stored_event = tracking_event +
  ev_email :: string
  ev_type :: string
  ev_campaignId :: "string option"
  ev_linkUrl :: "string option"
  ev_isLikelyBot :: bool
  ev_botReason :: "bot_reason option"

record campaign_stats =
  openCount :: nat
  openCountB :: nat
  clickCount :: nat
  clickCountB :: nat

record tracking_world =
  messages :: "sent_message list"
  events :: "stored_event list"
  variant_rows :: "recipient_row list"
  stats :: "string \<Rightarrow> campaign_stats option"

record track_request =
  tq_ip :: "string option"
  tq_userAgent :: "string option"
  tq_now :: int

definition classifyWithFanout ::
  "tracking_classification \<Rightarrow> string option \<Rightarrow> int \<Rightarrow> stored_event list option \<Rightarrow> tracking_classification" where
  "classifyWithFanout fast ip occurredAt table =
     (if isLikelyBot fast then fast
      else if checkIpFanout ip occurredAt (map_option (map tracking_event.truncate) table) then is_bot IpFanout
      else fast)"

text \<open>By primary key first, then by tracking token.\<close>

definition find_message :: "string \<Rightarrow> sent_message list \<Rightarrow> sent_message option" where
  "find_message i ms = (case List.find (\<lambda>m. sm_id m = i) ms of
     Some m \<Rightarrow> Some m | None \<Rightarrow> List.find (\<lambda>m. sm_trackingToken m = Some i) ms)"

definition campaign_of :: "sent_message \<Rightarrow> string option" where
  "campaign_of m = (case sm_trackingToken m of
     None \<Rightarrow> None
   | Some t \<Rightarrow> if CHR ''_'' \<in> set t then Some (hd (split_on (CHR ''_'') t)) else None)"

definition classify_request :: "(nat \<Rightarrow> bool) \<Rightarrow> track_request \<Rightarrow> sent_message \<Rightarrow> tracking_world \<Rightarrow> tracking_classification" where
  "classify_request up rq m w =
     classifyWithFanout
       (classifyTrackingEvent \<lparr>t_ip = tq_ip rq, t_userAgent = tq_userAgent rq, t_sentAt = sm_sentAt m,
          t_occurredAt = tq_now rq\<rparr>)
       (tq_ip rq) (tq_now rq) (if up 0 then Some (events w) else None)"

definition record_event :: "(nat \<Rightarrow> bool) \<Rightarrow> track_request \<Rightarrow> string \<Rightarrow> string option \<Rightarrow> sent_message \<Rightarrow>
    tracking_classification \<Rightarrow> tracking_world \<Rightarrow> tracking_world" where
  "record_event up rq type url m cl w =
     (if \<not> up 1 then w
      else w\<lparr>events := events w @ [\<lparr>te_ip = tq_ip rq, te_occurredAt = tq_now rq, te_sendMessageId = Some (sm_id m),
        ev_email = sm_to m, ev_type = type,
        ev_campaignId = (if truthy (campaign_of m) then campaign_of m else None), ev_linkUrl = url,
        ev_isLikelyBot = isLikelyBot cl, ev_botReason = botReason cl\<rparr>]\<rparr>)"

definition is_variant_b :: "bool \<Rightarrow> string \<Rightarrow> string \<Rightarrow> tracking_world \<Rightarrow> bool" where
  "is_variant_b ok cid email w = (ok \<and>
     (case List.find (\<lambda>r. rr_campaignId r = cid \<and> rr_email r = email) (variant_rows w) of
        None \<Rightarrow> False | Some r \<Rightarrow> rr_variant r = ''b''))"

definition bump :: "string \<Rightarrow> (campaign_stats \<Rightarrow> campaign_stats) \<Rightarrow> tracking_world \<Rightarrow> tracking_world" where
  "bump cid f w = w\<lparr>stats := (stats w)(cid := map_option f (stats w cid))\<rparr>"

definition count_open :: "(nat \<Rightarrow> bool) \<Rightarrow> sent_message \<Rightarrow> tracking_world \<Rightarrow> tracking_world" where
  "count_open up m w =
     (if \<not> up 2 then w
      else
        let w1 = w\<lparr>messages := map (\<lambda>x. if sm_id x = sm_id m then x\<lparr>sm_status := ''opened''\<rparr> else x) (messages w)\<rparr>
        in case campaign_of m of
             None \<Rightarrow> w1
           | Some cid \<Rightarrow>
               if cid = [] then w1
               else if is_variant_b (up 3) cid (sm_to m) w1 then bump cid (\<lambda>s. s\<lparr>openCountB := openCountB s + 1\<rparr>) w1
               else bump cid (\<lambda>s. s\<lparr>openCount := openCount s + 1\<rparr>) w1)"

definition count_click :: "(nat \<Rightarrow> bool) \<Rightarrow> sent_message \<Rightarrow> tracking_world \<Rightarrow> tracking_world" where
  "count_click up m w =
     (case campaign_of m of
        None \<Rightarrow> w
      | Some cid \<Rightarrow>
          if cid = [] \<or> \<not> up 2 then w
          else if is_variant_b (up 3) cid (sm_to m) w then bump cid (\<lambda>s. s\<lparr>clickCountB := clickCountB s + 1\<rparr>) w
          else bump cid (\<lambda>s. s\<lparr>clickCount := clickCount s + 1\<rparr>) w)"

text \<open>\<open>GET /track/open\<close>; the token carries the id, \<open>None\<close> when it does not verify.\<close>

definition track_open :: "(nat \<Rightarrow> bool) \<Rightarrow> track_request \<Rightarrow> string option \<Rightarrow> tracking_world \<Rightarrow> tracking_world" where
  "track_open up rq payload w =
     (case payload of
        None \<Rightarrow> w
      | Some i \<Rightarrow>
          (case find_message i (messages w) of
             None \<Rightarrow> w
           | Some m \<Rightarrow>
               let cl = classify_request up rq m w;
                   w1 = record_event up rq ''open'' None m cl w
               in if isLikelyBot cl then w1 else count_open up m w1))"

text \<open>\<open>GET /track/click\<close>: the redirect target and the new state.\<close>

definition track_click :: "(nat \<Rightarrow> bool) \<Rightarrow> track_request \<Rightarrow> (string \<times> string) option \<Rightarrow> tracking_world \<Rightarrow> string \<times> tracking_world" where
  "track_click up rq payload w =
     (case payload of
        None \<Rightarrow> (''https://continuumapi.com'', w)
      | Some (i, url) \<Rightarrow>
          (url, case find_message i (messages w) of
             None \<Rightarrow> w
           | Some m \<Rightarrow>
               let cl = classify_request up rq m w;
                   w1 = record_event up rq ''click'' (Some url) m cl w
               in if isLikelyBot cl then w1 else count_click up m w1))"

subsection \<open>Histories of requests\<close>

datatype track_op = OpenReq "nat \<Rightarrow> bool" track_request "string option"
  | ClickReq "nat \<Rightarrow> bool" track_request "(string \<times> string) option"

fun track_step :: "track_op \<Rightarrow> tracking_world \<Rightarrow> tracking_world" where
  "track_step (OpenReq up rq p) w = track_open up rq p w"
| "track_step (ClickReq up rq p) w = snd (track_click up rq p w)"

abbreviation track_run :: "track_op list \<Rightarrow> tracking_world \<Rightarrow> tracking_world" where
  "track_run ops w \<equiv> fold track_step ops w"

lemma bump_simps [simp]:
  "events (bump cid f w) = events w" "messages (bump cid f w) = messages w" "variant_rows (bump cid f w) = variant_rows w"
  by (simp_all add: bump_def)

lemma count_events [simp]:
  "events (count_open up m w) = events w" "events (count_click up m w) = events w"
  by (simp_all add: count_open_def count_click_def Let_def split: option.split)

lemma count_ids [simp]:
  "map sm_id (messages (count_open up m w)) = map sm_id (messages w)"
  "messages (count_click up m w) = messages w"
  by (auto simp: count_open_def count_click_def Let_def split: option.split)

lemma record_simps [simp]:
  "messages (record_event up rq ty url m cl w) = messages w" "stats (record_event up rq ty url m cl w) = stats w"
  by (simp_all add: record_event_def)

lemma find_message_in: "find_message i ms = Some m \<Longrightarrow> m \<in> set ms"
  by (auto simp: find_message_def find_Some_iff split: option.splits)

text \<open>Every event belongs to a message row, by its primary key.\<close>

definition events_of_messages :: "tracking_world \<Rightarrow> bool" where
  "events_of_messages w \<longleftrightarrow> te_sendMessageId ` set (events w) \<subseteq> Some ` sm_id ` set (messages w)"

lemma ids_eq: "map sm_id ms = map sm_id ns \<Longrightarrow> sm_id ` set ms = sm_id ` set ns"
  by (metis list.set_map)

lemma track_step_ids: "map sm_id (messages (track_step op w)) = map sm_id (messages w)"
  by (cases op) (auto simp: track_open_def track_click_def Let_def split: option.split prod.split)

lemma record_event_inv:
  "m \<in> set (messages w) \<Longrightarrow> events_of_messages w \<Longrightarrow> events_of_messages (record_event up rq ty url m cl w)"
  by (auto simp: events_of_messages_def record_event_def)

lemma track_step_inv:
  assumes "events_of_messages w"
  shows "events_of_messages (track_step op w)"
proof (cases op)
  case (OpenReq up rq p)
  have "events_of_messages w' \<Longrightarrow> events_of_messages (count_open up m w')" for m w'
    using ids_eq [OF count_ids(1), of up m w'] by (simp add: events_of_messages_def)
  then show ?thesis
    using assms by (auto simp: OpenReq track_open_def Let_def record_event_inv find_message_in split: option.split)
next
  case (ClickReq up rq p)
  have "events_of_messages w' \<Longrightarrow> events_of_messages (count_click up m w')" for m w'
    by (simp add: events_of_messages_def)
  then show ?thesis
    using assms by (auto simp: ClickReq track_click_def Let_def record_event_inv find_message_in split: option.split)
qed

subsection \<open>What the open counters count\<close>

definition counted_opens :: "string \<Rightarrow> tracking_world \<Rightarrow> nat" where
  "counted_opens cid w = (case stats w cid of None \<Rightarrow> 0 | Some s \<Rightarrow> openCount s + openCountB s)"

definition human_opens :: "string \<Rightarrow> tracking_world \<Rightarrow> nat" where
  "human_opens cid w = length (filter (\<lambda>e. ev_type e = ''open'' \<and> \<not> ev_isLikelyBot e \<and> ev_campaignId e = Some cid) (events w))"

lemma counted_open:
  "up 2 \<Longrightarrow> stats w cid \<noteq> None \<Longrightarrow> cid \<noteq> [] \<Longrightarrow>
   counted_opens cid (count_open up m w) = counted_opens cid w + (if campaign_of m = Some cid then 1 else 0) \<and>
   stats (count_open up m w) cid \<noteq> None"
  by (auto simp: counted_opens_def count_open_def bump_def Let_def split: option.splits)

lemma counted_click:
  "counted_opens cid (count_click up m w) = counted_opens cid w \<and>
   (stats (count_click up m w) cid = None) = (stats w cid = None)"
  by (auto simp: counted_opens_def count_click_def bump_def split: option.splits)

lemma human_record:
  "up 1 \<Longrightarrow> cid \<noteq> [] \<Longrightarrow> human_opens cid (record_event up rq ty url m cl w) = human_opens cid w +
     (if ty = ''open'' \<and> \<not> isLikelyBot cl \<and> campaign_of m = Some cid then 1 else 0)"
  by (auto simp: human_opens_def record_event_def truthy_def split: option.splits)

fun op_up :: "track_op \<Rightarrow> nat \<Rightarrow> bool" where
  "op_up (OpenReq up rq p) = up"
| "op_up (ClickReq up rq p) = up"

lemma track_step_opens:
  assumes "op_up op = (\<lambda>k. True)" and "cid \<noteq> []" and "stats w cid \<noteq> None"
  shows "counted_opens cid (track_step op w) + human_opens cid w = counted_opens cid w + human_opens cid (track_step op w) \<and>
    stats (track_step op w) cid \<noteq> None"
proof (cases op)
  case (OpenReq up rq p)
  with assms(1) have up: "up = (\<lambda>k. True)" by simp
  have rec: "counted_opens cid (record_event up rq ty url m cl w) = counted_opens cid w" for ty url m cl
    by (simp add: counted_opens_def)
  have "human_opens cid (count_open up m w') = human_opens cid w'" for m w' by (simp add: human_opens_def)
  then show ?thesis
    using assms(2,3) counted_open [of up "record_event up rq ''open'' None m cl w" cid m for m cl]
    by (auto simp: OpenReq track_open_def Let_def up human_record rec [unfolded up] split: option.split)
next
  case (ClickReq up rq p)
  with assms(1) have up: "up = (\<lambda>k. True)" by simp
  have "human_opens cid (count_click up m w') = human_opens cid w'" for m w' by (simp add: human_opens_def)
  moreover have "counted_opens cid (record_event up rq ty url m cl w) = counted_opens cid w" for ty url m cl
    by (simp add: counted_opens_def)
  ultimately show ?thesis
    using assms(2,3) by (auto simp: ClickReq track_click_def Let_def up human_record counted_click simp del: not_None_eq split: option.split)
qed

text \<open>C37: over any history of requests that reach the database, the two open counters of a campaign grow by
  exactly the number of human open events recorded for it: bot opens are never counted, and a recipient who
  opens a mail several times is counted each time.\<close>

theorem open_counters_exact:
  assumes "map op_up ops = replicate (length ops) (\<lambda>k. True)" and "cid \<noteq> []" and "stats w cid \<noteq> None"
  shows "counted_opens cid (track_run ops w) + human_opens cid w = counted_opens cid w + human_opens cid (track_run ops w)"
  using assms
proof (induction ops arbitrary: w)
  case (Cons op ops)
  from Cons.prems have step: "counted_opens cid (track_step op w) + human_opens cid w =
      counted_opens cid w + human_opens cid (track_step op w)" "stats (track_step op w) cid \<noteq> None"
    using track_step_opens [of op cid w] by auto
  from Cons.IH [OF _ Cons.prems(2) step(2)] Cons.prems step(1) show ?case by simp
qed simp

definition one_message :: tracking_world where
  "one_message = \<lparr>messages = [\<lparr>sm_id = ''m1'', sm_apiKeyId = ''k1'', sm_to = ''a@b.de'', sm_trackingToken = Some ''c1_a@b.de'',
     sm_sentAt = Some 0, sm_status = ''sent''\<rparr>], events = [], variant_rows = [],
     stats = [''c1'' \<mapsto> \<lparr>openCount = 0, openCountB = 0, clickCount = 0, clickCountB = 0\<rparr>]\<rparr>"

definition open_at :: "int \<Rightarrow> track_op" where
  "open_at t = OpenReq (\<lambda>k. True) \<lparr>tq_ip = Some ''9.9.9.9'', tq_userAgent = Some ''Mozilla'', tq_now = t\<rparr> (Some ''m1'')"

theorem open_counters_exact_witness:
  "counted_opens ''c1'' (track_run [open_at 5000, open_at 9000] one_message) = 2"
proof -
  have "human_opens ''c1'' (track_run [open_at 5000, open_at 9000] one_message) = 2" by code_simp
  with open_counters_exact [of "[open_at 5000, open_at 9000]" "''c1''" one_message] show ?thesis
    by (simp add: open_at_def one_message_def human_opens_def counted_opens_def)
qed
end
