(* ===== verification/Mailboxes.thy ===== *)
theory Mailboxes
  imports TtlCache "HOL-Library.Multiset"
begin

text \<open>
  The mailbox rows that outreach and warm-up share, and \<^verbatim>\<open>src/lib/espMatch.ts\<close>: which mail
  provider a recipient uses, from the MX hosts of the domain with an hour of cache, and the ranking of
  mailboxes by that provider. The resolver is a parameter (\<open>None\<close> is a rejected promise).
\<close>

record mailbox =
  mx_id :: string
  mx_apiKeyId :: string
  mx_type :: string
  mx_host :: "string option"
  mx_username :: string
  mx_passwordEnc :: "string option"
  mx_oauthTokenEnc :: "string option"
  mx_sentToday :: int
  mx_dailyLimit :: int
  mx_sentTodayResetAt :: int
  mx_status :: string
  mx_isHousePool :: bool

definition update_mailbox :: "string \<Rightarrow> (mailbox \<Rightarrow> mailbox) \<Rightarrow> mailbox list \<Rightarrow> mailbox list" where
  "update_mailbox i f ms = map (\<lambda>m. if mx_id m = i then f m else m) ms"

subsection \<open>Provider detection\<close>

datatype esp_type = Google | Microsoft | Yahoo | OtherEsp

definition MX_PATTERNS :: "(string list \<times> esp_type) list" where
  "MX_PATTERNS =
     [([''google.com'', ''googlemail.com'', ''gmail.com''], Google),
      ([''outlook.com'', ''hotmail.com'', ''live.com'', ''microsoft.com''], Microsoft),
      ([''yahoo.com'', ''yahoodns.net'', ''ymail.com''], Yahoo)]"

definition ESP_CACHE_TTL_MS :: int where "ESP_CACHE_TTL_MS = 3600 * 1000"

type_synonym esp_cache = "string \<Rightarrow> (esp_type \<times> int) option"

definition esp_cached :: "string \<Rightarrow> int \<Rightarrow> esp_cache \<Rightarrow> esp_type option" where
  "esp_cached dmn now c = (case c dmn of
     None \<Rightarrow> None | Some (esp, ts) \<Rightarrow> if now - ts < ESP_CACHE_TTL_MS then Some esp else None)"

definition esp_store :: "string \<Rightarrow> esp_type \<Rightarrow> int \<Rightarrow> esp_cache \<Rightarrow> esp_cache" where
  "esp_store dmn esp now c = c(dmn \<mapsto> (esp, now))"

text \<open>The loop over the patterns; both sides are in lower case.\<close>

definition esp_of_hosts :: "string list \<Rightarrow> esp_type" where
  "esp_of_hosts exchanges =
     (let mxHosts = join_with '' '' (map js_lower exchanges)
      in case List.find (\<lambda>(lits, esp). list_ex (\<lambda>l. has_sub l mxHosts) lits) MX_PATTERNS of
           None \<Rightarrow> OtherEsp | Some (lits, esp) \<Rightarrow> esp)"

definition detectESP :: "(string \<Rightarrow> string list option) \<Rightarrow> int \<Rightarrow> string \<Rightarrow> esp_cache \<Rightarrow> esp_type \<times> esp_cache" where
  "detectESP resolveMx now email c =
     (case tl (split_on (CHR ''@'') email) of
        [] \<Rightarrow> (OtherEsp, c)
      | d # _ \<Rightarrow>
          let dmn = js_lower d in
          if dmn = [] then (OtherEsp, c)
          else case esp_cached dmn now c of
            Some esp \<Rightarrow> (esp, c)
          | None \<Rightarrow>
              (case resolveMx dmn of
                 None \<Rightarrow> (OtherEsp, c)
               | Some exchanges \<Rightarrow> let esp = esp_of_hosts exchanges in (esp, esp_store dmn esp now c)))"

interpretation esp: ttl_cache "\<lambda>d t c. (esp_cached d t c, c)" esp_store
  "\<lambda>e. ESP_CACHE_TTL_MS - 1" "\<lambda>d. d" "\<lambda>d e. e" Map.empty "\<lambda>c. True"
  by unfold_locales (auto simp: esp_cached_def esp_store_def)

subsection \<open>Ranking\<close>

definition esp_hints :: "esp_type \<Rightarrow> string list" where
  "esp_hints esp = (case esp of
     Google \<Rightarrow> [''gmail'', ''google''] | Microsoft \<Rightarrow> [''outlook'', ''microsoft'', ''hotmail'', ''live'']
   | Yahoo \<Rightarrow> [''yahoo'', ''ymail''] | OtherEsp \<Rightarrow> [])"

definition hint_matches :: "esp_type \<Rightarrow> mailbox \<Rightarrow> bool" where
  "hint_matches esp m \<longleftrightarrow>
     list_ex (\<lambda>h. has_sub h (js_lower (mx_username m)) \<or> has_sub h (js_lower (mx_type m))) (esp_hints esp)"

definition rankMailboxesByESP :: "mailbox list \<Rightarrow> esp_type \<Rightarrow> mailbox list" where
  "rankMailboxesByESP ms esp =
     (if esp_hints esp = [] then ms
      else
        let matched = filter (hint_matches esp) ms
        in matched @ filter (\<lambda>m. m \<notin> set matched) ms)"

text \<open>The ranking keeps every mailbox exactly once and moves those of the recipient's provider to the
  front, both groups in their old order.\<close>

lemma rankMailboxesByESP_partition:
  "rankMailboxesByESP ms esp = filter (hint_matches esp) ms @ filter (\<lambda>m. \<not> hint_matches esp m) ms \<and>
   mset (rankMailboxesByESP ms esp) = mset ms"
proof -
  have "filter (\<lambda>m. m \<notin> set (filter (hint_matches esp) ms)) ms = filter (\<lambda>m. \<not> hint_matches esp m) ms"
    by (rule filter_cong) auto
  moreover have "esp_hints esp = [] \<Longrightarrow> \<not> hint_matches esp m" for m by (simp add: hint_matches_def)
  ultimately show ?thesis by (auto simp: rankMailboxesByESP_def Let_def)
qed

lemma set_rank [simp]: "set (rankMailboxesByESP ms esp) = set ms"
  by (auto simp: rankMailboxesByESP_partition)

text \<open>A detection that is served from the cache or from a resolver that did not fail names the provider the
  MX hosts of the domain had within the last hour.\<close>

lemma esp_cache_sound:
  "esp_cached d t (cache_run (\<lambda>d t c. (esp_cached d t c, c)) esp_store Map.empty ops) = Some x \<Longrightarrow>
     \<exists>now. Put d x now \<in> set ops \<and> t < now + 3600000"
  using esp.hit_from_history [of d t ops x] by (auto simp: ESP_CACHE_TTL_MS_def)

end
