(* ===== verification/Sequences.thy ===== *)
theory Sequences
  imports Tracking Mailboxes
begin

text \<open>
  \<^verbatim>\<open>src/workers/sequenceWorker.ts\<close>: the tick that moves every due enrollment of an outreach
  sequence by one step. The state holds the sequences, the enrollments, the mailboxes, the suppression
  list, the provider cache, the messages and tracking events of \<open>Tracking\<close>, and a log of the
  accepted mails. The clock of a time zone, the resolver, the ids the database generates and the success of the
  operations whose failure the code catches are parameters (\<open>sequence_env\<close>); the other queries of
  a tick succeed, and no time passes during one. The rendering of a mail is left out.
\<close>

subsection \<open>State\<close>

record seq_step =
  ss_id :: string
  ss_delayDays :: int
  ss_delayHours :: int
  ss_type :: string
  ss_condition :: string

record sequence =
  sq_id :: string
  sq_apiKeyId :: string
  sq_mailboxId :: "string option"
  sq_status :: string
  sq_stopOnOpen :: bool
  sq_stopOnClick :: bool
  sq_sendDays :: "string list"
  sq_sendStartHour :: int
  sq_sendEndHour :: int
  sq_timezone :: string
  sq_parentSequenceId :: "string option"
  sq_triggerEvent :: "string option"
  sq_triggerDelayDays :: int
  sq_steps :: "seq_step list"

record enrollment =
  en_id :: string
  en_sequenceId :: string
  en_email :: string
  en_mailboxId :: "string option"
  en_status :: string
  en_currentStep :: nat
  en_nextSendAt :: "int option"
  en_completedAt :: "int option"
  en_repliedAt :: "int option"

record sequence_world =
  sequences :: "sequence list"
  enrollments :: "enrollment list"
  pool :: "mailbox list"
  suppressions :: "(string \<times> string) list"
  espCache :: esp_cache
  tracked :: tracking_world
  seq_sent :: "(string \<times> nat) list"

text \<open>For an enrollment: 0 the send, 1 the mailbox counter, 2 the registration of the message, 3 the update
  of the enrollment after the send.\<close>

record sequence_env =
  se_clock :: "string \<Rightarrow> int \<Rightarrow> (string \<times> int) option"
  se_resolveMx :: "string \<Rightarrow> string list option"
  se_new_id :: "string \<Rightarrow> string"
  se_up :: "string \<Rightarrow> nat \<Rightarrow> bool"

definition update_enrollment :: "string \<Rightarrow> (enrollment \<Rightarrow> enrollment) \<Rightarrow> sequence_world \<Rightarrow> sequence_world" where
  "update_enrollment i f w = w\<lparr>enrollments := map (\<lambda>e. if en_id e = i then f e else e) (enrollments w)\<rparr>"

definition MS_PER_HOUR :: int where "MS_PER_HOUR = 60 * 60 * 1000"

subsection \<open>Conditions\<close>

text \<open>The step number is written with its sign: the step before the first one is -1.\<close>

definition tracking_id :: "string \<Rightarrow> int \<Rightarrow> string \<Rightarrow> string" where
  "tracking_id sid n email = sid @ ''_step'' @ show_int n @ ''_'' @ email"

definition human_event :: "sequence_world \<Rightarrow> string \<Rightarrow> string \<Rightarrow> bool" where
  "human_event w tid type =
     list_ex (\<lambda>e. te_sendMessageId e = Some tid \<and> ev_type e = type \<and> \<not> ev_isLikelyBot e) (events (tracked w))"

definition evaluateCondition :: "sequence_world \<Rightarrow> enrollment \<Rightarrow> seq_step \<Rightarrow> bool" where
  "evaluateCondition w en st =
     (let tid = tracking_id (en_sequenceId en) (int (en_currentStep en) - 1) (en_email en); c = ss_condition st in
      if c = ''always'' then True
      else if c = ''if_not_opened'' then \<not> human_event w tid ''open''
      else if c = ''if_opened'' then human_event w tid ''open''
      else if c = ''if_not_clicked'' then \<not> human_event w tid ''click''
      else if c = ''if_not_replied'' then en_repliedAt en = None
      else True)"

definition isWithinSendWindow :: "(string \<Rightarrow> int \<Rightarrow> (string \<times> int) option) \<Rightarrow> sequence \<Rightarrow> int \<Rightarrow> bool" where
  "isWithinSendWindow clock sq now =
     (case clock (if sq_timezone sq = [] then ''UTC'' else sq_timezone sq) now of
        None \<Rightarrow> True
      | Some (day, h) \<Rightarrow>
          let hour = (if h = 24 then 0 else h) in
          if day \<notin> set (sq_sendDays sq) then False
          else \<not> (hour < sq_sendStartHour sq \<or> hour \<ge> sq_sendEndHour sq))"

subsection \<open>Subsequences\<close>

definition enroll_in :: "sequence_env \<Rightarrow> int \<Rightarrow> string \<Rightarrow> sequence \<Rightarrow> sequence_world \<Rightarrow> sequence_world" where
  "enroll_in env now email sub w =
     (if list_ex (\<lambda>e. en_sequenceId e = sq_id sub \<and> en_email e = email) (enrollments w) then w
      else w\<lparr>enrollments := enrollments w @ [\<lparr>en_id = se_new_id env (sq_id sub @ email), en_sequenceId = sq_id sub,
        en_email = email, en_mailboxId = None, en_status = ''active'', en_currentStep = 0,
        en_nextSendAt = (if sq_steps sub \<noteq> [] then Some (now + sq_triggerDelayDays sub * 24 * MS_PER_HOUR) else None),
        en_completedAt = None, en_repliedAt = None\<rparr>]\<rparr>)"

definition trigger_subsequences :: "sequence_env \<Rightarrow> int \<Rightarrow> string list \<Rightarrow> sequence \<Rightarrow> string \<Rightarrow> sequence_world \<Rightarrow> sequence_world" where
  "trigger_subsequences env now triggers sq email w =
     fold (enroll_in env now email)
       (filter (\<lambda>s. sq_parentSequenceId s = Some (sq_id sq) \<and> (\<exists>t \<in> set triggers. sq_triggerEvent s = Some t)) (sequences w)) w"

definition complete_enrollment :: "int \<Rightarrow> enrollment \<Rightarrow> enrollment" where
  "complete_enrollment now e = e\<lparr>en_status := ''completed'', en_completedAt := Some now\<rparr>"

subsection \<open>The mailbox of a mail\<close>

definition usable_mailbox :: "string \<Rightarrow> mailbox \<Rightarrow> bool" where
  "usable_mailbox key m \<longleftrightarrow> mx_apiKeyId m = key \<and> mx_status m = ''active'' \<and> mx_host m \<noteq> None \<and>
     (mx_passwordEnc m \<noteq> None \<or> mx_oauthTokenEnc m \<noteq> None)"

definition select_mailbox :: "mailbox list \<Rightarrow> sequence \<Rightarrow> enrollment \<Rightarrow> nat \<Rightarrow> esp_type \<Rightarrow> mailbox option" where
  "select_mailbox ms sq en idx recipientESP =
     (let available = filter (\<lambda>m. mx_sentToday m < mx_dailyLimit m) (filter (usable_mailbox (sq_apiKeyId sq)) ms) in
      case available of
        [] \<Rightarrow> None
      | m0 # _ \<Rightarrow>
          let thread = (case en_mailboxId en of
                None \<Rightarrow> None
              | Some i \<Rightarrow> if i = [] then None else List.find (\<lambda>m. mx_id m = i) available)
          in if thread \<noteq> None \<and> idx > 0 then thread
             else
               let ranked = rankMailboxesByESP available recipientESP;
                   preferred = (case sq_mailboxId sq of
                     Some i \<Rightarrow> if i \<noteq> [] \<and> list_ex (\<lambda>m. mx_id m = i) available then Some i else map_option mx_id (Some (hd ranked))
                   | None \<Rightarrow> map_option mx_id (Some (hd ranked)))
               in case List.find (\<lambda>m. Some (mx_id m) = preferred) available of
                    Some m \<Rightarrow> Some m | None \<Rightarrow> Some m0)"

text \<open>Whether the own mailbox is used: empty strings count as absent.\<close>

definition via_mailbox :: "mailbox \<Rightarrow> bool" where
  "via_mailbox m \<longleftrightarrow> truthy (mx_host m) \<and> (truthy (mx_passwordEnc m) \<or> truthy (mx_oauthTokenEnc m))"

subsection \<open>One enrollment\<close>

definition next_send_at :: "int \<Rightarrow> seq_step list \<Rightarrow> nat \<Rightarrow> int option" where
  "next_send_at now steps i =
     (if i < length steps then Some (now + ss_delayDays (steps ! i) * 24 * MS_PER_HOUR + ss_delayHours (steps ! i) * MS_PER_HOUR)
      else None)"

definition deliver_step :: "sequence_env \<Rightarrow> int \<Rightarrow> sequence \<Rightarrow> enrollment \<Rightarrow> nat \<Rightarrow> mailbox option \<Rightarrow> sequence_world \<Rightarrow> sequence_world" where
  "deliver_step env now sq en idx mb w =
     (let w1 = w\<lparr>seq_sent := seq_sent w @ [(en_id en, idx)]\<rparr> in
      case (if mb \<noteq> None \<and> via_mailbox (the mb) then mb else None) of
        Some m \<Rightarrow>
          if se_up env (en_id en) 1 then
            w1\<lparr>pool := update_mailbox (mx_id m) (\<lambda>m. m\<lparr>mx_sentToday := mx_sentToday m + 1\<rparr>) (pool w1)\<rparr>
          else w1
      | None \<Rightarrow>
          if se_up env (en_id en) 2 then
            w1\<lparr>tracked := (tracked w1)\<lparr>messages := messages (tracked w1) @
              [\<lparr>sm_id = se_new_id env (en_id en), sm_apiKeyId = sq_apiKeyId sq, sm_to = en_email en, sm_trackingToken = None,
                sm_sentAt = Some now, sm_status = ''sent''\<rparr>]\<rparr>\<rparr>
          else w1)"

definition send_step :: "sequence_env \<Rightarrow> int \<Rightarrow> sequence \<Rightarrow> enrollment \<Rightarrow> nat \<Rightarrow> sequence_world \<Rightarrow> sequence_world" where
  "send_step env now sq en idx w =
     (let (esp, cache) = detectESP (se_resolveMx env) now (en_email en) (espCache w);
          w0 = w\<lparr>espCache := cache\<rparr>;
          mb = select_mailbox (pool w) sq en idx esp
      in if \<not> se_up env (en_id en) 0 then w0
         else
           let w1 = deliver_step env now sq en idx mb w0;
               isLast = (idx + 1 \<ge> length (sq_steps sq));
               advance = (\<lambda>e. let e1 = e\<lparr>en_currentStep := idx + 1, en_nextSendAt := next_send_at now (sq_steps sq) (idx + 1)\<rparr>;
                   e2 = (if idx = 0 \<and> mb \<noteq> None then e1\<lparr>en_mailboxId := map_option mx_id mb\<rparr> else e1)
                 in if isLast then complete_enrollment now e2 else e2)
           in if \<not> se_up env (en_id en) 3 then w1
              else
                let w2 = update_enrollment (en_id en) advance w1
                in if isLast then trigger_subsequences env now [''NOT_REPLIED_IN_DAYS'', ''NOT_OPENED_IN_DAYS''] sq (en_email en) w2
                   else w2)"

definition process_enrollment :: "sequence_env \<Rightarrow> int \<Rightarrow> (string \<times> string) list \<Rightarrow> enrollment \<Rightarrow> sequence_world \<Rightarrow> sequence_world" where
  "process_enrollment env now suppressed en w =
     (case List.find (\<lambda>s. sq_id s = en_sequenceId en) (sequences w) of
        None \<Rightarrow> w
      | Some sq \<Rightarrow>
          let complete = update_enrollment (en_id en) (complete_enrollment now);
              prev = tracking_id (sq_id sq) (int (en_currentStep en) - 1) (en_email en);
              idx = en_currentStep en
          in if sq_status sq \<noteq> ''active'' then w
             else if truthy (map_of suppressed (en_email en)) then
               update_enrollment (en_id en) (\<lambda>e. e\<lparr>en_completedAt := Some now,
                 en_status := (if map_of suppressed (en_email en) = Some ''unsubscribed'' then ''unsubscribed'' else ''bounced'')\<rparr>) w
             else if \<not> isWithinSendWindow (se_clock env) sq now then w
             else if sq_stopOnOpen sq \<and> human_event w prev ''open'' then
               trigger_subsequences env now [''OPENED''] sq (en_email en) (complete w)
             else if sq_stopOnClick sq \<and> human_event w prev ''click'' then
               trigger_subsequences env now [''CLICKED''] sq (en_email en) (complete w)
             else if idx \<ge> length (sq_steps sq) then complete w
             else if \<not> evaluateCondition w en (sq_steps sq ! idx) then
               update_enrollment (en_id en) (\<lambda>e. e\<lparr>en_currentStep := idx + 1,
                 en_nextSendAt := next_send_at now (sq_steps sq) (idx + 1)\<rparr>) w
             else if ss_type (sq_steps sq ! idx) \<noteq> ''email'' then
               update_enrollment (en_id en) (\<lambda>e. e\<lparr>en_status := ''awaiting_manual_action''\<rparr>) w
             else send_step env now sq en idx w)"

subsection \<open>The tick\<close>

definition is_due :: "int \<Rightarrow> enrollment \<Rightarrow> bool" where
  "is_due now e \<longleftrightarrow> en_status e = ''active'' \<and> (case en_nextSendAt e of None \<Rightarrow> False | Some t \<Rightarrow> t \<le> now)"

definition processSequenceTick :: "sequence_env \<Rightarrow> int \<Rightarrow> sequence_world \<Rightarrow> sequence_world" where
  "processSequenceTick env now w =
     fold (process_enrollment env now (suppressions w)) (take 100 (filter (is_due now) (enrollments w))) w"

subsection \<open>What a step changes\<close>

lemma update_enrollment_simps [simp]:
  "sequences (update_enrollment i f w) = sequences w" "pool (update_enrollment i f w) = pool w"
  "tracked (update_enrollment i f w) = tracked w" "seq_sent (update_enrollment i f w) = seq_sent w"
  "suppressions (update_enrollment i f w) = suppressions w"
  by (simp_all add: update_enrollment_def)

lemma enroll_in_simps [simp]:
  "sequences (enroll_in env now e sub w) = sequences w" "pool (enroll_in env now e sub w) = pool w"
  "tracked (enroll_in env now e sub w) = tracked w" "seq_sent (enroll_in env now e sub w) = seq_sent w"
  "suppressions (enroll_in env now e sub w) = suppressions w"
  by (simp_all add: enroll_in_def)

lemma fold_enroll_in:
  "sequences (fold (enroll_in env now e) subs w) = sequences w \<and> pool (fold (enroll_in env now e) subs w) = pool w \<and>
   tracked (fold (enroll_in env now e) subs w) = tracked w \<and> seq_sent (fold (enroll_in env now e) subs w) = seq_sent w \<and>
   suppressions (fold (enroll_in env now e) subs w) = suppressions w"
  by (induction subs arbitrary: w) simp_all

lemma trigger_simps [simp]:
  "sequences (trigger_subsequences env now ts sq e w) = sequences w"
  "pool (trigger_subsequences env now ts sq e w) = pool w"
  "tracked (trigger_subsequences env now ts sq e w) = tracked w"
  "seq_sent (trigger_subsequences env now ts sq e w) = seq_sent w"
  "suppressions (trigger_subsequences env now ts sq e w) = suppressions w"
  by (simp_all add: trigger_subsequences_def fold_enroll_in)

text \<open>The mails of a tick: the due enrollments whose step is due and is accepted by the transport.\<close>

definition mailed :: "sequence_env \<Rightarrow> int \<Rightarrow> (string \<times> string) list \<Rightarrow> sequence_world \<Rightarrow> enrollment \<Rightarrow> bool" where
  "mailed env now suppressed w en \<longleftrightarrow>
     (case List.find (\<lambda>s. sq_id s = en_sequenceId en) (sequences w) of
        None \<Rightarrow> False
      | Some sq \<Rightarrow>
          let prev = tracking_id (sq_id sq) (int (en_currentStep en) - 1) (en_email en); idx = en_currentStep en in
          sq_status sq = ''active'' \<and> \<not> truthy (map_of suppressed (en_email en)) \<and>
          isWithinSendWindow (se_clock env) sq now \<and>
          \<not> (sq_stopOnOpen sq \<and> human_event w prev ''open'') \<and> \<not> (sq_stopOnClick sq \<and> human_event w prev ''click'') \<and>
          idx < length (sq_steps sq) \<and> evaluateCondition w en (sq_steps sq ! idx) \<and>
          ss_type (sq_steps sq ! idx) = ''email'' \<and> se_up env (en_id en) 0)"

lemma send_step_log:
  "seq_sent (send_step env now sq en idx w) = seq_sent w @ (if se_up env (en_id en) 0 then [(en_id en, idx)] else [])"
  by (auto simp: send_step_def deliver_step_def Let_def split: prod.split option.split)

lemma send_step_sequences: "sequences (send_step env now sq en idx w) = sequences w"
  by (auto simp: send_step_def deliver_step_def Let_def split: prod.split option.split)

lemma send_step_events: "events (tracked (send_step env now sq en idx w)) = events (tracked w)"
  by (auto simp: send_step_def deliver_step_def Let_def split: prod.split option.split)

lemma send_step_messages:
  "\<exists>ms. messages (tracked (send_step env now sq en idx w)) = messages (tracked w) @ ms \<and> sm_id ` set ms \<subseteq> range (se_new_id env)"
  by (auto simp: send_step_def deliver_step_def Let_def split: prod.split option.split)

lemma process_log:
  "seq_sent (process_enrollment env now sp en w) =
     seq_sent w @ (if mailed env now sp w en then [(en_id en, en_currentStep en)] else [])"
  by (auto simp: process_enrollment_def mailed_def Let_def send_step_log split: option.split)

lemma process_sequences: "sequences (process_enrollment env now sp en w) = sequences w"
  by (auto simp: process_enrollment_def Let_def send_step_sequences split: option.split)

lemma process_events: "events (tracked (process_enrollment env now sp en w)) = events (tracked w)"
  by (auto simp: process_enrollment_def Let_def send_step_events split: option.split)

lemma process_messages:
  "\<exists>ms. messages (tracked (process_enrollment env now sp en w)) = messages (tracked w) @ ms \<and>
     sm_id ` set ms \<subseteq> range (se_new_id env)"
  using send_step_messages by (fastforce simp: process_enrollment_def Let_def split: option.split)

lemma mailed_cong:
  "sequences w' = sequences w \<Longrightarrow> events (tracked w') = events (tracked w) \<Longrightarrow> mailed env now sp w' = mailed env now sp w"
  by (rule ext) (simp add: mailed_def evaluateCondition_def human_event_def split: option.split)

text \<open>C20: a tick mails exactly one step, the current one, of each of the first hundred due enrollments
  whose sequence is active and in its send window, whose address is not suppressed, that no stop rule ends, whose step
  is an e-mail with a condition that holds, and whose send succeeds.\<close>

theorem sequence_tick_mails:
  "seq_sent (processSequenceTick env now w) = seq_sent w @
     map (\<lambda>e. (en_id e, en_currentStep e))
       (filter (mailed env now (suppressions w) w) (take 100 (filter (is_due now) (enrollments w))))"
proof -
  have "seq_sent (fold (process_enrollment env now sp) es w) =
      seq_sent w @ map (\<lambda>e. (en_id e, en_currentStep e)) (filter (mailed env now sp w) es)" for sp es
  proof (induction es arbitrary: w)
    case (Cons e es)
    have "mailed env now sp (process_enrollment env now sp e w) = mailed env now sp w"
      by (rule mailed_cong [OF process_sequences process_events])
    with Cons.IH show ?case by (simp add: process_log)
  qed simp
  then show ?thesis by (simp add: processSequenceTick_def)
qed

subsection \<open>Opens and clicks of sequence mails\<close>

text \<open>A history of the outreach part: ticks, requests of the tracking routes, and messages that other
  parts of the program send. The database generates ids without an underscore.\<close>

definition plain_id :: "string \<Rightarrow> bool" where
  "plain_id i \<longleftrightarrow> CHR ''_'' \<notin> set i"

inductive seq_reachable :: "sequence_world \<Rightarrow> sequence_world \<Rightarrow> bool" for w0 where
  start: "seq_reachable w0 w0"
| tick: "seq_reachable w0 w \<Longrightarrow> \<forall>e. plain_id (se_new_id env e) \<Longrightarrow> seq_reachable w0 (processSequenceTick env now w)"
| track: "seq_reachable w0 w \<Longrightarrow> seq_reachable w0 (w\<lparr>tracked := track_step op (tracked w)\<rparr>)"
| message: "seq_reachable w0 w \<Longrightarrow> plain_id (sm_id m) \<Longrightarrow>
    seq_reachable w0 (w\<lparr>tracked := (tracked w)\<lparr>messages := messages (tracked w) @ [m]\<rparr>\<rparr>)"

definition plain_messages :: "sequence_world \<Rightarrow> bool" where
  "plain_messages w \<longleftrightarrow> events_of_messages (tracked w) \<and> sm_id ` set (messages (tracked w)) \<subseteq> Collect plain_id"

lemma process_plain:
  assumes "\<forall>e. plain_id (se_new_id env e)" and "plain_messages w"
  shows "plain_messages (process_enrollment env now sp en w)"
proof -
  obtain ms where "messages (tracked (process_enrollment env now sp en w)) = messages (tracked w) @ ms"
    and "sm_id ` set ms \<subseteq> range (se_new_id env)" using process_messages by blast
  with assms show ?thesis
    by (auto simp: plain_messages_def events_of_messages_def process_events)
qed

lemma reachable_plain: "seq_reachable w0 w \<Longrightarrow> plain_messages w0 \<Longrightarrow> plain_messages w"
proof (induction rule: seq_reachable.induct)
  case (tick w env now)
  have "plain_messages w \<Longrightarrow> plain_messages (fold (process_enrollment env now sp) es w)" for sp es
    by (induction es arbitrary: w) (simp_all add: process_plain tick.hyps(2))
  with tick show ?case by (simp add: processSequenceTick_def)
next
  case (track w op)
  then show ?case
    using track_step_inv [of "tracked w" op] ids_eq [OF track_step_ids [of op "tracked w"]]
    by (simp add: plain_messages_def)
next
  case (message w m)
  then show ?case by (auto simp: plain_messages_def events_of_messages_def)
qed

lemma no_human_event:
  assumes "plain_messages w"
  shows "\<not> human_event w (tracking_id sid n email) type"
proof
  assume "human_event w (tracking_id sid n email) type"
  then have "Some (tracking_id sid n email) \<in> te_sendMessageId ` set (events (tracked w))"
    by (auto simp: human_event_def list_ex_iff rev_image_eqI)
  with assms have "plain_id (tracking_id sid n email)"
    by (auto simp: plain_messages_def events_of_messages_def)
  then show False by (simp add: plain_id_def tracking_id_def)
qed

text \<open>The same state without any tracking event.\<close>

definition deaf :: "sequence_world \<Rightarrow> sequence_world" where
  "deaf w = w\<lparr>tracked := (tracked w)\<lparr>events := []\<rparr>\<rparr>"

lemma deaf_simps [simp]:
  "sequences (deaf w) = sequences w" "enrollments (deaf w) = enrollments w" "pool (deaf w) = pool w"
  "suppressions (deaf w) = suppressions w" "espCache (deaf w) = espCache w" "seq_sent (deaf w) = seq_sent w"
  "\<not> human_event (deaf w) i type"
  by (simp_all add: deaf_def human_event_def)

lemma deaf_update: "deaf (update_enrollment i f w) = update_enrollment i f (deaf w)"
  by (simp add: deaf_def update_enrollment_def)

lemma deaf_enroll: "deaf (enroll_in env now e sub w) = enroll_in env now e sub (deaf w)"
  by (simp add: deaf_def enroll_in_def)

lemma deaf_trigger: "deaf (trigger_subsequences env now ts sq e w) = trigger_subsequences env now ts sq e (deaf w)"
proof -
  have "deaf (fold (enroll_in env now e) subs w) = fold (enroll_in env now e) subs (deaf w)" for subs
    by (induction subs arbitrary: w) (simp_all add: deaf_enroll)
  then show ?thesis by (simp add: trigger_subsequences_def)
qed

lemma deaf_deliver: "deaf (deliver_step env now sq en idx mb w) = deliver_step env now sq en idx mb (deaf w)"
  by (simp add: deaf_def deliver_step_def Let_def split: option.split)

lemma deaf_send: "deaf (send_step env now sq en idx w) = send_step env now sq en idx (deaf w)"
proof -
  have "deaf (w\<lparr>espCache := c\<rparr>) = (deaf w)\<lparr>espCache := c\<rparr>" for c by (simp add: deaf_def)
  then show ?thesis
    by (simp add: send_step_def Let_def deaf_deliver deaf_update deaf_trigger split: prod.split)
qed

lemma deaf_process:
  assumes "plain_messages w"
  shows "deaf (process_enrollment env now sp en w) = process_enrollment env now sp en (deaf w)"
proof -
  have "evaluateCondition (deaf w) en st = evaluateCondition w en st" for st
    by (simp add: evaluateCondition_def Let_def no_human_event [OF assms])
  then show ?thesis
    by (simp add: process_enrollment_def Let_def no_human_event [OF assms] deaf_update deaf_send split: option.split)
qed

text \<open>C21: opens and clicks of sequence mails never reach the sequence: the tracking routes store the row id of a
  message, and the worker asks for a tracking name that no row has as its id. So whatever is opened or clicked, a tick moves
  and mails as if there were no tracking event at all: stop on open and stop on click never stop, and a step for
  those who opened is never sent.\<close>

theorem sequence_never_sees_opens:
  assumes "plain_messages w0" and "seq_reachable w0 w" and "\<forall>e. plain_id (se_new_id env e)"
  shows "enrollments (processSequenceTick env now w) = enrollments (processSequenceTick env now (deaf w)) \<and>
    seq_sent (processSequenceTick env now w) = seq_sent (processSequenceTick env now (deaf w)) \<and>
    (ss_condition st = ''if_opened'' \<longrightarrow> \<not> evaluateCondition w en st)"
proof -
  have plain: "plain_messages w" using reachable_plain assms(1,2) by blast
  have "plain_messages w \<Longrightarrow> deaf (fold (process_enrollment env now sp) es w) = fold (process_enrollment env now sp) es (deaf w)" for sp es
  proof (induction es arbitrary: w)
    case (Cons e es)
    from Cons.IH [OF process_plain [OF assms(3) Cons.prems]] show ?case by (simp add: deaf_process [OF Cons.prems])
  qed simp
  from this [OF plain] have "deaf (processSequenceTick env now w) = processSequenceTick env now (deaf w)"
    by (simp add: processSequenceTick_def)
  moreover have "ss_condition st = ''if_opened'' \<Longrightarrow> \<not> evaluateCondition w en st"
    by (simp add: evaluateCondition_def Let_def no_human_event [OF plain])
  ultimately show ?thesis by (metis deaf_simps(2,6))
qed

subsection \<open>Skipping the last step\<close>

text \<open>When the condition of the last step does not hold, the enrollment is left active without a next date:
  it is neither completed nor due again, ever.\<close>

theorem skipped_last_step_never_completes:
  assumes "List.find (\<lambda>s. sq_id s = en_sequenceId en) (sequences w) = Some sq" and "sq_status sq = ''active''"
    and "map_of sp (en_email en) = None" and "isWithinSendWindow (se_clock env) sq now"
    and "\<not> sq_stopOnOpen sq" and "\<not> sq_stopOnClick sq"
    and "en_currentStep en + 1 = length (sq_steps sq)" and "\<not> evaluateCondition w en (last (sq_steps sq))"
    and "en \<in> set (enrollments w)" and "en_status en = ''active''"
  shows "\<exists>e \<in> set (enrollments (process_enrollment env now sp en w)). en_id e = en_id en \<and> en_status e = ''active'' \<and>
    en_currentStep e = length (sq_steps sq) \<and> en_completedAt e = en_completedAt en \<and> (\<forall>t. \<not> is_due t e)"
proof -
  let ?e = "en\<lparr>en_currentStep := en_currentStep en + 1, en_nextSendAt := None\<rparr>"
  have "sq_steps sq ! en_currentStep en = last (sq_steps sq)" "en_currentStep en < length (sq_steps sq)"
    using assms(7) last_conv_nth [of "sq_steps sq"] by (cases "sq_steps sq"; simp)+
  then have "process_enrollment env now sp en w =
      update_enrollment (en_id en) (\<lambda>e. e\<lparr>en_currentStep := en_currentStep en + 1, en_nextSendAt := None\<rparr>) w"
    using assms by (simp add: process_enrollment_def Let_def next_send_at_def)
  then have "?e \<in> set (enrollments (process_enrollment env now sp en w))"
    using assms(9) by (force simp: update_enrollment_def)
  then show ?thesis using assms(7,10) by (intro bexI [of _ ?e]) (auto simp: is_due_def)
qed

subsection \<open>Daily limits\<close>

lemma select_mailbox_free:
  assumes "select_mailbox ms sq en idx e = Some m"
  shows "m \<in> set ms \<and> mx_sentToday m < mx_dailyLimit m"
proof -
  define av where "av = filter (\<lambda>m. mx_sentToday m < mx_dailyLimit m) (filter (usable_mailbox (sq_apiKeyId sq)) ms)"
  have "m \<in> set av"
    using assms unfolding select_mailbox_def Let_def av_def [symmetric]
    by (cases av) (auto split: option.splits if_splits dest: find_SomeD)
  then show ?thesis by (simp add: av_def)
qed

definition pool_ok :: "mailbox list \<Rightarrow> bool" where
  "pool_ok ms \<longleftrightarrow> distinct (map mx_id ms) \<and> (\<forall>m \<in> set ms. mx_sentToday m \<le> mx_dailyLimit m)"

text \<open>What a step does to the pool: nothing, or one more mail of a mailbox below its limit.\<close>

lemma process_pool:
  "pool (process_enrollment env now sp en w) = pool w \<or>
   (\<exists>m \<in> set (pool w). mx_sentToday m < mx_dailyLimit m \<and>
     pool (process_enrollment env now sp en w) =
       update_mailbox (mx_id m) (\<lambda>m. m\<lparr>mx_sentToday := mx_sentToday m + 1\<rparr>) (pool w))"
proof -
  have "pool (send_step env now sq en idx w) = pool w \<or>
   (\<exists>m \<in> set (pool w). mx_sentToday m < mx_dailyLimit m \<and>
     pool (send_step env now sq en idx w) = update_mailbox (mx_id m) (\<lambda>m. m\<lparr>mx_sentToday := mx_sentToday m + 1\<rparr>) (pool w))" for sq idx
  proof -
    obtain esp c where d: "detectESP (se_resolveMx env) now (en_email en) (espCache w) = (esp, c)" by fastforce
    show ?thesis
    proof (cases "select_mailbox (pool w) sq en idx esp")
      case None
      then show ?thesis by (simp add: send_step_def d deliver_step_def Let_def)
    next
      case (Some m)
      from select_mailbox_free [OF Some] show ?thesis
        by (auto simp: send_step_def d Some deliver_step_def Let_def)
    qed
  qed
  then show ?thesis by (auto simp: process_enrollment_def Let_def split: option.split)
qed

lemma update_mailbox_ids: "(\<And>m. mx_id (f m) = mx_id m) \<Longrightarrow> map mx_id (update_mailbox i f ms) = map mx_id ms"
  by (simp add: update_mailbox_def comp_def)

lemma pool_ok_bump:
  assumes "pool_ok ms" and "m \<in> set ms" and "mx_sentToday m < mx_dailyLimit m"
  shows "pool_ok (update_mailbox (mx_id m) (\<lambda>m. m\<lparr>mx_sentToday := mx_sentToday m + 1\<rparr>) ms)"
proof -
  have same: "x = m" if "x \<in> set ms" "mx_id x = mx_id m" for x
    using that assms by (auto simp: pool_ok_def distinct_map inj_on_def)
  have ids: "map mx_id (update_mailbox (mx_id m) (\<lambda>m. m\<lparr>mx_sentToday := mx_sentToday m + 1\<rparr>) ms) = map mx_id ms"
    by (rule update_mailbox_ids) simp
  have "mx_sentToday y \<le> mx_dailyLimit y"
    if y: "y \<in> set (update_mailbox (mx_id m) (\<lambda>m. m\<lparr>mx_sentToday := mx_sentToday m + 1\<rparr>) ms)" for y
  proof -
    from y obtain x where x: "x \<in> set ms"
      "y = (if mx_id x = mx_id m then x\<lparr>mx_sentToday := mx_sentToday x + 1\<rparr> else x)"
      by (auto simp: update_mailbox_def)
    show ?thesis
      using x same [of x] assms(1,3) by (cases "mx_id x = mx_id m") (auto simp: pool_ok_def)
  qed
  then show ?thesis using assms(1) unfolding pool_ok_def ids by blast
qed

definition tick_run :: "(sequence_env \<times> int) list \<Rightarrow> sequence_world \<Rightarrow> sequence_world" where
  "tick_run ticks w = fold (\<lambda>(env, now). processSequenceTick env now) ticks w"

text \<open>A property of the pool that every step keeps holds after every run of ticks.\<close>

lemma pool_run_induct:
  assumes "P (pool w)"
    and "\<And>ms m. P ms \<Longrightarrow> m \<in> set ms \<Longrightarrow> mx_sentToday m < mx_dailyLimit m \<Longrightarrow>
      P (update_mailbox (mx_id m) (\<lambda>m. m\<lparr>mx_sentToday := mx_sentToday m + 1\<rparr>) ms)"
  shows "P (pool (tick_run ticks w))"
proof -
  have step: "P (pool w) \<Longrightarrow> P (pool (process_enrollment env now sp en w))" for env now sp en w
    using process_pool [of env now sp en w] assms(2) by auto
  have tick: "P (pool w) \<Longrightarrow> P (pool (fold (process_enrollment env now sp) es w))" for env now sp es w
    by (induction es arbitrary: w) (simp_all add: step)
  show ?thesis using assms(1)
    by (induction ticks arbitrary: w) (auto simp: tick_run_def processSequenceTick_def tick)
qed


text \<open>A mailbox that has reached its daily limit is never used again by the sequences, however many days of
  ticks pass: no tick resets the counter.\<close>

theorem full_mailbox_stuck:
  assumes "m \<in> set (pool w)" and "mx_dailyLimit m \<le> mx_sentToday m" and "distinct (map mx_id (pool w))"
  shows "m \<in> set (pool (tick_run ticks w))"
proof -
  let ?P = "\<lambda>ms. m \<in> set ms \<and> distinct (map mx_id ms)"
  have "?P (pool (tick_run ticks w))"
  proof (rule pool_run_induct)
    fix ms m'
    assume P: "?P ms" and m': "m' \<in> set ms" "mx_sentToday m' < mx_dailyLimit m'"
    have "mx_id m' \<noteq> mx_id m" using P m' assms(2) by (auto simp: distinct_map inj_on_def)
    then have "m \<in> set (update_mailbox (mx_id m') (\<lambda>m. m\<lparr>mx_sentToday := mx_sentToday m + 1\<rparr>) ms)"
      using P by (force simp: update_mailbox_def)
    moreover have "map mx_id (update_mailbox (mx_id m') (\<lambda>m. m\<lparr>mx_sentToday := mx_sentToday m + 1\<rparr>) ms) = map mx_id ms"
      by (rule update_mailbox_ids) simp
    ultimately show "?P (update_mailbox (mx_id m') (\<lambda>m. m\<lparr>mx_sentToday := mx_sentToday m + 1\<rparr>) ms)" using P by simp
  qed (use assms in simp)
  then show ?thesis ..
qed

subsection \<open>A send that fails\<close>

text \<open>An enrollment whose send fails is left as it is and stays due, so it is tried again at every tick, without a
  limit and without a delay.\<close>

theorem failed_send_stays_due:
  assumes "en \<in> set (enrollments w)" and "is_due now en" and "\<not> se_up env (en_id en) 0"
    and "mailed (env\<lparr>se_up := \<lambda>i k. True\<rparr>) now sp w en" and "now \<le> later"
  shows "en \<in> set (enrollments (process_enrollment env now sp en w)) \<and> is_due later en \<and>
    seq_sent (process_enrollment env now sp en w) = seq_sent w"
proof -
  obtain sq where "List.find (\<lambda>s. sq_id s = en_sequenceId en) (sequences w) = Some sq"
    using assms(4) by (auto simp: mailed_def split: option.splits)
  then have "process_enrollment env now sp en w = send_step env now sq en (en_currentStep en) w"
    using assms(4) by (auto simp: mailed_def process_enrollment_def Let_def)
  then have "enrollments (process_enrollment env now sp en w) = enrollments w \<and>
      seq_sent (process_enrollment env now sp en w) = seq_sent w"
    using assms(3) by (simp add: send_step_def Let_def split: prod.split)
  then show ?thesis using assms(1,2,5) by (auto simp: is_due_def split: option.splits)
qed

subsection \<open>The hypotheses can hold\<close>

definition demo_mailbox :: "string \<Rightarrow> int \<Rightarrow> mailbox" where
  "demo_mailbox i n = \<lparr>mx_id = i, mx_apiKeyId = ''k'', mx_type = ''smtp'', mx_host = Some ''h'', mx_username = ''u'',
     mx_passwordEnc = Some ''p'', mx_oauthTokenEnc = None, mx_sentToday = n, mx_dailyLimit = 2, mx_sentTodayResetAt = 0,
     mx_status = ''active'', mx_isHousePool = False\<rparr>"

definition demo_step :: "string \<Rightarrow> seq_step" where
  "demo_step c = \<lparr>ss_id = ''s'', ss_delayDays = 0, ss_delayHours = 0, ss_type = ''email'', ss_condition = c\<rparr>"

definition demo_sequence :: "string \<Rightarrow> sequence" where
  "demo_sequence c = \<lparr>sq_id = ''q'', sq_apiKeyId = ''k'', sq_mailboxId = None, sq_status = ''active'', sq_stopOnOpen = False,
     sq_stopOnClick = False, sq_sendDays = [], sq_sendStartHour = 0, sq_sendEndHour = 0, sq_timezone = ''?'',
     sq_parentSequenceId = None, sq_triggerEvent = None, sq_triggerDelayDays = 0, sq_steps = [demo_step c]\<rparr>"

definition demo_enrollment :: enrollment where
  "demo_enrollment = \<lparr>en_id = ''e'', en_sequenceId = ''q'', en_email = ''a@b.co'', en_mailboxId = None, en_status = ''active'',
     en_currentStep = 0, en_nextSendAt = Some 0, en_completedAt = None, en_repliedAt = None\<rparr>"

definition demo_world :: "string \<Rightarrow> sequence_world" where
  "demo_world c = \<lparr>sequences = [demo_sequence c], enrollments = [demo_enrollment],
     pool = [demo_mailbox ''m1'' 2, demo_mailbox ''m2'' 0], suppressions = [], espCache = (\<lambda>_. None),
     tracked = \<lparr>messages = [], events = [], variant_rows = [], stats = (\<lambda>_. None)\<rparr>, seq_sent = []\<rparr>"

definition demo_env :: "bool \<Rightarrow> sequence_env" where
  "demo_env up = \<lparr>se_clock = (\<lambda>_ _. None), se_resolveMx = (\<lambda>_. None), se_new_id = (\<lambda>_. ''cl1''), se_up = (\<lambda>_ _. up)\<rparr>"

lemmas demo_defs = demo_world_def demo_sequence_def demo_enrollment_def demo_step_def demo_env_def demo_mailbox_def

lemma demo_plain: "plain_messages (demo_world c)" "\<forall>e. plain_id (se_new_id (demo_env up) e)"
  by (simp_all add: demo_defs plain_messages_def plain_id_def events_of_messages_def)

theorem sequence_never_sees_opens_witness:
  "\<not> evaluateCondition (demo_world ''if_opened'') demo_enrollment (demo_step ''if_opened'') \<and>
   seq_sent (processSequenceTick (demo_env True) 0 (demo_world ''if_opened'')) = []"
proof
  show "\<not> evaluateCondition (demo_world ''if_opened'') demo_enrollment (demo_step ''if_opened'')"
    using sequence_never_sees_opens [OF demo_plain(1) seq_reachable.start demo_plain(2), where st = "demo_step ''if_opened''"]
    by (simp add: demo_step_def)
  show "seq_sent (processSequenceTick (demo_env True) 0 (demo_world ''if_opened'')) = []" by code_simp
qed

theorem skipped_last_step_never_completes_witness:
  "\<exists>e \<in> set (enrollments (process_enrollment (demo_env True) 0 [] demo_enrollment (demo_world ''if_opened''))).
     en_id e = ''e'' \<and> en_status e = ''active'' \<and> en_completedAt e = None \<and> (\<forall>t. \<not> is_due t e)"
proof -
  have "\<not> evaluateCondition (demo_world ''if_opened'') demo_enrollment (last (sq_steps (demo_sequence ''if_opened'')))"
    by code_simp
  then show ?thesis
    using skipped_last_step_never_completes
      [of demo_enrollment "demo_world ''if_opened''" "demo_sequence ''if_opened''" "[]" "demo_env True" 0]
    by (fastforce simp: demo_defs isWithinSendWindow_def)
qed


theorem full_mailbox_stuck_witness:
  "demo_mailbox ''m1'' 2 \<in> set (pool (tick_run [(demo_env True, 0), (demo_env True, 86400000)] (demo_world ''always'')))"
  by (rule full_mailbox_stuck) (simp_all add: demo_defs)

theorem failed_send_stays_due_witness:
  "demo_enrollment \<in> set (enrollments (process_enrollment (demo_env False) 0 [] demo_enrollment (demo_world ''always''))) \<and>
   is_due 300000 demo_enrollment"
proof -
  have "mailed ((demo_env False)\<lparr>se_up := \<lambda>i k. True\<rparr>) 0 [] (demo_world ''always'') demo_enrollment"
    by (simp add: mailed_def demo_defs truthy_def isWithinSendWindow_def evaluateCondition_def)
  from failed_send_stays_due [OF _ _ _ this, of 300000] show ?thesis
    by (simp add: demo_defs is_due_def)
qed
end
