(* ===== verification/Csv.thy ===== *)
theory Csv
  imports Scorer Calendar
begin

text \<open>
  The CSV side of bulk verification: \<open>parseCsv\<close> and \<open>splitCsvLine\<close> of
  \<^verbatim>\<open>src/routes/bulk-jobs/index.ts\<close>, and the export of \<^verbatim>\<open>src/workers/bulkWorker.ts\<close>.
  Parsing is proved equal to a declarative reading of the file, and an exported file, read again as an
  upload, gives back the rows it came from. The dashes and the apostrophe of the texts that explain a
  verdict are ASCII here.
\<close>

subsection \<open>Lines and columns\<close>

definition line_feed :: char where "line_feed = CHR 10"

definition quote_mark :: char where "quote_mark = CHR 34"

definition strip_both :: "(char \<Rightarrow> bool) \<Rightarrow> string \<Rightarrow> string" where
  "strip_both P s = rev (dropWhile P (rev (dropWhile P s)))"

definition clean_column :: "string \<Rightarrow> string" where
  "clean_column s = strip_both (\<lambda>c. c = quote_mark) (js_trim s)"

fun split_csv_loop :: "string \<Rightarrow> bool \<Rightarrow> string \<Rightarrow> string list" where
  "split_csv_loop current inQuotes [] = [clean_column current]"
| "split_csv_loop current inQuotes (c # s) =
     (if c = quote_mark then split_csv_loop current (\<not> inQuotes) s
      else if c = CHR '','' \<and> \<not> inQuotes then clean_column current # split_csv_loop [] inQuotes s
      else split_csv_loop (current @ [c]) inQuotes s)"

definition splitCsvLine :: "string \<Rightarrow> string list" where
  "splitCsvLine line = split_csv_loop [] False line"

definition clean_line :: "string \<Rightarrow> string" where
  "clean_line raw = (let s = js_trim raw in if s \<noteq> [] \<and> last s = CHR 13 then butlast s else s)"

fun find_index :: "('a \<Rightarrow> bool) \<Rightarrow> 'a list \<Rightarrow> nat option" where
  "find_index P [] = None"
| "find_index P (x # xs) = (if P x then Some 0 else map_option Suc (find_index P xs))"

definition email_column :: "string \<Rightarrow> nat option" where
  "email_column line =
     find_index (\<lambda>c. c \<in> {''email'', ''emailaddress'', ''email_address'', ''emai'', ''mail''})
       (map (\<lambda>c. filter (\<lambda>x. 97 \<le> code x \<and> code x \<le> 122 \<or> x = CHR ''_'') (js_lower c)) (splitCsvLine line))"

text \<open>The address of a data line, before the test that it is one.\<close>

definition line_email :: "nat \<Rightarrow> string \<Rightarrow> string" where
  "line_email col line =
     (let columns = splitCsvLine line; raw = (if col < length columns then columns ! col else [])
      in js_lower (strip_both (\<lambda>c. c = quote_mark \<or> c = CHR 39 \<or> is_js_space c) (js_trim raw)))"

subsection \<open>Parsing\<close>

record parsed_email =
  pe_email :: string
  pe_rowIndex :: nat
  pe_isDuplicate :: bool

record csv_state =
  cs_results :: "parsed_email list"
  cs_seen :: "string list"
  cs_rowIndex :: nat
  cs_column :: nat
  cs_header :: bool

definition csv_init :: csv_state where
  "csv_init = \<lparr>cs_results = [], cs_seen = [], cs_rowIndex = 0, cs_column = 0, cs_header = False\<rparr>"

definition csv_data :: "string \<Rightarrow> csv_state \<Rightarrow> csv_state" where
  "csv_data line st =
     (let email = line_email (cs_column st) line in
      if email = [] \<or> CHR ''@'' \<notin> set email then st
      else
        let dup = (email \<in> set (cs_seen st))
        in st\<lparr>cs_results := cs_results st @ [\<lparr>pe_email = email, pe_rowIndex = cs_rowIndex st, pe_isDuplicate = dup\<rparr>],
              cs_seen := (if dup then cs_seen st else cs_seen st @ [email]),
              cs_rowIndex := cs_rowIndex st + 1\<rparr>)"

definition csv_step :: "string \<Rightarrow> csv_state \<Rightarrow> csv_state" where
  "csv_step raw st =
     (let line = clean_line raw in
      if line = [] then st
      else if \<not> cs_header st then
        (let st1 = st\<lparr>cs_header := True\<rparr> in
         case email_column line of
           Some i \<Rightarrow> st1\<lparr>cs_column := i\<rparr>
         | None \<Rightarrow>
             if CHR ''@'' \<notin> set line then st1\<lparr>cs_column := 0\<rparr>
             else csv_data line (st1\<lparr>cs_column := 0\<rparr>))
      else csv_data line st)"

definition parseCsv :: "string \<Rightarrow> parsed_email list" where
  "parseCsv text = cs_results (fold csv_step (split_on line_feed text) csv_init)"

subsection \<open>What a file says\<close>

definition is_address :: "string \<Rightarrow> bool" where
  "is_address e \<longleftrightarrow> e \<noteq> [] \<and> CHR ''@'' \<in> set e"

text \<open>The addresses of a file, in order: those of the non-empty lines, without the first one when it is a
  header.\<close>

definition csv_emails :: "string \<Rightarrow> string list" where
  "csv_emails text =
     (case filter (\<lambda>l. l \<noteq> []) (map clean_line (split_on line_feed text)) of
        [] \<Rightarrow> []
      | l # ls \<Rightarrow>
          let (col, body) = (case email_column l of
                Some i \<Rightarrow> (i, ls) | None \<Rightarrow> (0, if CHR ''@'' \<in> set l then l # ls else ls))
          in filter is_address (map (line_email col) body))"

definition number_rows :: "string list \<Rightarrow> parsed_email list" where
  "number_rows es = map (\<lambda>i. \<lparr>pe_email = es ! i, pe_rowIndex = i, pe_isDuplicate = (es ! i \<in> set (take i es))\<rparr>) [0..<length es]"

lemma number_rows_snoc:
  "number_rows (es @ [e]) = number_rows es @ [\<lparr>pe_email = e, pe_rowIndex = length es, pe_isDuplicate = (e \<in> set es)\<rparr>]"
  by (simp add: number_rows_def nth_append)

lemma number_rows_emails [simp]: "map pe_email (number_rows es) = es"
  by (simp add: number_rows_def comp_def map_nth)

definition csv_at :: "string list \<Rightarrow> nat \<Rightarrow> csv_state \<Rightarrow> bool" where
  "csv_at es col st \<longleftrightarrow> cs_results st = number_rows es \<and> set (cs_seen st) = set es \<and> cs_rowIndex st = length es \<and>
     cs_column st = col \<and> cs_header st"

lemma csv_data_at:
  assumes "csv_at es col st"
  shows "csv_at (es @ filter is_address [line_email col line]) col (csv_data line st)"
  using assms by (auto simp: csv_at_def csv_data_def Let_def is_address_def number_rows_snoc)

lemma csv_fold_at:
  "csv_at es col st \<Longrightarrow>
     csv_at (es @ filter is_address (map (line_email col) (filter (\<lambda>l. l \<noteq> []) (map clean_line raws)))) col (fold csv_step raws st)"
proof (induction raws arbitrary: es st)
  case (Cons raw raws)
  show ?case
  proof (cases "clean_line raw = []")
    case True
    then have "csv_step raw st = st" by (simp add: csv_step_def)
    with Cons True show ?thesis by simp
  next
    case False
    then have "csv_step raw st = csv_data (clean_line raw) st"
      using Cons.prems by (simp add: csv_step_def csv_at_def Let_def)
    from Cons.IH [OF csv_data_at [OF Cons.prems, of "clean_line raw"]] this False show ?thesis by auto
  qed
qed simp

lemma csv_header_fold:
  assumes "\<not> cs_header st" and "cs_results st = []" and "cs_seen st = []" and "cs_rowIndex st = 0"
  shows "cs_results (fold csv_step raws st) =
    number_rows (case filter (\<lambda>l. l \<noteq> []) (map clean_line raws) of
        [] \<Rightarrow> []
      | l # ls \<Rightarrow>
          let (col, body) = (case email_column l of
                Some i \<Rightarrow> (i, ls) | None \<Rightarrow> (0, if CHR ''@'' \<in> set l then l # ls else ls))
          in filter is_address (map (line_email col) body))"
  using assms
proof (induction raws)
  case Nil
  then show ?case by (simp add: number_rows_def)
next
  case (Cons raw raws)
  let ?l = "clean_line raw"
  show ?case
  proof (cases "?l = []")
    case True
    then have "csv_step raw st = st" by (simp add: csv_step_def)
    with Cons True show ?thesis by simp
  next
    case False
    have at: "csv_at [] i (st\<lparr>cs_header := True, cs_column := i\<rparr>)" for i
      using Cons.prems by (simp add: csv_at_def number_rows_def)
    show ?thesis
    proof (cases "email_column ?l")
      case (Some i)
      then have "csv_step raw st = st\<lparr>cs_header := True, cs_column := i\<rparr>"
        using Cons.prems(1) False by (simp add: csv_step_def Let_def)
      with csv_fold_at [OF at [of i], of raws] Some False show ?thesis by (simp add: csv_at_def)
    next
      case None
      show ?thesis
      proof (cases "CHR ''@'' \<in> set ?l")
        case True
        then have "csv_step raw st = csv_data ?l (st\<lparr>cs_header := True, cs_column := 0\<rparr>)"
          using Cons.prems(1) False None by (simp add: csv_step_def Let_def)
        with csv_fold_at [OF csv_data_at [OF at [of 0], of ?l], of raws] None False True show ?thesis
          by (auto simp: csv_at_def)
      next
        case no: False
        then have "csv_step raw st = st\<lparr>cs_header := True, cs_column := 0\<rparr>"
          using Cons.prems(1) False None by (simp add: csv_step_def Let_def)
        with csv_fold_at [OF at [of 0], of raws] None False no show ?thesis by (simp add: csv_at_def)
      qed
    qed
  qed
qed

text \<open>C26: the parser returns the addresses of the file in order, numbered from 0 without gaps, and marks as
  duplicate exactly those that occur earlier in the file.\<close>

theorem parseCsv_rows: "parseCsv text = number_rows (csv_emails text)"
  unfolding parseCsv_def csv_emails_def by (rule csv_header_fold) (simp_all add: csv_init_def)

subsection \<open>The export\<close>

record email_row =
  er_email :: string
  er_rowIndex :: nat
  er_isDuplicate :: bool
  er_status :: "verification_status option"
  er_subStatus :: "string option"
  er_score :: "nat option"
  er_domain :: "string option"
  er_syntaxValid :: "bool option"
  er_isDisposable :: "bool option"
  er_isRoleAccount :: "bool option"
  er_mxFound :: "bool option"
  er_smtpChecked :: "bool option"
  er_smtpReachable :: "bool option"
  er_isCatchAll :: "bool option"
  er_greylisted :: bool
  er_spfValid :: "bool option"
  er_dkimFound :: "bool option"
  er_dmarcValid :: "bool option"
  er_blacklisted :: "bool option"
  er_durationMs :: "int option"
  er_verificationId :: "string option"
  er_errorMessage :: "string option"
  er_processedAt :: "int option"

definition status_text :: "verification_status \<Rightarrow> string" where
  "status_text s = (case s of Valid \<Rightarrow> ''valid'' | Invalid \<Rightarrow> ''invalid'' | Risky \<Rightarrow> ''risky'' | Unknown \<Rightarrow> ''unknown'')"

definition bool_text :: "bool \<Rightarrow> string" where
  "bool_text b = (if b then ''true'' else ''false'')"

definition bool_column :: "bool option \<Rightarrow> string" where
  "bool_column b = (case b of None \<Rightarrow> [] | Some v \<Rightarrow> bool_text v)"

text \<open>\<open>date.toISOString()\<close>.\<close>

definition pad3 :: "int \<Rightarrow> string" where
  "pad3 n = (if n < 100 then ''0'' else []) @ pad2 n"

definition iso_time :: "int \<Rightarrow> string" where
  "iso_time t =
     (let d = t mod MS_PER_DAY in
      iso_day t @ ''T'' @ pad2 (d div 3600000) @ '':'' @ pad2 (d div 60000 mod 60) @ '':'' @
      pad2 (d div 1000 mod 60) @ ''.'' @ pad3 (d mod 1000) @ ''Z'')"

definition explainReason :: "email_row \<Rightarrow> string" where
  "explainReason r =
     (if truthy (er_errorMessage r) then ''Verification error - not checked''
      else if er_isDuplicate r then ''Duplicate of an earlier row''
      else case er_status r of
        Some Valid \<Rightarrow> ''Deliverable - mailbox accepted verification''
      | Some Invalid \<Rightarrow>
          (if er_syntaxValid r = Some False then ''Invalid - malformed email address''
           else if er_mxFound r = Some False then ''Invalid - domain has no mail server (no MX)''
           else if er_smtpReachable r = Some False then ''Invalid - mail server rejected the mailbox''
           else ''Invalid - undeliverable'')
      | Some Risky \<Rightarrow>
          (if er_isCatchAll r = Some True then
             ''Risky - catch-all domain, mailbox can'' @ [CHR 39] @ ''t be individually confirmed''
           else if er_isRoleAccount r = Some True then ''Risky - role account (e.g. info@, support@)''
           else if er_isDisposable r = Some True then ''Risky - disposable / temporary email domain''
           else if er_blacklisted r = Some True then ''Risky - sending domain is on a blacklist''
           else ''Risky - deliverable but with quality flags'')
      | Some Unknown \<Rightarrow>
          (if er_greylisted r then ''Unknown - mail server greylisted the probe, retry later''
           else if er_smtpChecked r = Some False then ''Unknown - mailbox check unavailable for this domain''
           else ''Unknown - could not determine deliverability'')
      | None \<Rightarrow> [])"

definition double_quotes :: "string \<Rightarrow> string" where
  "double_quotes s = concat (map (\<lambda>c. if c = quote_mark then [quote_mark, quote_mark] else [c]) s)"

definition export_columns :: "email_row \<Rightarrow> string list" where
  "export_columns r =
     [er_email r,
      bool_text (er_isDuplicate r),
      (case er_status r of None \<Rightarrow> [] | Some s \<Rightarrow> status_text s),
      explainReason r,
      or_else (er_subStatus r) [],
      (case er_score r of None \<Rightarrow> [] | Some n \<Rightarrow> show_nat n),
      or_else (er_domain r) [],
      bool_column (er_syntaxValid r),
      bool_column (er_mxFound r),
      bool_column (er_smtpChecked r),
      bool_column (er_smtpReachable r),
      bool_column (er_isCatchAll r),
      bool_text (er_greylisted r),
      bool_column (er_isDisposable r),
      bool_column (er_isRoleAccount r),
      bool_column (er_spfValid r),
      bool_column (er_dkimFound r),
      bool_column (er_dmarcValid r),
      bool_column (er_blacklisted r),
      (case er_durationMs r of None \<Rightarrow> [] | Some n \<Rightarrow> show_int n),
      (if truthy (er_errorMessage r) then [quote_mark] @ double_quotes (the (er_errorMessage r)) @ [quote_mark] else []),
      (case er_processedAt r of None \<Rightarrow> [] | Some t \<Rightarrow> iso_time t)]"

definition quote_column :: "string \<Rightarrow> string" where
  "quote_column c = (if has_sub '','' c \<and> \<not> starts_with [quote_mark] c then [quote_mark] @ c @ [quote_mark] else c)"

definition export_line :: "email_row \<Rightarrow> string" where
  "export_line r = join_with '','' (map quote_column (export_columns r))"

definition buildExportCsvRows :: "email_row list \<Rightarrow> string" where
  "buildExportCsvRows rows = join_with [line_feed] (map export_line rows) @ [line_feed]"

definition EXPORT_CSV_HEADER :: string where
  "EXPORT_CSV_HEADER =
     ''email,isDuplicate,status,reason,subStatus,score,domain,'' @
     ''syntaxValid,mxFound,smtpChecked,smtpReachable,isCatchAll,greylisted,'' @
     ''isDisposable,isRoleAccount,spfValid,dkimFound,dmarcValid,blacklisted,'' @
     ''durationMs,errorMessage,processedAt'' @ [line_feed]"

definition EXPORT_PAGE :: nat where "EXPORT_PAGE = 2000"

function export_pages :: "email_row list \<Rightarrow> string" where
  "export_pages rows =
     (let page = take EXPORT_PAGE rows in
      if page = [] then []
      else buildExportCsvRows page @ (if length page < EXPORT_PAGE then [] else export_pages (drop EXPORT_PAGE rows)))"
  by pat_completeness auto

termination by (relation "measure length") (auto simp: EXPORT_PAGE_def)

declare export_pages.simps [simp del]

definition export_csv :: "email_row list \<Rightarrow> string" where
  "export_csv rows = EXPORT_CSV_HEADER @ export_pages rows"

subsection \<open>Reading an export\<close>

lemma strip_both_fixed_iff: "strip_both P s = s \<longleftrightarrow> s = [] \<or> (\<not> P (hd s) \<and> \<not> P (last s))"
proof (cases "s = []")
  case False
  show ?thesis
  proof
    assume eq: "strip_both P s = s"
    have ne: "dropWhile P s \<noteq> []"
      using eq False unfolding strip_both_def by (metis dropWhile.simps(1) rev.simps(1))
    have len: "length (strip_both P s) \<le> length (dropWhile P s)"
      by (simp add: strip_both_def length_dropWhile_le [of P "rev (dropWhile P s)", simplified])
    have "length (dropWhile P s) \<le> length s" by (rule length_dropWhile_le)
    with len eq have "length (dropWhile P s) = length s" by simp
    then have d: "dropWhile P s = s"
      by (metis append_self_conv2 length_0_conv length_append add_cancel_left_left takeWhile_dropWhile_id)
    then have h: "\<not> P (hd s)" using ne hd_dropWhile by metis
    have "rev (dropWhile P (rev s)) = s" using eq d by (simp add: strip_both_def)
    then have "dropWhile P (rev s) = rev s" by (metis rev_rev_ident)
    then have "\<not> P (hd (rev s))" using False hd_dropWhile [of P "rev s"] by simp
    with h show "s = [] \<or> (\<not> P (hd s) \<and> \<not> P (last s))" by (simp add: hd_rev)
  next
    assume "s = [] \<or> (\<not> P (hd s) \<and> \<not> P (last s))"
    with False have h: "\<not> P (hd s)" "\<not> P (hd (rev s))" by (simp_all add: hd_rev)
    have fix_: "dropWhile P xs = xs" if "\<not> P (hd xs)" "xs \<noteq> []" for xs
      using that by (cases xs) simp_all
    show "strip_both P s = s" using h False by (simp add: strip_both_def fix_)
  qed
qed (simp add: strip_both_def)

lemma strip_both_ends: "strip_both P s \<noteq> [] \<Longrightarrow> \<not> P (hd (strip_both P s)) \<and> \<not> P (last (strip_both P s))"
proof -
  assume ne: "strip_both P s \<noteq> []"
  let ?d = "dropWhile P s"
  have r: "rev (strip_both P s) = dropWhile P (rev ?d)" by (simp add: strip_both_def)
  then have l: "\<not> P (last (strip_both P s))" using ne by (metis hd_dropWhile hd_rev rev_is_Nil_conv)
  have "rev ?d = takeWhile P (rev ?d) @ rev (strip_both P s)" by (simp add: r)
  then have "?d = strip_both P s @ rev (takeWhile P (rev ?d))" by (metis rev_append rev_rev_ident)
  then have "hd ?d = hd (strip_both P s)" "?d \<noteq> []" using ne by (metis hd_append2, metis append_is_Nil_conv)
  with l show ?thesis using hd_dropWhile by metis
qed

lemma strip_both_set: "set (strip_both P s) \<subseteq> set s"
  by (auto simp: strip_both_def dest!: set_dropWhileD)

lemma js_trim_strip: "js_trim s = strip_both is_js_space s"
  by (simp add: js_trim_def trim_end_def trim_start_def strip_both_def)

lemma clean_line_eq: "clean_line raw = js_trim raw"
  using strip_both_ends [of is_js_space raw]
  by (auto simp: clean_line_def js_trim_strip Let_def is_js_space_def)

lemma clean_column_set: "set (clean_column s) \<subseteq> set s"
  using strip_both_set js_trim_strip unfolding clean_column_def by (metis order_trans)

lemma split_csv_loop_set: "w \<in> set (split_csv_loop cur q s) \<Longrightarrow> set w \<subseteq> set cur \<union> (set s - {quote_mark})"
proof (induction cur q s rule: split_csv_loop.induct)
  case (1 cur q)
  then show ?case using clean_column_set by auto
next
  case (2 cur q c s)
  with clean_column_set [of cur] show ?case by (fastforce split: if_splits)
qed

text \<open>What every address that the parser returns looks like.\<close>

definition edge :: "char \<Rightarrow> bool" where
  "edge c \<longleftrightarrow> c = quote_mark \<or> c = CHR 39 \<or> is_js_space c"

definition clean_address :: "string \<Rightarrow> bool" where
  "clean_address e \<longleftrightarrow> is_address e \<and> js_lower e = e \<and> \<not> edge (hd e) \<and> \<not> edge (last e) \<and>
     quote_mark \<notin> set e \<and> line_feed \<notin> set e"

lemma char_is_code:
  "c = CHR 34 \<longleftrightarrow> code c = 34" "c = CHR 39 \<longleftrightarrow> code c = 39" "c = CHR 10 \<longleftrightarrow> code c = 10"
  using of_char_eq_iff [of c "CHR 34", where ?'a = nat] of_char_eq_iff [of c "CHR 39", where ?'a = nat]
    of_char_eq_iff [of c "CHR 10", where ?'a = nat] by simp_all

lemma code_lower_char:
  "code (lower_char c) =
     (if 65 \<le> code c \<and> code c \<le> 90 \<or> 192 \<le> code c \<and> code c \<le> 222 \<and> code c \<noteq> 215 then code c + 32 else code c)"
  by (auto simp: lower_char_def Let_def)

lemma edge_lower [simp]: "edge (lower_char c) = edge c"
  unfolding edge_def is_js_space_def quote_mark_def char_is_code by (auto simp: code_lower_char)

lemma lower_char_newline: "lower_char c = line_feed \<longleftrightarrow> c = line_feed" "lower_char c = quote_mark \<longleftrightarrow> c = quote_mark"
  unfolding line_feed_def quote_mark_def char_is_code by (auto simp: code_lower_char)

lemma lower_image: "line_feed \<in> lower_char ` A \<longleftrightarrow> line_feed \<in> A" "quote_mark \<in> lower_char ` A \<longleftrightarrow> quote_mark \<in> A"
  by (metis imageE image_eqI lower_char_newline(1), metis imageE image_eqI lower_char_newline(2))

lemma line_email_clean:
  assumes "line_feed \<notin> set line" and "is_address (line_email col line)"
  shows "clean_address (line_email col line)"
proof -
  define raw where "raw = (if col < length (splitCsvLine line) then splitCsvLine line ! col else [])"
  have raw: "set raw \<subseteq> set line - {quote_mark}"
    using split_csv_loop_set [of "splitCsvLine line ! col" "[]" False line]
    by (auto simp: raw_def splitCsvLine_def)
  define x where "x = strip_both edge (js_trim raw)"
  have e: "line_email col line = js_lower x"
    by (simp add: line_email_def raw_def x_def Let_def edge_def [abs_def])
  have "set x \<subseteq> set raw" using strip_both_set js_trim_strip unfolding x_def by (metis order_trans)
  then have "quote_mark \<notin> set (js_lower x)" "line_feed \<notin> set (js_lower x)"
    using raw assms(1) by (auto simp: js_lower_def lower_image)
  moreover have "x \<noteq> []" using assms(2) by (auto simp: e is_address_def)
  moreover from this have "\<not> edge (hd x)" "\<not> edge (last x)"
    using strip_both_ends [of edge "js_trim raw"] by (simp_all add: x_def)
  ultimately show ?thesis
    using assms(2) by (simp add: e clean_address_def js_lower_def hd_map last_map comp_def)
qed

lemma csv_emails_clean: "list_all clean_address (csv_emails text)"
proof -
  let ?ls = "filter (\<lambda>l. l \<noteq> []) (map clean_line (split_on line_feed text))"
  have no: "line_feed \<notin> set l" if "l \<in> set ?ls" for l
    using that split_on_no_sep [of _ line_feed "text"] strip_both_set [of is_js_space]
    by (auto simp: clean_line_eq js_trim_strip)
  have body: "list_all clean_address (filter is_address (map (line_email col) ls))" if "set ls \<subseteq> set ?ls" for col ls
  proof -
    have "clean_address (line_email col l)" if "l \<in> set ls" "is_address (line_email col l)" for l
      using that \<open>set ls \<subseteq> set ?ls\<close> no by (intro line_email_clean) auto
    then show ?thesis by (auto simp: list_all_iff)
  qed
  show ?thesis
  proof (cases ?ls)
    case Nil
    then show ?thesis by (simp add: csv_emails_def)
  next
    case (Cons l ls)
    then have sub: "set ls \<subseteq> set ?ls" "set (l # ls) \<subseteq> set ?ls" by (simp_all add: subset_insertI)
    show ?thesis
    proof (cases "email_column l")
      case (Some i)
      then show ?thesis using body [OF sub(1)] Cons by (simp add: csv_emails_def)
    next
      case None
      then show ?thesis using body [OF sub(1), of 0] body [OF sub(2), of 0] Cons
        by (cases "CHR ''@'' \<in> set l") (simp_all add: csv_emails_def)
    qed
  qed
qed


text \<open>A file of lines without line feeds splits into them.\<close>

lemma split_on_lines:
  "list_all (\<lambda>l. d \<notin> set l) ls \<Longrightarrow> split_on d (concat (map (\<lambda>l. l @ [d]) ls)) = ls @ [[]]"
  by (induction ls) (simp_all add: split_on_sep)

lemma join_lines: "ls \<noteq> [] \<Longrightarrow> join_with [d] ls @ [d] = concat (map (\<lambda>l. l @ [d]) ls)"
  by (induction "[d]" ls rule: join_with.induct) simp_all

lemma export_pages_lines: "export_pages rows = concat (map (\<lambda>r. export_line r @ [line_feed]) rows)"
proof (induction rows rule: export_pages.induct)
  case (1 rows)
  have page: "buildExportCsvRows p = concat (map (\<lambda>r. export_line r @ [line_feed]) p)" if "p \<noteq> []" for p
    using that join_lines [of "map export_line p" line_feed] by (simp add: buildExportCsvRows_def comp_def)
  show ?case
  proof (cases "length rows < EXPORT_PAGE")
    case True
    then show ?thesis by (subst export_pages.simps) (simp add: page Let_def)
  next
    case False
    then have ne: "take EXPORT_PAGE rows \<noteq> []" by (auto simp: EXPORT_PAGE_def)
    have "export_pages rows = buildExportCsvRows (take EXPORT_PAGE rows) @ export_pages (drop EXPORT_PAGE rows)"
      using ne False by (subst export_pages.simps) (simp add: Let_def)
    also have "\<dots> = concat (map (\<lambda>r. export_line r @ [line_feed]) (take EXPORT_PAGE rows @ drop EXPORT_PAGE rows))"
      using 1 [OF refl ne] False by (simp only: page [OF ne] map_append concat_append) simp
    finally show ?thesis by simp
  qed
qed

text \<open>No column but the free texts can contain a line feed.\<close>

definition one_line :: "email_row \<Rightarrow> bool" where
  "one_line r \<longleftrightarrow> line_feed \<notin> set (or_else (er_subStatus r) []) \<and> line_feed \<notin> set (or_else (er_domain r) []) \<and>
     line_feed \<notin> set (or_else (er_errorMessage r) [])"

lemma show_no_newline: "line_feed \<notin> set (show_nat n)" "line_feed \<notin> set (show_int i)"
proof -
  have n: "line_feed \<notin> set (show_nat n)" for n
    using show_nat_digits [of n] by (auto simp: line_feed_def is_digit_def)
  then show "line_feed \<notin> set (show_nat n)" "line_feed \<notin> set (show_int i)"
    by (simp_all add: show_int_def) (simp_all add: line_feed_def)
qed

lemma explain_no_newline: "line_feed \<notin> set (explainReason r)"
proof (cases "er_status r")
  case None
  then show ?thesis by (simp add: explainReason_def line_feed_def)
next
  case (Some st)
  show ?thesis by (cases st) (simp_all add: explainReason_def Some line_feed_def)
qed

lemma text_no_newline:
  "line_feed \<notin> set (bool_text b)" "line_feed \<notin> set (bool_column ob)" "line_feed \<notin> set (status_text st)"
  by (simp_all add: bool_text_def bool_column_def status_text_def line_feed_def
    split: option.split verification_status.split)

lemma iso_no_newline: "line_feed \<notin> set (iso_time t)"
proof -
  have p: "line_feed \<notin> set (pad2 n)" "line_feed \<notin> set (pad3 n)" for n
    using show_no_newline(2) [of n] by (simp_all add: pad2_def pad3_def line_feed_def)
  show ?thesis
    using p show_no_newline(2) by (simp add: iso_time_def iso_day_def Let_def) (simp add: line_feed_def)
qed

lemma join_with_set: "set (join_with sep ws) \<subseteq> set sep \<union> (\<Union>w \<in> set ws. set w)"
  by (induction sep ws rule: join_with.induct) auto

lemma export_line_one_line:
  assumes "one_line r" and "line_feed \<notin> set (er_email r)"
  shows "line_feed \<notin> set (export_line r)"
proof -
  have dq: "line_feed \<notin> set (double_quotes s)" if "line_feed \<notin> set s" for s
    using that by (auto simp: double_quotes_def line_feed_def quote_mark_def split: if_splits)
  have q: "line_feed \<notin> set (quote_column c)" if "line_feed \<notin> set c" for c
    using that by (simp add: quote_column_def line_feed_def quote_mark_def)
  have err: "line_feed \<notin> set (the (er_errorMessage r))" if "truthy (er_errorMessage r)"
    using that assms(1) by (cases "er_errorMessage r") (simp_all add: one_line_def)
  have "line_feed \<notin> set (case er_status r of None \<Rightarrow> [] | Some s \<Rightarrow> status_text s)"
    by (simp add: text_no_newline split: option.split)
  moreover have "line_feed \<notin> set (case er_score r of None \<Rightarrow> [] | Some n \<Rightarrow> show_nat n)"
    "line_feed \<notin> set (case er_durationMs r of None \<Rightarrow> [] | Some n \<Rightarrow> show_int n)"
    "line_feed \<notin> set (case er_processedAt r of None \<Rightarrow> [] | Some t \<Rightarrow> iso_time t)"
    by (simp_all add: show_no_newline iso_no_newline split: option.split)
  moreover have "line_feed \<notin> set (if truthy (er_errorMessage r)
      then [quote_mark] @ double_quotes (the (er_errorMessage r)) @ [quote_mark] else [])"
    using dq err by (simp add: line_feed_def quote_mark_def)
  ultimately have "list_all (\<lambda>c. line_feed \<notin> set c) (export_columns r)"
    using assms unfolding export_columns_def one_line_def
    by (simp only: list.pred_inject text_no_newline explain_no_newline simp_thms)
  then have "\<forall>c \<in> set (export_columns r). line_feed \<notin> set c" by (simp add: list_all_iff)
  with q join_with_set [of "'',''" "map quote_column (export_columns r)"] show ?thesis
    by (auto simp: export_line_def line_feed_def)
qed

lemma split_csv_loop_plain:
  "quote_mark \<notin> set e \<Longrightarrow> CHR '','' \<notin> set e \<Longrightarrow> split_csv_loop cur False (e @ s) = split_csv_loop (cur @ e) False s"
  by (induction e arbitrary: cur) auto

lemma split_csv_loop_quoted:
  "quote_mark \<notin> set e \<Longrightarrow> split_csv_loop cur True (e @ s) = split_csv_loop (cur @ e) True s"
  by (induction e arbitrary: cur) auto

lemma trim_end_append: "\<not> is_js_space c \<Longrightarrow> trim_end (s @ c # t) = s @ c # trim_end t"
  by (simp add: trim_end_def dropWhile_append dropWhile_eq_self_iff)

lemma clean_column_address: "clean_address e \<Longrightarrow> clean_column e = e"
  using strip_both_fixed_iff [of is_js_space e] strip_both_fixed_iff [of "\<lambda>c. c = quote_mark" e]
  by (auto simp: clean_column_def js_trim_strip clean_address_def edge_def is_address_def)

lemma line_email_export:
  assumes "clean_address (er_email r)"
  shows "line_email 0 (clean_line (export_line r)) = er_email r"
proof -
  let ?e = "er_email r" and ?q = "quote_column (er_email r)"
  have ne: "?e \<noteq> []" and q: "quote_mark \<notin> set ?e" and sp: "\<not> is_js_space (hd ?e)"
    and low: "js_lower ?e = ?e"
    using assms by (auto simp: clean_address_def is_address_def edge_def)
  obtain rest where line: "export_line r = ?q @ CHR '','' # rest"
    unfolding export_line_def export_columns_def list.map join_with.simps by auto
  have "?q \<noteq> []" "\<not> is_js_space (hd ?q)"
    using ne sp by (auto simp: quote_column_def quote_mark_def is_js_space_def)
  then have "trim_start (export_line r) = export_line r"
    unfolding line trim_start_def by (cases ?q) simp_all
  then have cl: "clean_line (export_line r) = ?q @ CHR '','' # trim_end rest"
    unfolding clean_line_eq js_trim_def line by (simp add: trim_end_append is_js_space_def)
  have "splitCsvLine (?q @ CHR '','' # t) = ?e # split_csv_loop [] False t" for t
  proof (cases "CHR '','' \<in> set ?e")
    case True
    have ns: "\<not> starts_with [quote_mark] ?e" using q ne by (cases ?e) (auto simp: starts_with_char)
    have "?q = quote_mark # ?e @ [quote_mark]" using True ns by (simp add: quote_column_def has_sub_char)
    then show ?thesis
      using q clean_column_address [OF assms]
      by (simp add: splitCsvLine_def split_csv_loop_quoted) (simp add: quote_mark_def)
  next
    case False
    then have "?q = ?e" by (simp add: quote_column_def has_sub_char)
    with False q show ?thesis
      by (simp add: splitCsvLine_def split_csv_loop_plain clean_column_address [OF assms]) (simp add: quote_mark_def)
  qed
  then have "line_email 0 (clean_line (export_line r)) = js_lower (strip_both edge (js_trim ?e))"
    by (simp add: line_email_def cl Let_def edge_def [abs_def])
  also have "js_trim ?e = ?e" using assms strip_both_fixed_iff [of is_js_space ?e]
    by (auto simp: js_trim_strip clean_address_def edge_def)
  also have "strip_both edge ?e = ?e" using assms strip_both_fixed_iff [of edge ?e] by (simp add: clean_address_def)
  finally show ?thesis by (simp add: low)
qed

lemma header_line:
  "EXPORT_CSV_HEADER = butlast EXPORT_CSV_HEADER @ [line_feed]" "line_feed \<notin> set (butlast EXPORT_CSV_HEADER)"
  "clean_line (butlast EXPORT_CSV_HEADER) = butlast EXPORT_CSV_HEADER" "butlast EXPORT_CSV_HEADER \<noteq> []"
  "email_column (butlast EXPORT_CSV_HEADER) = Some 0"
  by code_simp+

text \<open>C12: an export, uploaded again, gives back the addresses of the job in their order, numbered and marked as
  in the first upload, whatever commas, quotes or texts the other columns hold, as long as none of these contains a line
  feed.\<close>

theorem export_reimport:
  assumes "map er_email rows = csv_emails csv" and "list_all one_line rows"
  shows "parseCsv (export_csv rows) = parseCsv csv"
proof -
  let ?h = "butlast EXPORT_CSV_HEADER" and ?ls = "map export_line rows"
  have clean: "clean_address (er_email r)" if "r \<in> set rows" for r
    using that csv_emails_clean [of csv] assms(1) by (metis (no_types, lifting) imageI list.set_map list_all_iff)
  have nl: "list_all (\<lambda>l. line_feed \<notin> set l) (?h # ?ls)"
    using header_line(2) assms(2) clean export_line_one_line by (auto simp: list_all_iff clean_address_def)
  have "export_csv rows = concat (map (\<lambda>l. l @ [line_feed]) (?h # ?ls))"
    unfolding export_csv_def export_pages_lines using header_line(1) by (simp add: comp_def)
  then have lines: "split_on line_feed (export_csv rows) = ?h # ?ls @ [[]]"
    using split_on_lines [OF nl] by simp
  have email: "line_email 0 (clean_line (export_line r)) = er_email r" if "r \<in> set rows" for r
    by (rule line_email_export [OF clean [OF that]])
  have ne: "clean_line (export_line r) \<noteq> []" if "r \<in> set rows" for r
  proof
    assume "clean_line (export_line r) = []"
    then have "line_email 0 [] = er_email r" using email [OF that] by simp
    moreover have "line_email 0 [] = []" by code_simp
    ultimately show False using clean [OF that] by (simp add: clean_address_def is_address_def)
  qed
  have "filter (\<lambda>l. l \<noteq> []) (map clean_line (?h # ?ls @ [[]])) = ?h # map clean_line ?ls"
    using ne header_line(3,4) by (auto simp: clean_line_eq js_trim_def trim_start_def trim_end_def filter_id_conv)
  then have "csv_emails (export_csv rows) = filter is_address (map (line_email 0) (map clean_line ?ls))"
    unfolding csv_emails_def lines by (simp add: header_line(5))
  also have "\<dots> = filter is_address (map er_email rows)" using email by (simp cong: map_cong)
  also have "\<dots> = map er_email rows" using clean by (auto simp: filter_id_conv clean_address_def)
  finally show ?thesis using assms(1) by (simp add: parseCsv_rows)
qed

definition demo_csv :: string where
  "demo_csv = ''Name,E-Mail'' @ [line_feed] @ ''Ann, Ann@X.io '' @ [CHR 13, line_feed, line_feed] @ ''Bob,bob@y.io'' @ [line_feed] @ ''Ann,ann@x.io''"

definition demo_row :: "string \<Rightarrow> email_row" where
  "demo_row e = \<lparr>er_email = e, er_rowIndex = 0, er_isDuplicate = False, er_status = Some Risky, er_subStatus = Some ''catch_all'',
     er_score = Some 42, er_domain = None, er_syntaxValid = None, er_isDisposable = None, er_isRoleAccount = None,
     er_mxFound = None, er_smtpChecked = None, er_smtpReachable = None, er_isCatchAll = Some True, er_greylisted = False,
     er_spfValid = None, er_dkimFound = None, er_dmarcValid = None, er_blacklisted = None, er_durationMs = Some 7,
     er_verificationId = None, er_errorMessage = Some ''a, b'', er_processedAt = Some 0\<rparr>"

lemma demo_csv_emails: "csv_emails demo_csv = [''ann@x.io'', ''bob@y.io'', ''ann@x.io'']"
  by code_simp

theorem export_reimport_witness:
  "parseCsv (export_csv (map demo_row [''ann@x.io'', ''bob@y.io'', ''ann@x.io''])) =
     [\<lparr>pe_email = ''ann@x.io'', pe_rowIndex = 0, pe_isDuplicate = False\<rparr>,
      \<lparr>pe_email = ''bob@y.io'', pe_rowIndex = 1, pe_isDuplicate = False\<rparr>,
      \<lparr>pe_email = ''ann@x.io'', pe_rowIndex = 2, pe_isDuplicate = True\<rparr>]"
proof -
  have "parseCsv (export_csv (map demo_row [''ann@x.io'', ''bob@y.io'', ''ann@x.io''])) = parseCsv demo_csv"
    by (rule export_reimport) (simp_all add: demo_csv_emails demo_row_def one_line_def line_feed_def)
  then show ?thesis by (simp add: parseCsv_rows demo_csv_emails number_rows_def upt_rec)
qed
end
