(* ===== verification/BulkJob.thy ===== *)
theory BulkJob
  imports Csv Engine UsageMeter "HOL-Library.Multiset"
begin

text \<open>
  \<^verbatim>\<open>src/workers/bulkWorker.ts\<close>: one attempt at a bulk verification job, its resumption, the failure
  handler and the start-up sweep. The state is the job, its rows, the key table, the files of the
  export bucket, the events, and a log of the addresses the engine was asked for. A failing operation that the code
  does not catch ends the attempt, and which operations fail is the argument \<open>be_up\<close>; a process that dies
  at such a point leaves the same state. The verdict of the engine on a row (an outcome of
  \<open>verifyEmail\<close>) is an argument. Rows are addressed by their row index, which is unique in a
  job; one attempt happens at one instant.
\<close>

subsection \<open>State\<close>

record bulk_job =
  bj_apiKeyId :: string
  bj_fileName :: string
  bj_storagePath :: string
  bj_totalEmails :: nat
  bj_processedCount :: nat
  bj_validCount :: nat
  bj_invalidCount :: nat
  bj_riskyCount :: nat
  bj_unknownCount :: nat
  bj_duplicateCount :: nat
  bj_errorCount :: nat
  bj_status :: string
  bj_errorMessage :: "string option"
  bj_exportPath :: "string option"
  bj_startedAt :: "int option"
  bj_completedAt :: "int option"
  bj_cancelledAt :: "int option"
  bj_webhookSent :: bool

record bulk_world =
  bw_job :: bulk_job
  bw_rows :: "email_row list"
  bw_keys :: key_table
  bw_files :: "string \<Rightarrow> string option"
  bw_events :: "(string \<times> string) list"
  bw_verified :: "string list"

text \<open>How a call of the engine ends: never, with an exception, or with a result.\<close>

datatype engine_end = Never | EngineThrew string | Verdict verification_result

definition engine_end_of :: "outcome \<Rightarrow> engine_end" where
  "engine_end_of oc = (case oc of Hang \<Rightarrow> Never | Throw msg \<Rightarrow> EngineThrew msg | Done r w \<Rightarrow> Verdict r)"

text \<open>The operations of an attempt that may fail.\<close>

datatype bulk_point = MarkStarted | FailUpdate | LoadRows | CreateBatch nat | ReloadRows | CheckCancelled nat
  | FlushRows nat | SaveProgress nat | PublishProgress nat | FinalFlush | MarkCompleted | Dispatch | MarkNotified

record bulk_env =
  be_now :: int
  be_up :: "bulk_point \<Rightarrow> bool"
  be_download :: "string + string"
  be_verify :: "email_row \<Rightarrow> engine_end"
  be_between :: "nat \<Rightarrow> bulk_job \<Rightarrow> bulk_job"
  be_upload :: bool
  be_meter_up :: "nat \<Rightarrow> bool"
  be_meter_later :: "key_table \<Rightarrow> key_table"

datatype bulk_end = Ended | Failed | Hung

definition isFinderSourcedJob :: "string \<Rightarrow> bool" where
  "isFinderSourcedJob storagePath = has_sub ''/finder-'' storagePath"

definition EMAIL_CONCURRENCY :: nat where "EMAIL_CONCURRENCY = 40"
definition PROGRESS_FLUSH_INTERVAL :: nat where "PROGRESS_FLUSH_INTERVAL = 25"
definition CREATE_BATCH :: nat where "CREATE_BATCH = 500"

subsection \<open>Rows\<close>

definition fresh_row :: "parsed_email \<Rightarrow> email_row" where
  "fresh_row p = \<lparr>er_email = pe_email p, er_rowIndex = pe_rowIndex p, er_isDuplicate = pe_isDuplicate p, er_status = None,
     er_subStatus = None, er_score = None, er_domain = None, er_syntaxValid = None, er_isDisposable = None,
     er_isRoleAccount = None, er_mxFound = None, er_smtpChecked = None, er_smtpReachable = None, er_isCatchAll = None,
     er_greylisted = False, er_spfValid = None, er_dkimFound = None, er_dmarcValid = None, er_blacklisted = None,
     er_durationMs = None, er_verificationId = None, er_errorMessage = None, er_processedAt = None\<rparr>"

text \<open>The messages of \<^verbatim>\<open>src/engine/syntax.ts\<close>, which a row stores as its reason.\<close>

definition quoted :: "string \<Rightarrow> string" where
  "quoted s = [quote_mark] @ s @ [quote_mark]"

definition syntax_message :: "syntax_error \<Rightarrow> string" where
  "syntax_message e = (case e of
     NotAString \<Rightarrow> ''Email must be a string''
   | EmailEmpty \<Rightarrow> ''Email is empty''
   | EmailTooLong \<Rightarrow> ''Email exceeds maximum length of 254 characters''
   | EmailNotAscii \<Rightarrow> ''Email contains non-ASCII characters; encode internationalized domains with punycode first''
   | NoAtSign \<Rightarrow> ''Email must contain an '' @ quoted ''@'' @ '' symbol''
   | MultipleAtSigns \<Rightarrow> ''Email contains multiple '' @ quoted ''@'' @ '' symbols outside a quoted local part''
   | NothingBeforeAt \<Rightarrow> ''Local part is empty (nothing before '' @ quoted ''@'' @ '')''
   | NothingAfterAt \<Rightarrow> ''Domain part is empty (nothing after '' @ quoted ''@'' @ '')''
   | LocalEmpty \<Rightarrow> ''Local part is empty''
   | LocalTooLong l \<Rightarrow> ''Local part '' @ quoted l @ '' exceeds maximum length of 64 characters''
   | UnmatchedQuote \<Rightarrow> ''Local part has an unmatched opening quote''
   | QuotedLocalEmpty \<Rightarrow> ''Quoted local part is empty''
   | BadEscape \<Rightarrow> ''Invalid escape sequence in quoted local part''
   | UnescapedQuote \<Rightarrow> ''Unescaped double-quote inside quoted local part''
   | ControlCharacter n \<Rightarrow> ''Control character in quoted local part at position '' @ show_nat n
   | QuoteOutsideQuoted \<Rightarrow> ''Local part contains a quote outside a quoted-string''
   | LocalLeadingDot \<Rightarrow> ''Local part cannot start with a dot''
   | LocalTrailingDot \<Rightarrow> ''Local part cannot end with a dot''
   | LocalDoubleDot \<Rightarrow> ''Local part cannot contain consecutive dots''
   | LocalBadChar c \<Rightarrow> ''Local part contains invalid character: '' @ quoted (case c of None \<Rightarrow> ''?'' | Some x \<Rightarrow> [x]) @
       '' (code '' @ (case c of None \<Rightarrow> ''?'' | Some x \<Rightarrow> show_nat (code x)) @ '')''
   | IpLiteral \<Rightarrow> ''IP address literals (e.g. [1.2.3.4]) are not supported''
   | DomainTooLong \<Rightarrow> ''Domain exceeds maximum length of 253 characters''
   | DomainEmpty \<Rightarrow> ''Domain is empty''
   | DomainNoDot d \<Rightarrow> ''Domain '' @ quoted d @ '' must have at least one dot (e.g. example.com)''
   | DomainDoubleDot \<Rightarrow> ''Domain contains consecutive dots''
   | LabelTooLong l \<Rightarrow> ''Domain label '' @ quoted l @ '' exceeds 63 characters''
   | LabelLeadingHyphen l \<Rightarrow> ''Domain label '' @ quoted l @ '' cannot start with a hyphen''
   | LabelTrailingHyphen l \<Rightarrow> ''Domain label '' @ quoted l @ '' cannot end with a hyphen''
   | LabelBadChar l c \<Rightarrow> ''Domain label '' @ quoted l @ '' contains invalid character: '' @
       quoted (case c of None \<Rightarrow> ''?'' | Some x \<Rightarrow> [x])
   | TldTooShort t \<Rightarrow> ''TLD '' @ quoted t @ '' is too short - must be at least 2 characters''
   | TldInvalid t \<Rightarrow> ''TLD '' @ quoted t @ '' is invalid - must contain only letters'')"

definition reason_text :: "sub_status \<Rightarrow> string" where
  "reason_text s = (case s of SyntaxReason e \<Rightarrow> syntax_message e | Sub t \<Rightarrow> t)"

definition error_update :: "int \<Rightarrow> string \<Rightarrow> email_row \<Rightarrow> email_row" where
  "error_update now msg r = r\<lparr>er_status := None, er_subStatus := None, er_score := None, er_domain := None,
     er_syntaxValid := None, er_isDisposable := None, er_isRoleAccount := None, er_mxFound := None, er_smtpChecked := None,
     er_smtpReachable := None, er_isCatchAll := None, er_greylisted := False, er_spfValid := None, er_dkimFound := None,
     er_dmarcValid := None, er_blacklisted := None, er_durationMs := None, er_verificationId := None,
     er_errorMessage := Some msg, er_processedAt := Some now\<rparr>"

definition verdict_update :: "verification_result \<Rightarrow> email_row \<Rightarrow> email_row" where
  "verdict_update v r = (let c = res_checks v in
     r\<lparr>er_status := Some (res_status v), er_subStatus := map_option reason_text (res_subStatus v),
       er_score := Some (res_score v), er_domain := Some (res_domain v), er_syntaxValid := Some (c_syntaxValid c),
       er_isDisposable := Some (c_isDisposable c), er_isRoleAccount := Some (c_isRoleAccount c), er_mxFound := Some (c_mxFound c),
       er_smtpChecked := Some (c_smtpChecked c), er_smtpReachable := c_smtpReachable c, er_isCatchAll := c_isCatchAll c,
       er_greylisted := c_greylisted c, er_spfValid := c_spfValid c, er_dkimFound := c_dkimFound c,
       er_dmarcValid := c_dmarcValid c, er_blacklisted := c_blacklisted c, er_durationMs := Some (res_durationMs v),
       er_verificationId := Some (res_id v), er_errorMessage := None, er_processedAt := Some (res_checkedAt v)\<rparr>)"

text \<open>The update of a row whose call has settled.\<close>

definition row_update :: "bulk_env \<Rightarrow> email_row \<Rightarrow> email_row" where
  "row_update env r = (case be_verify env r of
     Never \<Rightarrow> r
   | EngineThrew msg \<Rightarrow> error_update (be_now env) msg r
   | Verdict v \<Rightarrow> verdict_update v r)"

definition flushRowUpdates :: "email_row list \<Rightarrow> bulk_world \<Rightarrow> bulk_world" where
  "flushRowUpdates us w = w\<lparr>bw_rows := map (\<lambda>r. case List.find (\<lambda>u. er_rowIndex u = er_rowIndex r) us of
     None \<Rightarrow> r | Some u \<Rightarrow> u) (bw_rows w)\<rparr>"

subsection \<open>Counts\<close>

record bulk_counts =
  processedCount :: nat
  validCount :: nat
  invalidCount :: nat
  riskyCount :: nat
  unknownCount :: nat
  errorCount :: nat

definition no_counts :: bulk_counts where
  "no_counts = \<lparr>processedCount = 0, validCount = 0, invalidCount = 0, riskyCount = 0, unknownCount = 0, errorCount = 0\<rparr>"

definition count_row :: "email_row \<Rightarrow> bulk_counts \<Rightarrow> bulk_counts" where
  "count_row r c = (let c1 = c\<lparr>processedCount := processedCount c + 1\<rparr> in case er_status r of
     None \<Rightarrow> c1\<lparr>errorCount := errorCount c + 1\<rparr>
   | Some Valid \<Rightarrow> c1\<lparr>validCount := validCount c + 1\<rparr>
   | Some Invalid \<Rightarrow> c1\<lparr>invalidCount := invalidCount c + 1\<rparr>
   | Some Risky \<Rightarrow> c1\<lparr>riskyCount := riskyCount c + 1\<rparr>
   | Some Unknown \<Rightarrow> c1\<lparr>unknownCount := unknownCount c + 1\<rparr>)"

text \<open>The seeds of the counts from the rows of an earlier attempt.\<close>

definition counts_of :: "email_row list \<Rightarrow> bulk_counts" where
  "counts_of rs = \<lparr>processedCount = length rs,
     validCount = length (filter (\<lambda>r. er_status r = Some Valid) rs),
     invalidCount = length (filter (\<lambda>r. er_status r = Some Invalid) rs),
     riskyCount = length (filter (\<lambda>r. er_status r = Some Risky) rs),
     unknownCount = length (filter (\<lambda>r. er_status r = Some Unknown) rs),
     errorCount = length (filter (\<lambda>r. er_status r = None) rs)\<rparr>"

definition save_counts :: "bulk_counts \<Rightarrow> bulk_job \<Rightarrow> bulk_job" where
  "save_counts c j = j\<lparr>bj_processedCount := processedCount c, bj_validCount := validCount c, bj_invalidCount := invalidCount c,
     bj_riskyCount := riskyCount c, bj_unknownCount := unknownCount c, bj_errorCount := errorCount c\<rparr>"

subsection \<open>The loop over the rows\<close>

text \<open>\<open>LoopDone\<close> carries the updates that are not yet written.\<close>

datatype loop_end = LoopDone "email_row list" bulk_counts | LoopCancelled bulk_counts | LoopFailed | LoopHung

function bulk_chunks :: "bulk_env \<Rightarrow> nat \<Rightarrow> nat \<Rightarrow> email_row list \<Rightarrow> email_row list \<Rightarrow> bulk_counts \<Rightarrow> bulk_world \<Rightarrow>
    loop_end \<times> bulk_world" where
  "bulk_chunks env goal k todo updates c w =
     (if todo = [] then (LoopDone updates c, w)
      else if \<not> be_up env (CheckCancelled k) then (LoopFailed, w)
      else
        let w0 = w\<lparr>bw_job := be_between env k (bw_job w)\<rparr>; chunk = take EMAIL_CONCURRENCY todo in
        if bj_status (bw_job w0) = ''cancelled'' \<or> bj_cancelledAt (bw_job w0) \<noteq> None then (LoopCancelled c, w0)
        else
          let w1 = w0\<lparr>bw_verified := bw_verified w0 @ map er_email chunk\<rparr> in
          if \<exists>r \<in> set chunk. be_verify env r = Never then (LoopHung, w1)
          else
            let us = map (row_update env) chunk; c' = fold count_row us c; updates' = updates @ us in
            if (length updates' \<ge> PROGRESS_FLUSH_INTERVAL \<or> processedCount c' = goal) \<and> length updates' > 0 then
              if \<not> be_up env (FlushRows k) then (LoopFailed, w1)
              else
                let w2 = flushRowUpdates updates' w1 in
                if \<not> be_up env (SaveProgress k) then (LoopFailed, w2)
                else
                  let w3 = w2\<lparr>bw_job := save_counts c' (bw_job w2)\<rparr> in
                  if \<not> be_up env (PublishProgress k) then (LoopFailed, w3)
                  else bulk_chunks env goal (k + 1) (drop EMAIL_CONCURRENCY todo) [] c' w3
            else bulk_chunks env goal (k + 1) (drop EMAIL_CONCURRENCY todo) updates' c' w1)"
  by pat_completeness auto

termination by (relation "measure (\<lambda>(env, goal, k, todo, us, c, w). length todo)") (auto simp: EMAIL_CONCURRENCY_def)

declare bulk_chunks.simps [simp del]

subsection \<open>An attempt\<close>

definition update_job :: "(bulk_job \<Rightarrow> bulk_job) \<Rightarrow> bulk_world \<Rightarrow> bulk_world" where
  "update_job f w = w\<lparr>bw_job := f (bw_job w)\<rparr>"

definition failJob :: "bulk_env \<Rightarrow> string \<Rightarrow> bulk_world \<Rightarrow> bulk_end \<times> bulk_world" where
  "failJob env msg w =
     (if be_up env FailUpdate then
        (Ended, update_job (\<lambda>j. j\<lparr>bj_status := ''failed'', bj_errorMessage := Some (take 1000 msg), bj_completedAt := Some (be_now env)\<rparr>) w)
      else (Failed, w))"

function create_rows :: "bulk_env \<Rightarrow> nat \<Rightarrow> parsed_email list \<Rightarrow> bulk_world \<Rightarrow> bool \<times> bulk_world" where
  "create_rows env i parsed w =
     (if parsed = [] then (True, w)
      else if \<not> be_up env (CreateBatch i) then (False, w)
      else create_rows env (i + 1) (drop CREATE_BATCH parsed)
             (w\<lparr>bw_rows := bw_rows w @ map fresh_row (take CREATE_BATCH parsed)\<rparr>))"
  by pat_completeness auto

termination by (relation "measure (\<lambda>(env, i, parsed, w). length parsed)") (auto simp: CREATE_BATCH_def)

declare create_rows.simps [simp del]

text \<open>The rows of the job in the order of the file: those there are, or new ones.\<close>

definition load_rows :: "bulk_env \<Rightarrow> parsed_email list \<Rightarrow> bulk_world \<Rightarrow> email_row list option \<times> bulk_world" where
  "load_rows env parsed w =
     (if \<not> be_up env LoadRows then (None, w)
      else if bw_rows w \<noteq> [] then (Some (sort_key er_rowIndex (bw_rows w)), w)
      else case create_rows env 0 parsed w of
        (False, w') \<Rightarrow> (None, w')
      | (True, w') \<Rightarrow> if be_up env ReloadRows then (Some (sort_key er_rowIndex (bw_rows w')), w') else (None, w'))"

definition bill :: "bulk_env \<Rightarrow> nat \<Rightarrow> bulk_world \<Rightarrow> bulk_world" where
  "bill env n w =
     (let key = bj_apiKeyId (bw_job w) in
      w\<lparr>bw_keys := (if isFinderSourcedJob (bj_storagePath (bw_job w))
          then incrementFinderUsage (be_meter_up env) (be_meter_later env) key (int n) (bw_keys w)
          else incrementUsageBy (be_meter_up env 0) key (int n) (bw_keys w))\<rparr>)"

definition export_path :: "string \<Rightarrow> bulk_job \<Rightarrow> string" where
  "export_path jobId j = ''exports/'' @ bj_apiKeyId j @ ''/'' @ jobId @ ''/results.csv''"

definition finish_job :: "bulk_env \<Rightarrow> string \<Rightarrow> nat \<Rightarrow> bulk_counts \<Rightarrow> bulk_world \<Rightarrow> bulk_end \<times> bulk_world" where
  "finish_job env jobId dupeCount c w =
     (let path = export_path jobId (bw_job w);
          w1 = (if be_upload env then w\<lparr>bw_files := (bw_files w)(path := Some (export_csv (sort_key er_rowIndex (bw_rows w))))\<rparr> else w)
      in if \<not> be_up env MarkCompleted then (Failed, w1)
         else
           let w2 = bill env (processedCount c) (update_job (\<lambda>j. (save_counts c j)\<lparr>bj_status := ''completed'',
                 bj_duplicateCount := dupeCount, bj_exportPath := (if be_upload env then Some path else None),
                 bj_completedAt := Some (be_now env)\<rparr>) w1)
           in if \<not> be_up env Dispatch then (Failed, w2)
              else
                let w3 = w2\<lparr>bw_events := bw_events w2 @ [(''bulk_job.completed'', jobId)]\<rparr>
                in if \<not> be_up env MarkNotified then (Failed, w3)
                   else (Ended, update_job (\<lambda>j. j\<lparr>bj_webhookSent := True\<rparr>) w3))"

definition already_done :: "email_row list \<Rightarrow> email_row list" where
  "already_done rows = filter (\<lambda>r. \<not> er_isDuplicate r \<and> er_processedAt r \<noteq> None) rows"

definition to_verify :: "email_row list \<Rightarrow> email_row list" where
  "to_verify rows = filter (\<lambda>r. \<not> er_isDuplicate r \<and> er_processedAt r = None) rows"

definition verify_rows :: "bulk_env \<Rightarrow> string \<Rightarrow> email_row list \<Rightarrow> bulk_world \<Rightarrow> bulk_end \<times> bulk_world" where
  "verify_rows env jobId rows w =
     (let doneRows = already_done rows; todo = to_verify rows in
      case bulk_chunks env (length doneRows + length todo) 0 todo [] (counts_of doneRows) w of
        (LoopHung, w1) \<Rightarrow> (Hung, w1)
      | (LoopFailed, w1) \<Rightarrow> (Failed, w1)
      | (LoopCancelled c, w1) \<Rightarrow> (Ended, bill env (processedCount c) w1)
      | (LoopDone us c, w1) \<Rightarrow>
          if us \<noteq> [] \<and> \<not> be_up env FinalFlush then (Failed, w1)
          else finish_job env jobId (length (filter er_isDuplicate rows)) c (flushRowUpdates us w1))"

definition processBulkJob :: "bulk_env \<Rightarrow> string \<Rightarrow> bulk_world \<Rightarrow> bulk_end \<times> bulk_world" where
  "processBulkJob env jobId w =
     (if \<not> be_up env MarkStarted then (Failed, w)
      else
        let w1 = update_job (\<lambda>j. j\<lparr>bj_status := ''processing'', bj_startedAt := Some (be_now env)\<rparr>) w in
        case be_download env of
          Inl msg \<Rightarrow> failJob env msg w1
        | Inr csv \<Rightarrow>
            let parsed = parseCsv csv in
            if parsed = [] then failJob env ''No email rows found in CSV after re-parsing'' w1
            else case load_rows env parsed w1 of
              (None, w2) \<Rightarrow> (Failed, w2)
            | (Some rows, w2) \<Rightarrow> verify_rows env jobId rows w2)"

text \<open>The handler of a failed attempt; an update that fails there is lost.\<close>

definition on_failed :: "bulk_env \<Rightarrow> string \<Rightarrow> bulk_world \<Rightarrow> bulk_world" where
  "on_failed env msg w = snd (failJob env msg w)"

text \<open>The sweep at start-up: which jobs it queues again.\<close>

definition STALL_MS :: int where "STALL_MS = 30 * 60000"

definition is_stalled :: "int \<Rightarrow> bulk_job \<Rightarrow> bool" where
  "is_stalled now j \<longleftrightarrow> bj_status j = ''processing'' \<and>
     (case bj_startedAt j of None \<Rightarrow> False | Some t \<Rightarrow> t < now - STALL_MS)"

definition recoverStalledJobs :: "int \<Rightarrow> bulk_world \<Rightarrow> bool \<times> bulk_world" where
  "recoverStalledJobs now w =
     (if is_stalled now (bw_job w) then (True, update_job (\<lambda>j. j\<lparr>bj_status := ''pending'', bj_startedAt := None\<rparr>) w)
      else (False, w))"

subsection \<open>Updates and counts\<close>

lemma row_update_keeps [simp]:
  "er_rowIndex (row_update env r) = er_rowIndex r" "er_email (row_update env r) = er_email r"
  "er_isDuplicate (row_update env r) = er_isDuplicate r"
  by (simp_all add: row_update_def error_update_def verdict_update_def Let_def split: engine_end.split)

lemma row_update_done: "be_verify env r \<noteq> Never \<Longrightarrow> er_processedAt (row_update env r) \<noteq> None"
  by (simp add: row_update_def error_update_def verdict_update_def Let_def split: engine_end.split)

lemma count_row_counts_of: "count_row r (counts_of rs) = counts_of (rs @ [r])"
  by (simp add: count_row_def counts_of_def Let_def split: option.split verification_status.split)

lemma fold_count_row: "fold count_row us (counts_of rs) = counts_of (rs @ us)"
  by (induction us arbitrary: rs) (simp_all add: count_row_counts_of)

lemma counts_of_sum:
  "validCount (counts_of rs) + invalidCount (counts_of rs) + riskyCount (counts_of rs) + unknownCount (counts_of rs) +
     errorCount (counts_of rs) = length rs"
proof (induction rs)
  case (Cons r rs)
  then show ?case
    by (cases "er_status r") (auto simp: counts_of_def split: verification_status.splits, metis verification_status.exhaust)
qed (simp add: counts_of_def)

lemma counts_of_simps [simp]: "processedCount (counts_of rs) = length rs"
  by (simp add: counts_of_def)

lemma save_counts_twice [simp]: "save_counts c (save_counts c' j) = save_counts c j"
  by (simp add: save_counts_def)

lemma save_counts_simps [simp]:
  "bj_status (save_counts c j) = bj_status j" "bj_cancelledAt (save_counts c j) = bj_cancelledAt j"
  "bj_apiKeyId (save_counts c j) = bj_apiKeyId j" "bj_storagePath (save_counts c j) = bj_storagePath j"
  by (simp_all add: save_counts_def)

lemma find_by_index:
  assumes "inj_on er_rowIndex (set us)" and "u \<in> set us" and "er_rowIndex u = er_rowIndex r"
  shows "List.find (\<lambda>u. er_rowIndex u = er_rowIndex r) us = Some u"
proof -
  obtain v where v: "List.find (\<lambda>u. er_rowIndex u = er_rowIndex r) us = Some v"
    using assms(2,3) find_None_iff_all [of "\<lambda>u. er_rowIndex u = er_rowIndex r" us]
    by (cases "List.find (\<lambda>u. er_rowIndex u = er_rowIndex r) us") auto
  then have "v \<in> set us" "er_rowIndex v = er_rowIndex r" by (auto simp: find_Some_iff)
  with v assms show ?thesis by (metis inj_onD)
qed

text \<open>Writing the updates of a part of the rows.\<close>

lemma flush_rows:
  assumes "inj_on er_rowIndex (set (bw_rows w))" and "set chunk \<subseteq> set (bw_rows w)"
  shows "bw_rows (flushRowUpdates (map (row_update env) chunk) w) =
    map (\<lambda>r. if r \<in> set chunk then row_update env r else r) (bw_rows w)"
proof -
  have "(case List.find (\<lambda>u. er_rowIndex u = er_rowIndex r) (map (row_update env) chunk) of None \<Rightarrow> r | Some u \<Rightarrow> u) =
      (if r \<in> set chunk then row_update env r else r)" if r: "r \<in> set (bw_rows w)" for r
  proof (cases "r \<in> set chunk")
    case True
    have "inj_on er_rowIndex (set (map (row_update env) chunk))"
      using assms by (auto simp: inj_on_def)
    from find_by_index [OF this, of "row_update env r" r] True show ?thesis by simp
  next
    case False
    then have "List.find (\<lambda>u. er_rowIndex u = er_rowIndex r) (map (row_update env) chunk) = None"
      using assms r by (auto simp: find_None_iff_all inj_on_def)
    with False show ?thesis by simp
  qed
  then show ?thesis by (simp add: flushRowUpdates_def)
qed

lemma flush_only: "flushRowUpdates us w = w\<lparr>bw_rows := bw_rows (flushRowUpdates us w)\<rparr>"
  by (simp add: flushRowUpdates_def)

lemma flush_simps [simp]:
  "bw_job (flushRowUpdates us w) = bw_job w" "bw_keys (flushRowUpdates us w) = bw_keys w"
  "bw_files (flushRowUpdates us w) = bw_files w" "bw_events (flushRowUpdates us w) = bw_events w"
  "bw_verified (flushRowUpdates us w) = bw_verified w" "flushRowUpdates [] w = w"
  by (simp_all add: flushRowUpdates_def)

subsection \<open>An attempt that nothing disturbs\<close>

definition calm :: "bulk_env \<Rightarrow> bool" where
  "calm env \<longleftrightarrow> (\<forall>p. be_up env p) \<and> (\<forall>k j. be_between env k j = j) \<and> (\<forall>r. be_verify env r \<noteq> Never)"

definition not_cancelled :: "bulk_job \<Rightarrow> bool" where
  "not_cancelled j \<longleftrightarrow> bj_status j \<noteq> ''cancelled'' \<and> bj_cancelledAt j = None"

lemma chunk_flushes: "todo \<noteq> [] \<Longrightarrow> length (take EMAIL_CONCURRENCY todo) \<ge> PROGRESS_FLUSH_INTERVAL \<or>
    length rs + length (take EMAIL_CONCURRENCY todo) = length rs + length todo"
  by (auto simp: EMAIL_CONCURRENCY_def PROGRESS_FLUSH_INTERVAL_def min_def)

lemma bulk_chunks_step:
  assumes "calm env" and "not_cancelled (bw_job w)" and "todo \<noteq> []"
    and "PROGRESS_FLUSH_INTERVAL \<le> length (take EMAIL_CONCURRENCY todo) \<or>
      processedCount (fold count_row (map (row_update env) (take EMAIL_CONCURRENCY todo)) c) = goal"
  shows "bulk_chunks env goal k todo [] c w = bulk_chunks env goal (k + 1) (drop EMAIL_CONCURRENCY todo) []
    (fold count_row (map (row_update env) (take EMAIL_CONCURRENCY todo)) c)
    (update_job (save_counts (fold count_row (map (row_update env) (take EMAIL_CONCURRENCY todo)) c))
      (flushRowUpdates (map (row_update env) (take EMAIL_CONCURRENCY todo))
        (w\<lparr>bw_verified := bw_verified w @ map er_email (take EMAIL_CONCURRENCY todo)\<rparr>)))"
proof -
  define chunk where "chunk = take EMAIL_CONCURRENCY todo"
  have "be_up env p" "be_between env i j = j" "be_verify env r \<noteq> Never" for p i j r
    using assms(1) by (simp_all add: calm_def)
  moreover have "chunk \<noteq> []" using assms(3) by (simp add: chunk_def EMAIL_CONCURRENCY_def)
  ultimately show ?thesis using assms(2-4) unfolding chunk_def [symmetric]
    by (subst bulk_chunks.simps) (simp add: Let_def not_cancelled_def update_job_def chunk_def [symmetric])
qed

lemma inj_on_image_keep: "(\<And>r. f (g r) = f r) \<Longrightarrow> inj_on f S \<Longrightarrow> inj_on f (g ` S)"
  by (auto simp: inj_on_def)

lemma bulk_chunks_calm:
  assumes "calm env" and "not_cancelled (bw_job w)" and "inj_on er_rowIndex (set (bw_rows w))"
    and "set todo \<subseteq> set (bw_rows w)" and "distinct todo" and "goal = length rs + length todo"
  shows "bulk_chunks env goal k todo [] (counts_of rs) w =
    (LoopDone [] (counts_of (rs @ map (row_update env) todo)),
     w\<lparr>bw_rows := map (\<lambda>r. if r \<in> set todo then row_update env r else r) (bw_rows w),
       bw_verified := bw_verified w @ map er_email todo,
       bw_job := (if todo = [] then bw_job w else save_counts (counts_of (rs @ map (row_update env) todo)) (bw_job w))\<rparr>)"
  using assms
proof (induction "length todo" arbitrary: k todo rs w rule: less_induct)
  case less
  show ?case
  proof (cases "todo = []")
    case True
    then show ?thesis by (subst bulk_chunks.simps) simp
  next
    case False
    let ?chunk = "take EMAIL_CONCURRENCY todo" and ?rest = "drop EMAIL_CONCURRENCY todo"
    let ?rs = "rs @ map (row_update env) ?chunk"
    define w3 where "w3 = w\<lparr>bw_rows := map (\<lambda>r. if r \<in> set ?chunk then row_update env r else r) (bw_rows w),
      bw_verified := bw_verified w @ map er_email ?chunk, bw_job := save_counts (counts_of ?rs) (bw_job w)\<rparr>"
    have up: "be_up env p" "be_between env i j = j" "be_verify env r \<noteq> Never" for p i j r
      using less.prems(1) by (simp_all add: calm_def)
    have sub: "set ?chunk \<subseteq> set (bw_rows w)" using less.prems(4) by (rule order_trans [OF set_take_subset])
    have flush: "flushRowUpdates (map (row_update env) ?chunk) (w\<lparr>bw_verified := vs\<rparr>) =
        w\<lparr>bw_rows := map (\<lambda>r. if r \<in> set ?chunk then row_update env r else r) (bw_rows w), bw_verified := vs\<rparr>" for vs
    proof -
      have rows: "bw_rows (flushRowUpdates (map (row_update env) ?chunk) (w\<lparr>bw_verified := vs\<rparr>)) =
          map (\<lambda>r. if r \<in> set ?chunk then row_update env r else r) (bw_rows (w\<lparr>bw_verified := vs\<rparr>))"
        by (rule flush_rows) (use less.prems(3) sub in simp_all)
      show ?thesis by (rule trans [OF flush_only]) (simp only: rows, simp)
    qed
    have parts: "set todo = set ?chunk \<union> set ?rest"
      by (metis append_take_drop_id set_append)
    have disjoint: "set ?rest \<inter> set ?chunk = {}"
      using less.prems(5) by (metis append_take_drop_id disjoint_iff distinct_append)
    then have split: "r \<in> set (bw_rows w) \<Longrightarrow> r \<in> set ?chunk \<Longrightarrow> row_update env r \<notin> set ?rest" for r
      using less.prems(3,4) parts row_update_keeps(1) [of env r] by (metis Un_iff disjoint_iff inj_onD subsetD)
    have cnt: "fold count_row (map (row_update env) ?chunk) (counts_of rs) = counts_of ?rs" by (rule fold_count_row)
    have upd: "update_job (save_counts (counts_of ?rs)) (w\<lparr>bw_rows := rows, bw_verified := vs\<rparr>) =
        w\<lparr>bw_rows := rows, bw_verified := vs, bw_job := save_counts (counts_of ?rs) (bw_job w)\<rparr>" for rows vs
      by (simp add: update_job_def)
    have "PROGRESS_FLUSH_INTERVAL \<le> length ?chunk \<or> processedCount (counts_of ?rs) = goal"
      using chunk_flushes [OF False, of rs] less.prems(6) by (simp only: counts_of_simps length_append length_map)
    then have "bulk_chunks env goal k todo [] (counts_of rs) w = bulk_chunks env goal (k + 1) ?rest [] (counts_of ?rs) w3"
      using bulk_chunks_step [OF less.prems(1,2) False, of "counts_of rs" goal k]
      unfolding cnt flush upd w3_def by blast
    also have "\<dots> = (LoopDone [] (counts_of (?rs @ map (row_update env) ?rest)),
       w3\<lparr>bw_rows := map (\<lambda>r. if r \<in> set ?rest then row_update env r else r) (bw_rows w3),
         bw_verified := bw_verified w3 @ map er_email ?rest,
         bw_job := (if ?rest = [] then bw_job w3 else save_counts (counts_of (?rs @ map (row_update env) ?rest)) (bw_job w3))\<rparr>)"
    proof (rule less.hyps)
      show "length ?rest < length todo" using False by (simp add: EMAIL_CONCURRENCY_def)
      show "calm env" by fact
      show "not_cancelled (bw_job w3)" using less.prems(2) by (simp add: w3_def not_cancelled_def)
      have rows3: "set (bw_rows w3) = (\<lambda>r. if r \<in> set ?chunk then row_update env r else r) ` set (bw_rows w)"
        by (simp add: w3_def)
      show "inj_on er_rowIndex (set (bw_rows w3))"
        unfolding rows3 by (rule inj_on_image_keep [OF _ less.prems(3)]) simp
      show "set ?rest \<subseteq> set (bw_rows w3)"
      proof
        fix r
        assume r: "r \<in> set ?rest"
        then have "r \<notin> set ?chunk" "r \<in> set (bw_rows w)" using disjoint parts less.prems(4) by blast+
        then show "r \<in> set (bw_rows w3)" unfolding rows3 by (intro image_eqI [of _ _ r]) simp_all
      qed
      show "distinct ?rest" using less.prems(5) by simp
      show "goal = length ?rs + length ?rest" using less.prems(6) by simp
    qed
    also have "?rs @ map (row_update env) ?rest = rs @ map (row_update env) todo"
      by (metis append.assoc append_take_drop_id map_append)
    finally have eq: "bulk_chunks env goal k todo [] (counts_of rs) w =
      (LoopDone [] (counts_of (rs @ map (row_update env) todo)),
       w3\<lparr>bw_rows := map (\<lambda>r. if r \<in> set ?rest then row_update env r else r) (bw_rows w3),
         bw_verified := bw_verified w3 @ map er_email ?rest,
         bw_job := (if ?rest = [] then bw_job w3 else save_counts (counts_of (rs @ map (row_update env) todo)) (bw_job w3))\<rparr>)" .
    have "map (\<lambda>r. if r \<in> set ?rest then row_update env r else r) (bw_rows w3) =
        map (\<lambda>r. if r \<in> set todo then row_update env r else r) (bw_rows w)"
    proof -
      have "(if (if r \<in> set ?chunk then row_update env r else r) \<in> set ?rest
            then row_update env (if r \<in> set ?chunk then row_update env r else r)
            else if r \<in> set ?chunk then row_update env r else r) = (if r \<in> set todo then row_update env r else r)"
        if r: "r \<in> set (bw_rows w)" for r
        using parts r split [of r] by auto
      then show ?thesis by (simp add: w3_def comp_def)
    qed
    moreover have "bw_verified w3 @ map er_email ?rest = bw_verified w @ map er_email todo"
      by (simp add: w3_def) (metis append_take_drop_id map_append)
    moreover have "(if ?rest = [] then bw_job w3 else save_counts (counts_of (rs @ map (row_update env) todo)) (bw_job w3)) =
        save_counts (counts_of (rs @ map (row_update env) todo)) (bw_job w)"
      using append_take_drop_id [of EMAIL_CONCURRENCY todo] by (cases "?rest = []") (simp_all add: w3_def)
    ultimately show ?thesis unfolding eq using False by (simp add: w3_def)
  qed
qed

subsection \<open>The result of an attempt\<close>

text \<open>What becomes of a row: a duplicate and a row of an earlier attempt stay, any other gets its verdict.\<close>

definition finish_row :: "bulk_env \<Rightarrow> email_row \<Rightarrow> email_row" where
  "finish_row env r = (if er_isDuplicate r \<or> er_processedAt r \<noteq> None then r else row_update env r)"

definition finished_job :: "bulk_env \<Rightarrow> string \<Rightarrow> email_row list \<Rightarrow> bulk_job \<Rightarrow> bulk_job" where
  "finished_job env jobId rows j =
     (save_counts (counts_of (filter (\<lambda>r. \<not> er_isDuplicate r) rows)) j)\<lparr>bj_status := ''completed'',
       bj_duplicateCount := length (filter er_isDuplicate rows),
       bj_exportPath := (if be_upload env then Some (export_path jobId j) else None),
       bj_completedAt := Some (be_now env), bj_webhookSent := True\<rparr>"

lemma sort_key_sorted: "sorted (map f xs) \<Longrightarrow> sort_key f xs = xs"
  by (induction xs) (simp_all add: insort_is_Cons)

lemma counts_of_mset: "mset rs = mset rs' \<Longrightarrow> counts_of rs = counts_of rs'"
proof -
  assume eq: "mset rs = mset rs'"
  have "length (filter P rs) = length (filter P rs')" for P
    using eq by (metis mset_filter size_mset)
  moreover have "length rs = length rs'" using eq by (metis size_mset)
  ultimately show ?thesis by (simp add: counts_of_def)
qed

lemma finish_row_parts:
  "mset (filter (\<lambda>r. \<not> er_isDuplicate r) (map (finish_row env) rows)) =
     mset (already_done rows @ map (row_update env) (to_verify rows))"
  by (induction rows) (auto simp: finish_row_def already_done_def to_verify_def)

lemma finish_row_keeps [simp]:
  "er_rowIndex (finish_row env r) = er_rowIndex r" "er_isDuplicate (finish_row env r) = er_isDuplicate r"
  "er_email (finish_row env r) = er_email r"
  by (simp_all add: finish_row_def)

lemma finish_row_again:
  "be_verify env r \<noteq> Never \<Longrightarrow> finish_row env (row_update env r) = row_update env r"
  using row_update_done [of env r] by (auto simp: finish_row_def)

text \<open>A table of rows as the worker keeps it: in the order of the file, with unique numbers.\<close>

definition row_table :: "email_row list \<Rightarrow> bool" where
  "row_table rows \<longleftrightarrow> sorted (map er_rowIndex rows) \<and> distinct (map er_rowIndex rows)"

lemma row_table_finish: "row_table (map (finish_row env) rows) = row_table rows"
  by (simp add: row_table_def comp_def)

lemma verify_rows_calm:
  assumes "calm env" and "not_cancelled (bw_job w)" and "row_table (bw_rows w)"
  obtains w' where "verify_rows env jobId (bw_rows w) w = (Ended, w')"
    "bw_rows w' = map (finish_row env) (bw_rows w)"
    "bw_job w' = finished_job env jobId (bw_rows w') (bw_job w)"
    "bw_keys w' = bw_keys (bill env (length (filter (\<lambda>r. \<not> er_isDuplicate r) (bw_rows w))) w)"
    "bw_verified w' = bw_verified w @ map er_email (to_verify (bw_rows w))"
    "bw_files w' = (if be_upload env
       then (bw_files w)(export_path jobId (bw_job w) := Some (export_csv (bw_rows w'))) else bw_files w)"
proof -
  let ?rows = "bw_rows w" and ?todo = "to_verify (bw_rows w)" and ?done = "already_done (bw_rows w)"
  define c where "c = counts_of (?done @ map (row_update env) ?todo)"
  define j where "j = (if ?todo = [] then bw_job w else save_counts c (bw_job w))"
  define w1 where "w1 = w\<lparr>bw_rows := map (\<lambda>r. if r \<in> set ?todo then row_update env r else r) ?rows,
    bw_verified := bw_verified w @ map er_email ?todo, bw_job := j\<rparr>"
  have up: "be_up env p" for p using assms(1) by (simp add: calm_def)
  have inj: "inj_on er_rowIndex (set ?rows)" "distinct ?rows"
    using assms(3) by (simp_all add: row_table_def distinct_map)
  have loop: "bulk_chunks env (length ?done + length ?todo) 0 ?todo [] (counts_of ?done) w = (LoopDone [] c, w1)"
    unfolding w1_def j_def c_def
    by (rule bulk_chunks_calm) (use assms(1,2) inj in \<open>auto simp: to_verify_def\<close>)
  have rows1: "bw_rows w1 = map (finish_row env) ?rows"
    by (auto simp: w1_def finish_row_def to_verify_def)
  have cnt: "c = counts_of (filter (\<lambda>r. \<not> er_isDuplicate r) (map (finish_row env) ?rows))"
    unfolding c_def by (rule counts_of_mset) (simp only: finish_row_parts)
  have len: "processedCount c = length (filter (\<lambda>r. \<not> er_isDuplicate r) ?rows)"
    unfolding cnt by (simp add: filter_map comp_def)
  have sorted: "sort_key er_rowIndex (bw_rows w1) = bw_rows w1"
    using row_table_finish [of env ?rows] assms(3) by (simp add: rows1 row_table_def sort_key_sorted)
  have dup: "filter er_isDuplicate (map (finish_row env) ?rows) = map (finish_row env) (filter er_isDuplicate ?rows)"
    by (simp add: filter_map comp_def)
  have job: "save_counts c' j = save_counts c' (bw_job w)" "bj_apiKeyId j = bj_apiKeyId (bw_job w)"
    "bj_storagePath j = bj_storagePath (bw_job w)" for c'
    by (simp_all add: j_def)
  have path: "export_path jobId j = export_path jobId (bw_job w)" by (simp add: export_path_def job)
  show thesis
  proof (rule that)
    show "verify_rows env jobId ?rows w = (Ended, snd (finish_job env jobId (length (filter er_isDuplicate ?rows)) c w1))"
      by (simp add: verify_rows_def loop up finish_job_def Let_def)
  qed (simp_all add: finish_job_def up Let_def bill_def update_job_def sorted [unfolded rows1] rows1 finished_job_def cnt [symmetric] dup len
    job path, simp_all add: w1_def job path)
qed

lemma number_rows_index: "map pe_rowIndex (number_rows es) = [0..<length es]"
  by (simp add: number_rows_def comp_def)

lemma row_table_fresh: "row_table (map fresh_row (take n (number_rows es)))"
proof -
  have "map er_rowIndex (map fresh_row (take n (number_rows es))) = take n [0..<length es]"
    by (simp add: comp_def fresh_row_def take_map flip: number_rows_index)
  then show ?thesis by (simp add: row_table_def sorted_wrt_take del: map_map)
qed

text \<open>The creation of the rows, up to the first batch that fails.\<close>

lemma create_rows_all:
  assumes "\<And>i. be_up env (CreateBatch i)"
  shows "create_rows env i parsed w = (True, w\<lparr>bw_rows := bw_rows w @ map fresh_row parsed\<rparr>)"
proof (induction "length parsed" arbitrary: i parsed w rule: less_induct)
  case less
  show ?case
  proof (cases "parsed = []")
    case True
    then show ?thesis by (subst create_rows.simps) simp
  next
    case False
    then have "length (drop CREATE_BATCH parsed) < length parsed" by (simp add: CREATE_BATCH_def)
    note IH = less [OF this, of "i + 1" "w\<lparr>bw_rows := bw_rows w @ map fresh_row (take CREATE_BATCH parsed)\<rparr>"]
    have "map fresh_row (take CREATE_BATCH parsed) @ map fresh_row (drop CREATE_BATCH parsed) = map fresh_row parsed"
      by (metis append_take_drop_id map_append)
    with False assms IH show ?thesis by (subst create_rows.simps) simp
  qed
qed

lemma create_rows_cut:
  assumes "\<And>i. i < n \<Longrightarrow> be_up env (CreateBatch i)" and "\<not> be_up env (CreateBatch n)"
    and "n * CREATE_BATCH < length parsed"
  shows "create_rows env 0 parsed w = (False, w\<lparr>bw_rows := bw_rows w @ map fresh_row (take (n * CREATE_BATCH) parsed)\<rparr>)"
proof -
  have "k + m = n \<Longrightarrow> m * CREATE_BATCH < length ps \<Longrightarrow>
      create_rows env k ps w = (False, w\<lparr>bw_rows := bw_rows w @ map fresh_row (take (m * CREATE_BATCH) ps)\<rparr>)" for k m ps w
  proof (induction m arbitrary: k ps w)
    case 0
    then show ?case using assms(2) by (subst create_rows.simps) auto
  next
    case (Suc m)
    have "create_rows env k ps w = create_rows env (k + 1) (drop CREATE_BATCH ps)
        (w\<lparr>bw_rows := bw_rows w @ map fresh_row (take CREATE_BATCH ps)\<rparr>)"
      using Suc.prems assms(1) [of k] by (subst create_rows.simps) auto
    moreover have "take CREATE_BATCH ps @ take (m * CREATE_BATCH) (drop CREATE_BATCH ps) = take (Suc m * CREATE_BATCH) ps"
      by (simp add: take_add)
    then have "map fresh_row (take CREATE_BATCH ps) @ map fresh_row (take (m * CREATE_BATCH) (drop CREATE_BATCH ps)) =
        map fresh_row (take (Suc m * CREATE_BATCH) ps)" by (metis map_append)
    moreover have "m * CREATE_BATCH < length (drop CREATE_BATCH ps)" using Suc.prems(2) by simp
    ultimately show ?case using Suc.IH [of "k + 1" "drop CREATE_BATCH ps"] Suc.prems(1) by simp
  qed
  from this [of 0 n] assms(3) show ?thesis by simp
qed

text \<open>The addresses of the rows to verify, when none has been: the first occurrences.\<close>

lemma to_verify_fresh:
  "distinct (map er_email (to_verify (map fresh_row (take n (number_rows es))))) \<and>
   set (map er_email (to_verify (map fresh_row (take n (number_rows es))))) = set (take n es)"
proof (induction es arbitrary: n rule: rev_induct)
  case Nil
  show ?case by (simp add: number_rows_def to_verify_def)
next
  case (snoc e es)
  have len: "length (number_rows es) = length es" by (simp add: number_rows_def)
  show ?case
  proof (cases "n \<le> length es")
    case True
    then show ?thesis using snoc.IH [of n] by (simp add: number_rows_snoc len)
  next
    case False
    have all: "take n (number_rows es) = number_rows es" "take n es = es" using False len by simp_all
    from snoc.IH [of n] False show ?thesis
      unfolding number_rows_snoc all
      by (auto simp: all len to_verify_def fresh_row_def take_Cons')
  qed
qed

text \<open>The rows an attempt works on: those there are, or one per address of the file.\<close>

definition base_rows :: "string \<Rightarrow> bulk_world \<Rightarrow> email_row list" where
  "base_rows csv w = (if bw_rows w = [] then map fresh_row (parseCsv csv) else bw_rows w)"

definition started :: "bulk_env \<Rightarrow> bulk_job \<Rightarrow> bulk_job" where
  "started env j = j\<lparr>bj_status := ''processing'', bj_startedAt := Some (be_now env)\<rparr>"

definition unique_rows :: "email_row list \<Rightarrow> email_row list" where
  "unique_rows rows = filter (\<lambda>r. \<not> er_isDuplicate r) rows"

lemma base_rows_table: "row_table (bw_rows w) \<Longrightarrow> row_table (base_rows csv w)"
  using row_table_fresh [of "length (csv_emails csv)" "csv_emails csv"]
  by (simp add: base_rows_def parseCsv_rows number_rows_def)

lemma parseCsv_Nil [simp]: "parseCsv csv = [] \<longleftrightarrow> csv_emails csv = []"
  by (simp add: parseCsv_rows number_rows_def)

lemma load_rows_up:
  assumes "be_up env LoadRows" and "\<And>i. be_up env (CreateBatch i)" and "be_up env ReloadRows"
    and "row_table (bw_rows w)"
  shows "load_rows env (parseCsv csv) w = (Some (base_rows csv w), w\<lparr>bw_rows := base_rows csv w\<rparr>)"
proof (cases "bw_rows w = []")
  case True
  then show ?thesis
    using assms create_rows_all [of env 0 "parseCsv csv" w] base_rows_table [OF assms(4), of csv]
    by (simp add: load_rows_def base_rows_def row_table_def sort_key_sorted)
next
  case False
  then show ?thesis using assms by (simp add: load_rows_def base_rows_def row_table_def sort_key_sorted)
qed

lemma processBulkJob_up:
  assumes "be_up env MarkStarted" "be_up env LoadRows" "\<And>i. be_up env (CreateBatch i)" "be_up env ReloadRows"
    and "be_download env = Inr csv" "csv_emails csv \<noteq> []" "row_table (bw_rows w)"
  shows "processBulkJob env jobId w =
    verify_rows env jobId (base_rows csv w) (w\<lparr>bw_job := started env (bw_job w), bw_rows := base_rows csv w\<rparr>)"
proof -
  let ?w1 = "update_job (\<lambda>j. j\<lparr>bj_status := ''processing'', bj_startedAt := Some (be_now env)\<rparr>) w"
  have "row_table (bw_rows ?w1)" "base_rows csv ?w1 = base_rows csv w"
    using assms(7) by (simp_all add: update_job_def base_rows_def)
  with load_rows_up [OF assms(2-4), of ?w1 csv] assms(1,5,6) show ?thesis
    by (simp add: processBulkJob_def) (simp add: update_job_def started_def)
qed

lemma processBulkJob_calm:
  assumes "calm env" and "be_download env = Inr csv" and "csv_emails csv \<noteq> []"
    and "row_table (bw_rows w)" and "bj_cancelledAt (bw_job w) = None"
  obtains w' where "processBulkJob env jobId w = (Ended, w')"
    "bw_rows w' = map (finish_row env) (base_rows csv w)"
    "bw_job w' = finished_job env jobId (bw_rows w') (started env (bw_job w))"
    "bw_keys w' = bw_keys (bill env (length (unique_rows (base_rows csv w))) w)"
    "bw_verified w' = bw_verified w @ map er_email (to_verify (base_rows csv w))"
proof -
  let ?w2 = "w\<lparr>bw_job := started env (bw_job w), bw_rows := base_rows csv w\<rparr>"
  have run: "processBulkJob env jobId w = verify_rows env jobId (bw_rows ?w2) ?w2"
    using processBulkJob_up [OF _ _ _ _ assms(2-4), of jobId] assms(1) by (simp add: calm_def)
  have "not_cancelled (bw_job ?w2)" using assms(5) by (simp add: not_cancelled_def started_def)
  moreover have "row_table (bw_rows ?w2)" using base_rows_table [OF assms(4)] by simp
  ultimately obtain w' where w': "verify_rows env jobId (bw_rows ?w2) ?w2 = (Ended, w')"
    "bw_rows w' = map (finish_row env) (bw_rows ?w2)"
    "bw_job w' = finished_job env jobId (bw_rows w') (bw_job ?w2)"
    "bw_keys w' = bw_keys (bill env (length (filter (\<lambda>r. \<not> er_isDuplicate r) (bw_rows ?w2))) ?w2)"
    "bw_verified w' = bw_verified ?w2 @ map er_email (to_verify (bw_rows ?w2))"
    by (rule verify_rows_calm [OF assms(1)])
  have keys: "bw_keys (bill env n ?w2) = bw_keys (bill env n w)" for n
    by (simp add: bill_def started_def Let_def)
  show thesis
    by (rule that [of w']) (use run w' in \<open>simp_all add: keys unique_rows_def\<close>)
qed

lemma finished_job_counts:
  "bj_status (finished_job env jobId rows j) = ''completed''"
  "bj_processedCount (finished_job env jobId rows j) = length (unique_rows rows)"
  "bj_validCount (finished_job env jobId rows j) + bj_invalidCount (finished_job env jobId rows j) +
     bj_riskyCount (finished_job env jobId rows j) + bj_unknownCount (finished_job env jobId rows j) +
     bj_errorCount (finished_job env jobId rows j) = length (unique_rows rows)"
  "bj_duplicateCount (finished_job env jobId rows j) = length rows - length (unique_rows rows)"
  using counts_of_sum [of "unique_rows rows"] sum_length_filter_compl [of er_isDuplicate rows]
  by (simp_all add: finished_job_def save_counts_def unique_rows_def)

lemma unique_rows_finish [simp]: "length (unique_rows (map (finish_row env) rows)) = length (unique_rows rows)"
  by (simp add: unique_rows_def filter_map comp_def)


subsection \<open>Resuming an attempt\<close>

text \<open>The rows after a part of the work: each is as before, or has got its verdict.\<close>

definition part_done :: "bulk_env \<Rightarrow> email_row list \<Rightarrow> email_row list \<Rightarrow> bool" where
  "part_done env R R' \<longleftrightarrow> list_all2 (\<lambda>r r'. r' = r \<or> (finish_row env r = row_update env r \<and> r' = row_update env r)) R R'"

definition pending_update :: "bulk_env \<Rightarrow> email_row list \<Rightarrow> email_row \<Rightarrow> bool" where
  "pending_update env R u \<longleftrightarrow> (\<exists>r \<in> set R. finish_row env r = row_update env r \<and> u = row_update env r)"

definition same_up_to_counts :: "bulk_job \<Rightarrow> bulk_job \<Rightarrow> bool" where
  "same_up_to_counts j j' \<longleftrightarrow> save_counts no_counts j' = save_counts no_counts j"

lemma part_done_refl: "part_done env R R"
  by (simp add: part_done_def list.rel_refl)

lemma part_done_index: "part_done env R R' \<Longrightarrow> map er_rowIndex R' = map er_rowIndex R"
  unfolding part_done_def by (induction rule: list_all2_induct) auto

lemma part_done_finish:
  assumes "\<And>r. be_verify env r \<noteq> Never" and "part_done env R R'"
  shows "map (finish_row env) R' = map (finish_row env) R"
  using assms(2) unfolding part_done_def
  by (induction rule: list_all2_induct) (auto simp: finish_row_again [OF assms(1)])

lemma part_done_unique: "part_done env R R' \<Longrightarrow> length (unique_rows R') = length (unique_rows R)"
  unfolding part_done_def unique_rows_def by (induction rule: list_all2_induct) auto

lemma part_done_flush:
  assumes "inj_on er_rowIndex (set R)" and "part_done env R (bw_rows w)" and "\<forall>u \<in> set us. pending_update env R u"
  shows "part_done env R (bw_rows (flushRowUpdates us w))"
proof -
  let ?P = "\<lambda>r r'. r' = r \<or> (finish_row env r = row_update env r \<and> r' = row_update env r)"
  have "?P r (case List.find (\<lambda>u. er_rowIndex u = er_rowIndex r') us of None \<Rightarrow> r' | Some u \<Rightarrow> u)"
    if "r \<in> set R" "?P r r'" for r r'
  proof (cases "List.find (\<lambda>u. er_rowIndex u = er_rowIndex r') us")
    case (Some u)
    then have u: "u \<in> set us" "er_rowIndex u = er_rowIndex r" using that(2) by (auto simp: find_Some_iff)
    then obtain x where x: "x \<in> set R" "finish_row env x = row_update env x" "u = row_update env x"
      using assms(3) by (auto simp: pending_update_def)
    with u assms(1) that(1) have "x = r" by (metis inj_onD row_update_keeps(1))
    with x Some show ?thesis by simp
  qed (use that(2) in simp)
  with assms(2) show ?thesis
    unfolding part_done_def flushRowUpdates_def
    by (simp add: list_all2_map2) (erule list.rel_mono_strong, blast)
qed

text \<open>One round of the loop, whatever fails in it.\<close>

lemma bulk_chunks_round:
  assumes run: "bulk_chunks env goal k todo us c w = (e, w')" and "todo \<noteq> []" and "\<And>i j. be_between env i j = j"
    and w1: "w1 = w\<lparr>bw_verified := bw_verified w @ map er_email (take EMAIL_CONCURRENCY todo)\<rparr>"
    and us': "us' = us @ map (row_update env) (take EMAIL_CONCURRENCY todo)"
    and c': "c' = fold count_row (map (row_update env) (take EMAIL_CONCURRENCY todo)) c"
    and w2: "w2 = flushRowUpdates us' w1"
  shows "w' \<in> {w, w1, w2, update_job (save_counts c') w2} \<or>
    bulk_chunks env goal (k + 1) (drop EMAIL_CONCURRENCY todo) [] c' (update_job (save_counts c') w2) = (e, w') \<or>
    bulk_chunks env goal (k + 1) (drop EMAIL_CONCURRENCY todo) us' c' w1 = (e, w')"
proof -
  let ?rest = "drop EMAIL_CONCURRENCY todo" and ?w3 = "update_job (save_counts c') w2"
  let ?go = "(length us' \<ge> PROGRESS_FLUSH_INTERVAL \<or> processedCount c' = goal) \<and> length us' > 0"
  have "bulk_chunks env goal k todo us c w =
     (if \<not> be_up env (CheckCancelled k) then (LoopFailed, w)
      else if bj_status (bw_job w) = ''cancelled'' \<or> bj_cancelledAt (bw_job w) \<noteq> None then (LoopCancelled c, w)
      else if \<exists>r \<in> set (take EMAIL_CONCURRENCY todo). be_verify env r = Never then (LoopHung, w1)
      else if ?go then
        (if \<not> be_up env (FlushRows k) then (LoopFailed, w1)
         else if \<not> be_up env (SaveProgress k) then (LoopFailed, w2)
         else if \<not> be_up env (PublishProgress k) then (LoopFailed, ?w3)
         else bulk_chunks env goal (k + 1) ?rest [] c' ?w3)
      else bulk_chunks env goal (k + 1) ?rest us' c' w1)"
    using assms(2,3) unfolding w2 c' us' w1 by (subst bulk_chunks.simps) (simp only: Let_def update_job_def if_False not_Cons_self2 simp_thms, simp add: update_job_def)
  with run show ?thesis by (simp split: if_splits)
qed

text \<open>What a part of the work leaves: the rows so far, the meter untouched, and the job but for its counts.\<close>

definition worked :: "bulk_env \<Rightarrow> email_row list \<Rightarrow> bulk_world \<Rightarrow> bulk_world \<Rightarrow> bool" where
  "worked env R w w' \<longleftrightarrow> part_done env R (bw_rows w') \<and> bw_keys w' = bw_keys w \<and> same_up_to_counts (bw_job w) (bw_job w')"

lemma loop_worked:
  assumes "inj_on er_rowIndex (set R)" and "\<And>i j. be_between env i j = j"
  shows "bulk_chunks env goal k todo us c w = (e, w') \<Longrightarrow> worked env R w0 w \<Longrightarrow>
    \<forall>u \<in> set us. pending_update env R u \<Longrightarrow> \<forall>r \<in> set todo. r \<in> set R \<and> finish_row env r = row_update env r \<Longrightarrow>
    worked env R w0 w'"
proof (induction "length todo" arbitrary: k todo us c w rule: less_induct)
  case less
  show ?case
  proof (cases "todo = []")
    case True
    then show ?thesis using less.prems(1,2) by (simp add: bulk_chunks.simps)
  next
    case False
    let ?chunk = "take EMAIL_CONCURRENCY todo" and ?rest = "drop EMAIL_CONCURRENCY todo"
    let ?us = "us @ map (row_update env) ?chunk" and ?w1 = "w\<lparr>bw_verified := bw_verified w @ map er_email (take EMAIL_CONCURRENCY todo)\<rparr>"
    let ?w2 = "flushRowUpdates ?us ?w1" and ?c = "fold count_row (map (row_update env) ?chunk) c"
    have pend: "\<forall>u \<in> set ?us. pending_update env R u"
      using less.prems(3,4) by (auto simp: pending_update_def dest: in_set_takeD)
    have rest: "\<forall>r \<in> set ?rest. r \<in> set R \<and> finish_row env r = row_update env r"
      using less.prems(4) by (auto dest: in_set_dropD)
    have short: "length ?rest < length todo" using False by (simp add: EMAIL_CONCURRENCY_def)
    have 1: "worked env R w0 ?w1" using less.prems(2) by (simp add: worked_def)
    have "part_done env R (bw_rows ?w2)"
      by (rule part_done_flush [OF assms(1) _ pend]) (use 1 in \<open>simp add: worked_def\<close>)
    with 1 have 2: "worked env R w0 ?w2" by (simp add: worked_def)
    then have 3: "worked env R w0 (update_job (save_counts ?c) ?w2)"
      by (simp add: worked_def update_job_def same_up_to_counts_def)
    note IH = less.hyps [OF short _ _ _ rest]
    from bulk_chunks_round [OF less.prems(1) False assms(2) refl refl refl refl]
    consider "w' \<in> {w, ?w1, ?w2, update_job (save_counts ?c) ?w2}"
      | "bulk_chunks env goal (k + 1) ?rest [] ?c (update_job (save_counts ?c) ?w2) = (e, w')"
      | "bulk_chunks env goal (k + 1) ?rest ?us ?c ?w1 = (e, w')" by blast
    then show ?thesis
    proof cases
      case 1
      then show ?thesis using less.prems(2) \<open>worked env R w0 ?w1\<close> 2 3 by blast
    next
      case c2: 2
      show ?thesis by (rule IH [OF c2 3]) simp
    next
      case 3
      show ?thesis by (rule IH [OF 3 1 pend])
    qed
  qed
qed

definition loop_point :: "bulk_point \<Rightarrow> bool" where
  "loop_point p = (case p of CheckCancelled k \<Rightarrow> True | FlushRows k \<Rightarrow> True | SaveProgress k \<Rightarrow> True
     | PublishProgress k \<Rightarrow> True | FinalFlush \<Rightarrow> True | _ \<Rightarrow> False)"

lemma row_update_up [simp]: "row_update (env\<lparr>be_up := u\<rparr>) = row_update env" "finish_row (env\<lparr>be_up := u\<rparr>) = finish_row env"
  by (simp_all add: row_update_def finish_row_def fun_eq_iff split: engine_end.split)

lemma part_done_up [simp]: "part_done (env\<lparr>be_up := u\<rparr>) = part_done env"
  by (simp add: part_done_def fun_eq_iff)

lemma same_counts_save: "same_up_to_counts j j' \<Longrightarrow> save_counts c j' = save_counts c j"
  unfolding same_up_to_counts_def by (metis save_counts_twice)

lemma same_counts_fields:
  assumes "same_up_to_counts j j'"
  shows "bj_apiKeyId j' = bj_apiKeyId j" "bj_storagePath j' = bj_storagePath j" "bj_cancelledAt j' = bj_cancelledAt j"
    "bj_status j' = bj_status j"
  using arg_cong [OF assms [unfolded same_up_to_counts_def], of bj_apiKeyId]
    arg_cong [OF assms [unfolded same_up_to_counts_def], of bj_storagePath]
    arg_cong [OF assms [unfolded same_up_to_counts_def], of bj_cancelledAt]
    arg_cong [OF assms [unfolded same_up_to_counts_def], of bj_status] by simp_all

lemma finished_job_same:
  assumes "same_up_to_counts (started env j) j'"
  shows "finished_job env jobId rows (started env j') = finished_job env jobId rows (started env j)"
proof -
  have "save_counts c (started env j') = started env (save_counts c j')" for c
    by (simp add: save_counts_def started_def)
  also have "\<dots> c = started env (save_counts c (started env j))" for c
    by (simp add: same_counts_save [OF assms])
  also have "\<dots> c = save_counts c (started env j)" for c
    by (simp add: save_counts_def started_def)
  finally show ?thesis
    using same_counts_fields [OF assms] by (simp add: finished_job_def export_path_def started_def)
qed

lemma attempt_worked:
  assumes "row_table (bw_rows w)" and "\<And>i j. be_between env i j = j"
    and "bulk_chunks env goal 0 (to_verify (base_rows csv w)) [] c (w\<lparr>bw_job := j, bw_rows := base_rows csv w\<rparr>) = (e, w3)"
  shows "worked env (base_rows csv w) (w\<lparr>bw_job := j\<rparr>) w3"
proof (rule loop_worked [OF _ assms(2,3)])
  show "inj_on er_rowIndex (set (base_rows csv w))"
    using base_rows_table [OF assms(1), of csv] by (simp add: row_table_def distinct_map)
  show "worked env (base_rows csv w) (w\<lparr>bw_job := j\<rparr>) (w\<lparr>bw_job := j, bw_rows := base_rows csv w\<rparr>)"
    by (simp add: worked_def part_done_refl same_up_to_counts_def)
  show "\<forall>r \<in> set (to_verify (base_rows csv w)). r \<in> set (base_rows csv w) \<and> finish_row env r = row_update env r"
    by (auto simp: to_verify_def finish_row_def)
qed simp

text \<open>An attempt in which only operations of the loop fail leaves the rows so far.\<close>

lemma processBulkJob_interrupted:
  assumes "calm env" and "be_download env = Inr csv" and "csv_emails csv \<noteq> []" and "row_table (bw_rows w)"
    and "\<And>p. \<not> loop_point p \<Longrightarrow> up p" and "processBulkJob (env\<lparr>be_up := up\<rparr>) jobId w = (Failed, w1)"
  shows "worked env (base_rows csv w) (w\<lparr>bw_job := started env (bw_job w)\<rparr>) w1"
proof -
  let ?env = "env\<lparr>be_up := up\<rparr>" and ?R = "base_rows csv w"
  let ?w2 = "w\<lparr>bw_job := started env (bw_job w), bw_rows := ?R\<rparr>"
  have st: "started ?env = started env" by (simp add: started_def fun_eq_iff)
  have up: "up MarkStarted" "up LoadRows" "up (CreateBatch i)" "up ReloadRows" "up MarkCompleted" "up Dispatch" "up MarkNotified" for i
    by (rule assms(5), simp add: loop_point_def)+
  have run: "verify_rows ?env jobId ?R ?w2 = (Failed, w1)"
    using processBulkJob_up [of ?env csv w jobId] assms(2-4,6) up by (simp add: st)
  obtain e w3 where loop: "bulk_chunks ?env (length (already_done ?R) + length (to_verify ?R)) 0 (to_verify ?R) []
      (counts_of (already_done ?R)) ?w2 = (e, w3)" by fastforce
  have "w3 = w1"
    using run loop up by (cases e) (auto simp: verify_rows_def finish_job_def Let_def split: if_splits)
  have "worked ?env ?R (w\<lparr>bw_job := started env (bw_job w)\<rparr>) w3"
    by (rule attempt_worked [OF assms(4) _ loop]) (use assms(1) in \<open>simp add: calm_def\<close>)
  then show ?thesis by (simp add: \<open>w3 = w1\<close> worked_def)
qed

text \<open>C11: an attempt that fails, or a process that dies, anywhere in the loop over the rows has billed nothing,
  and the next attempt ends with the rows, the job and the meter that an undisturbed run would have had.\<close>

theorem bulk_resume:
  assumes "calm env" and "be_download env = Inr csv" and "csv_emails csv \<noteq> []" and "row_table (bw_rows w)"
    and "bj_cancelledAt (bw_job w) = None" and "\<And>p. \<not> loop_point p \<Longrightarrow> up p"
    and "processBulkJob (env\<lparr>be_up := up\<rparr>) jobId w = (Failed, w1)"
  shows "bw_keys w1 = bw_keys w \<and> (\<exists>w2 w3. processBulkJob env jobId w1 = (Ended, w2) \<and> processBulkJob env jobId w = (Ended, w3) \<and>
    bw_rows w2 = bw_rows w3 \<and> bw_job w2 = bw_job w3 \<and> bw_keys w2 = bw_keys w3)"
proof -
  let ?R = "base_rows csv w"
  have never: "be_verify env r \<noteq> Never" for r using assms(1) by (simp add: calm_def)
  have "worked env ?R (w\<lparr>bw_job := started env (bw_job w)\<rparr>) w1"
    by (rule processBulkJob_interrupted [OF assms(1-4,6,7)])
  then have part: "part_done env ?R (bw_rows w1)" and keys: "bw_keys w1 = bw_keys w"
    and job: "same_up_to_counts (started env (bw_job w)) (bw_job w1)"
    by (simp_all add: worked_def)
  have tab: "row_table (bw_rows w1)"
    using base_rows_table [OF assms(4), of csv] part_done_index [OF part] by (simp add: row_table_def)
  have "?R \<noteq> []" using assms(3) by (simp add: base_rows_def)
  then have "bw_rows w1 \<noteq> []" using part_done_index [OF part] by auto
  then have base: "base_rows csv w1 = bw_rows w1" by (simp add: base_rows_def)
  have none: "bj_cancelledAt (bw_job w1) = None"
    using same_counts_fields(3) [OF job] assms(5) by (simp add: started_def)
  have bill: "bw_keys (bill env n w1) = bw_keys (bill env n w)" for n
    using same_counts_fields(1,2) [OF job] keys by (simp add: bill_def started_def Let_def)
  obtain w3 where w3: "processBulkJob env jobId w = (Ended, w3)" "bw_rows w3 = map (finish_row env) ?R"
    "bw_job w3 = finished_job env jobId (bw_rows w3) (started env (bw_job w))"
    "bw_keys w3 = bw_keys (bill env (length (unique_rows ?R)) w)"
    by (rule processBulkJob_calm [OF assms(1-5)])
  obtain w2 where w2: "processBulkJob env jobId w1 = (Ended, w2)" "bw_rows w2 = map (finish_row env) (bw_rows w1)"
    "bw_job w2 = finished_job env jobId (bw_rows w2) (started env (bw_job w1))"
    "bw_keys w2 = bw_keys (bill env (length (unique_rows (bw_rows w1))) w1)"
    using processBulkJob_calm [OF assms(1-3) tab none] unfolding base by blast
  have rows: "bw_rows w2 = bw_rows w3" by (simp only: w2(2) w3(2) part_done_finish [OF never part])
  moreover have "bw_job w2 = bw_job w3" by (simp add: w2(3) w3(3) rows finished_job_same [OF job])
  moreover have "bw_keys w2 = bw_keys w3" by (simp add: w2(4) w3(4) part_done_unique [OF part] bill)
  ultimately show ?thesis using keys w2(1) w3(1) by blast
qed

text \<open>C28: when the creation of the rows fails after the first batches, the next attempt takes the rows there are for
  the whole job: it ends as completed, and the addresses behind them are never verified.\<close>

theorem partial_creation_loses_rows:
  assumes "calm env" and "be_download env = Inr csv" and "bw_rows w = []" and "bj_cancelledAt (bw_job w) = None"
    and "0 < n" and "n * CREATE_BATCH < length (csv_emails csv)"
    and "up MarkStarted" and "up LoadRows" and "\<And>i. i < n \<Longrightarrow> up (CreateBatch i)" and "\<not> up (CreateBatch n)"
  shows "\<exists>w1 w2. processBulkJob (env\<lparr>be_up := up\<rparr>) jobId w = (Failed, w1) \<and> processBulkJob env jobId w1 = (Ended, w2) \<and>
    bj_status (bw_job w2) = ''completed'' \<and> map er_email (bw_rows w2) = take (n * CREATE_BATCH) (csv_emails csv) \<and>
    set (bw_verified w2) = set (bw_verified w) \<union> set (take (n * CREATE_BATCH) (csv_emails csv))"
proof -
  let ?env = "env\<lparr>be_up := up\<rparr>" and ?es = "csv_emails csv" and ?k = "n * CREATE_BATCH"
  define rows where "rows = map fresh_row (take ?k (number_rows ?es))"
  define w1 where "w1 = w\<lparr>bw_job := started env (bw_job w), bw_rows := rows\<rparr>"
  have ne: "?es \<noteq> []" using assms(6) by auto
  have st: "started ?env = started env" by (simp add: started_def fun_eq_iff)
  have len: "length (parseCsv csv) = length ?es" by (simp add: parseCsv_rows number_rows_def)
  have "create_rows ?env 0 (parseCsv csv) (w\<lparr>bw_job := started env (bw_job w)\<rparr>) = (False, w1)"
    using create_rows_cut [of n ?env "parseCsv csv" "w\<lparr>bw_job := started env (bw_job w)\<rparr>"] assms(3,6,9,10) len
    by (simp add: w1_def rows_def parseCsv_rows)
  then have run: "processBulkJob ?env jobId w = (Failed, w1)"
    using assms(2,3,7,8) ne by (simp add: processBulkJob_def load_rows_def update_job_def started_def st)
  have k: "0 < ?k" using assms(5) by (simp add: CREATE_BATCH_def)
  then have "rows \<noteq> []" using ne by (simp add: rows_def number_rows_def)
  then have base: "base_rows csv w1 = rows" by (simp add: base_rows_def w1_def)
  have tab: "row_table (bw_rows w1)" by (simp add: w1_def rows_def row_table_fresh)
  have none: "bj_cancelledAt (bw_job w1) = None" using assms(4) by (simp add: w1_def started_def)
  obtain w2 where w2: "processBulkJob env jobId w1 = (Ended, w2)" "bw_rows w2 = map (finish_row env) rows"
    "bw_job w2 = finished_job env jobId (bw_rows w2) (started env (bw_job w1))"
    "bw_verified w2 = bw_verified w1 @ map er_email (to_verify rows)"
    using processBulkJob_calm [OF assms(1,2) ne tab none] unfolding base by blast
  have "map er_email (bw_rows w2) = map pe_email (take ?k (number_rows ?es))"
    by (simp add: w2(2) rows_def comp_def fresh_row_def)
  then have emails: "map er_email (bw_rows w2) = take ?k ?es" by (simp add: take_map [symmetric])
  have "set (bw_verified w2) = set (bw_verified w) \<union> set (take ?k ?es)"
    using to_verify_fresh [of ?k ?es] by (simp add: w2(4) rows_def w1_def del: set_map) 
  moreover have "bj_status (bw_job w2) = ''completed''" by (simp add: w2(3) finished_job_def)
  ultimately show ?thesis using run w2(1) emails by blast
qed

subsection \<open>A call that never ends\<close>

lemma loop_hangs:
  assumes "\<And>p. be_up env p" and "\<And>i j. be_between env i j = j"
  shows "not_cancelled (bw_job w) \<Longrightarrow> r \<in> set todo \<Longrightarrow> be_verify env r = Never \<Longrightarrow>
    fst (bulk_chunks env goal k todo us c w) = LoopHung"
proof (induction "length todo" arbitrary: k todo us c w rule: less_induct)
  case less
  let ?chunk = "take EMAIL_CONCURRENCY todo" and ?rest = "drop EMAIL_CONCURRENCY todo"
  have ne: "todo \<noteq> []" using less.prems(2) by auto
  then have short: "length ?rest < length todo" by (simp add: EMAIL_CONCURRENCY_def)
  show ?case
  proof (cases "\<exists>x \<in> set ?chunk. be_verify env x = Never")
    case True
    then show ?thesis using ne less.prems(1) assms
      by (subst bulk_chunks.simps) (simp add: Let_def not_cancelled_def)
  next
    case False
    then have "r \<in> set ?rest"
      using less.prems(2,3) by (metis Un_iff append_take_drop_id set_append)
    note IH = less.hyps [OF short _ this less.prems(3)]
    show ?thesis using ne less.prems(1) assms False
      by (subst bulk_chunks.simps) (simp add: Let_def not_cancelled_def IH)
  qed
qed

text \<open>One address on which the engine never answers holds the whole job for ever: the job stays in processing,
  nothing is billed, and every later attempt hangs on the same address.\<close>

theorem hanging_address_blocks_job:
  assumes "\<And>p. be_up env p" and "\<And>i j. be_between env i j = j" and "be_download env = Inr csv"
    and "csv_emails csv \<noteq> []" and "row_table (bw_rows w)" and "bj_cancelledAt (bw_job w) = None"
    and "r \<in> set (to_verify (base_rows csv w))" and "be_verify env r = Never"
  shows "\<exists>w1. processBulkJob env jobId w = (Hung, w1) \<and> bj_status (bw_job w1) = ''processing'' \<and> bw_keys w1 = bw_keys w \<and>
    fst (processBulkJob env jobId w1) = Hung"
proof -
  have hung: "fst (processBulkJob env jobId v) = Hung"
    if "row_table (bw_rows v)" "bj_cancelledAt (bw_job v) = None" "r \<in> set (to_verify (base_rows csv v))" for v
  proof -
    let ?v = "v\<lparr>bw_job := started env (bw_job v), bw_rows := base_rows csv v\<rparr>"
    have "not_cancelled (bw_job ?v)" using that(2) by (simp add: not_cancelled_def started_def)
    note hangs = loop_hangs [OF assms(1,2) this that(3) assms(8)]
    obtain e v' where loop: "bulk_chunks env (length (already_done (base_rows csv v)) + length (to_verify (base_rows csv v))) 0
        (to_verify (base_rows csv v)) [] (counts_of (already_done (base_rows csv v))) ?v = (e, v')" by fastforce
    have "e = LoopHung" using hangs [of _ 0 "[]"] loop by (metis fst_conv)
    then have "fst (verify_rows env jobId (base_rows csv v) ?v) = Hung" by (simp add: verify_rows_def Let_def loop)
    then show ?thesis using processBulkJob_up [OF assms(1) assms(1) assms(1) assms(1) assms(3,4) that(1)] by simp
  qed
  let ?R = "base_rows csv w"
  let ?w2 = "w\<lparr>bw_job := started env (bw_job w), bw_rows := ?R\<rparr>"
  obtain w1 where run: "processBulkJob env jobId w = (Hung, w1)"
    using hung [OF assms(5,6,7)] by (metis prod.collapse)
  obtain e w3 where loop: "bulk_chunks env (length (already_done ?R) + length (to_verify ?R)) 0 (to_verify ?R) []
      (counts_of (already_done ?R)) ?w2 = (e, w3)" by fastforce
  have "not_cancelled (bw_job ?w2)" using assms(6) by (simp add: not_cancelled_def started_def)
  from loop_hangs [OF assms(1,2) this assms(7,8)] loop have e: "e = LoopHung" by (metis fst_conv)
  have w3: "w3 = w1"
    using run loop e processBulkJob_up [OF assms(1) assms(1) assms(1) assms(1) assms(3-5), of jobId]
    by (simp add: verify_rows_def Let_def)
  have "worked env ?R (w\<lparr>bw_job := started env (bw_job w)\<rparr>) w3"
    by (rule attempt_worked [OF assms(5,2) loop])
  then have part: "part_done env ?R (bw_rows w1)" and keys: "bw_keys w1 = bw_keys w"
    and job: "same_up_to_counts (started env (bw_job w)) (bw_job w1)"
    by (simp_all add: worked_def w3)
  have tab: "row_table (bw_rows w1)"
    using base_rows_table [OF assms(5), of csv] part_done_index [OF part] by (simp add: row_table_def)
  have "?R \<noteq> []" using assms(7) by (auto simp: to_verify_def)
  then have "bw_rows w1 \<noteq> []" using part_done_index [OF part] by auto
  then have base: "base_rows csv w1 = bw_rows w1" by (simp add: base_rows_def)
  have same: "row_update env r = r" using assms(8) by (simp add: row_update_def)
  have "r \<in> set (bw_rows w1)"
    using part assms(7) same unfolding part_done_def to_verify_def
    by (auto simp: in_set_conv_nth list_all2_conv_all_nth) metis
  then have "r \<in> set (to_verify (base_rows csv w1))" using assms(7) by (simp add: base to_verify_def)
  then have "fst (processBulkJob env jobId w1) = Hung"
    using hung [OF tab] same_counts_fields(3) [OF job] assms(6) by (simp add: started_def)
  moreover have "bj_status (bw_job w1) = ''processing''"
    using same_counts_fields(4) [OF job] by (simp add: started_def)
  ultimately show ?thesis using run keys by blast
qed

subsection \<open>The hypotheses can hold\<close>

definition sample_job :: bulk_job where
  "sample_job = \<lparr>bj_apiKeyId = ''k1'', bj_fileName = ''l.csv'', bj_storagePath = ''uploads/k1/j/l.csv'', bj_totalEmails = 3,
     bj_processedCount = 0, bj_validCount = 0, bj_invalidCount = 0, bj_riskyCount = 0, bj_unknownCount = 0,
     bj_duplicateCount = 1, bj_errorCount = 0, bj_status = ''pending'', bj_errorMessage = None, bj_exportPath = None,
     bj_startedAt = None, bj_completedAt = None, bj_cancelledAt = None, bj_webhookSent = False\<rparr>"

definition sample_world :: bulk_world where
  "sample_world = \<lparr>bw_job = sample_job, bw_rows = [], bw_keys = [''k1'' \<mapsto> free_key 5 100], bw_files = (\<lambda>_. None),
     bw_events = [], bw_verified = []\<rparr>"

definition sample_env :: "(email_row \<Rightarrow> engine_end) \<Rightarrow> string \<Rightarrow> bulk_env" where
  "sample_env verify csv = \<lparr>be_now = 0, be_up = (\<lambda>_. True), be_download = Inr csv, be_verify = verify,
     be_between = (\<lambda>_ j. j), be_upload = True, be_meter_up = (\<lambda>_. True), be_meter_later = (\<lambda>t. t)\<rparr>"

lemma sample_simps [simp]:
  "bw_rows sample_world = []" "bj_cancelledAt (bw_job sample_world) = None" "bw_verified sample_world = []"
  "bw_keys sample_world = [''k1'' \<mapsto> free_key 5 100]" "row_table []"
  "be_download (sample_env v csv) = Inr csv" "be_up (sample_env v csv) p" "be_between (sample_env v csv) i j = j"
  "be_verify (sample_env v csv) = v"
  by (simp_all add: sample_world_def sample_job_def sample_env_def row_table_def)

lemma sample_calm: "(\<And>r. v r \<noteq> Never) \<Longrightarrow> calm (sample_env v csv)"
  by (simp add: calm_def)


definition stop_at :: "bulk_point \<Rightarrow> bulk_point \<Rightarrow> bool" where
  "stop_at q p \<longleftrightarrow> p \<noteq> q"

theorem bulk_resume_witness:
  "\<exists>w1 w2. processBulkJob ((sample_env (\<lambda>r. EngineThrew ''down'') demo_csv)\<lparr>be_up := stop_at (CheckCancelled 0)\<rparr>) ''j'' sample_world =
       (Failed, w1) \<and> bw_keys w1 = bw_keys sample_world \<and>
     processBulkJob (sample_env (\<lambda>r. EngineThrew ''down'') demo_csv) ''j'' w1 = (Ended, w2)"
proof -
  let ?env = "sample_env (\<lambda>r. EngineThrew ''down'') demo_csv" and ?up = "stop_at (CheckCancelled 0)"
  have ne: "csv_emails demo_csv \<noteq> []" by (simp add: demo_csv_emails)
  have todo: "to_verify (base_rows demo_csv sample_world) \<noteq> []"
    by (simp add: base_rows_def to_verify_def parseCsv_rows demo_csv_emails number_rows_def fresh_row_def upt_rec)
  have "processBulkJob (?env\<lparr>be_up := ?up\<rparr>) ''j'' sample_world =
      verify_rows (?env\<lparr>be_up := ?up\<rparr>) ''j'' (base_rows demo_csv sample_world)
        (sample_world\<lparr>bw_job := started (?env\<lparr>be_up := ?up\<rparr>) (bw_job sample_world), bw_rows := base_rows demo_csv sample_world\<rparr>)"
    by (rule processBulkJob_up) (simp_all add: stop_at_def ne)
  with todo obtain w1 where run: "processBulkJob (?env\<lparr>be_up := ?up\<rparr>) ''j'' sample_world = (Failed, w1)"
    by (simp add: verify_rows_def bulk_chunks.simps stop_at_def)
  have up: "\<not> loop_point p \<Longrightarrow> ?up p" for p by (auto simp: loop_point_def stop_at_def)
  from bulk_resume [OF sample_calm _ ne _ _ up run] run show ?thesis by fastforce
qed

text \<open>A file of \<open>n\<close> equal lines without a header.\<close>

definition repeat_csv :: "nat \<Rightarrow> string" where
  "repeat_csv n = concat (map (\<lambda>l. l @ [line_feed]) (replicate n ''a@b.co''))"

lemma repeat_csv_emails: "csv_emails (repeat_csv n) = replicate n ''a@b.co''"
proof -
  have "split_on line_feed (repeat_csv n) = replicate n ''a@b.co'' @ [[]]"
    unfolding repeat_csv_def by (rule split_on_lines) (simp add: list_all_iff line_feed_def)
  moreover have "clean_line ''a@b.co'' = ''a@b.co''" "clean_line [] = []" "email_column ''a@b.co'' = None"
    "line_email 0 ''a@b.co'' = ''a@b.co''" "is_address ''a@b.co''" by code_simp+
  ultimately show ?thesis
    by (cases n) (simp_all add: csv_emails_def filter_id_conv)
qed

theorem partial_creation_loses_rows_witness:
  "\<exists>w1 w2. processBulkJob ((sample_env (\<lambda>r. EngineThrew ''down'') (repeat_csv 501))\<lparr>be_up := stop_at (CreateBatch 1)\<rparr>)
       ''j'' sample_world = (Failed, w1) \<and>
     processBulkJob (sample_env (\<lambda>r. EngineThrew ''down'') (repeat_csv 501)) ''j'' w1 = (Ended, w2) \<and>
     bj_status (bw_job w2) = ''completed'' \<and> length (bw_rows w2) = 500"
proof -
  have up: "stop_at (CreateBatch 1) MarkStarted" "stop_at (CreateBatch 1) LoadRows" "\<not> stop_at (CreateBatch 1) (CreateBatch 1)"
    "i < 1 \<Longrightarrow> stop_at (CreateBatch 1) (CreateBatch i)" for i
    by (simp_all add: stop_at_def)
  have len: "1 * CREATE_BATCH < length (csv_emails (repeat_csv 501))" by (simp add: repeat_csv_emails CREATE_BATCH_def)
  have calm: "calm (sample_env (\<lambda>r. EngineThrew ''down'') (repeat_csv 501))" by (rule sample_calm) simp
  obtain w1 w2 where w: "processBulkJob ((sample_env (\<lambda>r. EngineThrew ''down'') (repeat_csv 501))\<lparr>be_up := stop_at (CreateBatch 1)\<rparr>)
       ''j'' sample_world = (Failed, w1)"
     "processBulkJob (sample_env (\<lambda>r. EngineThrew ''down'') (repeat_csv 501)) ''j'' w1 = (Ended, w2)"
     "bj_status (bw_job w2) = ''completed''"
     "map er_email (bw_rows w2) = take (1 * CREATE_BATCH) (csv_emails (repeat_csv 501))"
    using partial_creation_loses_rows [OF calm sample_simps(6) sample_simps(1,2) zero_less_one len up(1,2,4,3)] by blast
  have "length (bw_rows w2) = 500"
    using arg_cong [OF w(4), of length] by (simp add: repeat_csv_emails CREATE_BATCH_def)
  with w show ?thesis by blast
qed

theorem hanging_address_blocks_job_witness:
  "\<exists>w1. processBulkJob (sample_env (\<lambda>r. if er_email r = ''bob@y.io'' then Never else EngineThrew ''down'') demo_csv) ''j'' sample_world =
     (Hung, w1) \<and> bj_status (bw_job w1) = ''processing''"
proof -
  let ?v = "\<lambda>r. if er_email r = ''bob@y.io'' then Never else EngineThrew ''down''"
  let ?r = "fresh_row \<lparr>pe_email = ''bob@y.io'', pe_rowIndex = 1, pe_isDuplicate = False\<rparr>"
  have "parseCsv demo_csv = number_rows [''ann@x.io'', ''bob@y.io'', ''ann@x.io'']" by (simp add: parseCsv_rows demo_csv_emails)
  then have "?r \<in> set (to_verify (base_rows demo_csv sample_world))"
    by (simp add: base_rows_def to_verify_def number_rows_def fresh_row_def upt_rec)
  from hanging_address_blocks_job [of "sample_env ?v demo_csv" demo_csv sample_world ?r "''j''", OF _ _ _ _ _ _ this]
  show ?thesis by (auto simp: demo_csv_emails fresh_row_def)
qed
end
