(* ===== verification/BulkUpload.thy ===== *)
theory BulkUpload
  imports BulkJob
begin

text \<open>
  The upload of a file, \<open>POST /v1/bulk-jobs\<close> of
  \<^verbatim>\<open>src/routes/bulk-jobs/index.ts\<close>, and how uploads and the worker share the monthly quota. The
  record of the API key is the one authentication attached to the request.
\<close>

definition MAX_ROWS :: nat where "MAX_ROWS = 100000"

definition isCSVMimeType :: "string \<Rightarrow> string \<Rightarrow> bool" where
  "isCSVMimeType mimetype filename \<longleftrightarrow>
     mimetype \<in> {''text/csv'', ''application/csv'', ''text/plain'', ''application/octet-stream''} \<or>
     ends_with ''.csv'' (js_lower filename)"

record upload_file =
  uf_filename :: "string option"
  uf_mimetype :: "string option"
  uf_content :: string

datatype upload_end = NoFile | NotCsv | EmptyFile | NoRows | TooManyRows nat | StorageDown | OverQuota int int int
  | CreateFailed | QueueFailed | Created bulk_job

record upload_world =
  stored_files :: "(string \<times> string) list"
  bulk_jobs :: "(string \<times> bulk_job) list"
  bulk_queue :: "string list"

text \<open>0 the storage, 1 the insertion of the job, 2 the queue.\<close>

definition original_name :: "upload_file \<Rightarrow> string" where
  "original_name f = (let n = js_trim (or_else (uf_filename f) ''upload.csv'') in if n = [] then ''upload.csv'' else n)"

definition storage_path :: "string \<Rightarrow> string \<Rightarrow> upload_file \<Rightarrow> string" where
  "storage_path key jobId f = ''uploads/'' @ key @ ''/'' @ jobId @ ''/'' @ original_name f"

definition new_bulk_job :: "string \<Rightarrow> string \<Rightarrow> upload_file \<Rightarrow> parsed_email list \<Rightarrow> bulk_job" where
  "new_bulk_job key jobId f parsed = \<lparr>bj_apiKeyId = key, bj_fileName = original_name f, bj_storagePath = storage_path key jobId f,
     bj_totalEmails = length parsed, bj_processedCount = 0, bj_validCount = 0, bj_invalidCount = 0, bj_riskyCount = 0,
     bj_unknownCount = 0, bj_duplicateCount = length (filter pe_isDuplicate parsed), bj_errorCount = 0,
     bj_status = ''pending'', bj_errorMessage = None, bj_exportPath = None, bj_startedAt = None, bj_completedAt = None,
     bj_cancelledAt = None, bj_webhookSent = False\<rparr>"

definition upload :: "(nat \<Rightarrow> bool) \<Rightarrow> api_key \<Rightarrow> string \<Rightarrow> upload_file option \<Rightarrow> upload_world \<Rightarrow> upload_end \<times> upload_world" where
  "upload up key jobId file w = (case file of
     None \<Rightarrow> (NoFile, w)
   | Some f \<Rightarrow>
       if \<not> isCSVMimeType (or_else (uf_mimetype f) []) (original_name f) then (NotCsv, w)
       else if uf_content f = [] then (EmptyFile, w)
       else
         let parsed = parseCsv (uf_content f) in
         if parsed = [] then (NoRows, w)
         else if length parsed > MAX_ROWS then (TooManyRows (length parsed), w)
         else if \<not> up 0 then (StorageDown, w)
         else
           let w1 = w\<lparr>stored_files := stored_files w @ [(storage_path (k_id key) jobId f, uf_content f)]\<rparr>;
               uniqueEmails = int (length parsed) - int (length (filter pe_isDuplicate parsed));
               quotaLimit = getPlanLimit (k_plan key) (Some (k_monthlyLimit key));
               quotaUsed = k_currentMonthUsage key
           in if quotaUsed + uniqueEmails > quotaLimit then (OverQuota quotaUsed quotaLimit uniqueEmails, w1)
              else if \<not> up 1 then (CreateFailed, w1)
              else
                let job = new_bulk_job (k_id key) jobId f parsed;
                    w2 = w1\<lparr>bulk_jobs := bulk_jobs w1 @ [(jobId, job)]\<rparr>
                in if \<not> up 2 then (QueueFailed, w2)
                   else (Created job, w2\<lparr>bulk_queue := bulk_queue w2 @ [jobId]\<rparr>))"

subsection \<open>Uploads and the quota\<close>

text \<open>The number of addresses an upload will be billed for.\<close>

definition upload_cost :: "string \<Rightarrow> nat" where
  "upload_cost csv = length (remdups (csv_emails csv))"

lemma unique_number_rows:
  "length (filter (\<lambda>p. \<not> pe_isDuplicate p) (number_rows es)) = length (remdups es)"
proof (induction es rule: rev_induct)
  case (snoc e es)
  have "length (remdups (es @ [e])) = length (remdups es) + (if e \<in> set es then 0 else 1)"
    by (simp add: length_remdups_card_conv card_insert_if)
  with snoc show ?case by (simp add: number_rows_snoc)
qed (simp add: number_rows_def)

lemma upload_cost_parsed:
  "int (length (parseCsv csv)) - int (length (filter pe_isDuplicate (parseCsv csv))) = int (upload_cost csv)"
  using sum_length_filter_compl [of pe_isDuplicate "parseCsv csv"] unique_number_rows [of "csv_emails csv"]
  by (simp add: upload_cost_def parseCsv_rows)

lemma unique_base_rows: "bw_rows w = [] \<Longrightarrow> length (unique_rows (base_rows csv w)) = upload_cost csv"
  using unique_number_rows [of "csv_emails csv"]
  by (simp add: base_rows_def unique_rows_def filter_map comp_def fresh_row_def parseCsv_rows upload_cost_def)

text \<open>The worker takes a job of the queue with the key table as it is then.\<close>

definition job_world :: "bulk_job \<Rightarrow> key_table \<Rightarrow> bulk_world" where
  "job_world j keys = \<lparr>bw_job = j, bw_rows = [], bw_keys = keys, bw_files = (\<lambda>_. None), bw_events = [], bw_verified = []\<rparr>"

definition run_job :: "bulk_env \<Rightarrow> string \<times> bulk_job \<Rightarrow> key_table \<Rightarrow> key_table" where
  "run_job env = (\<lambda>(i, j) keys. bw_keys (snd (processBulkJob env i (job_world j keys))))"

lemma run_job_bills:
  assumes "calm env" and "be_download env = Inr csv" and "csv_emails csv \<noteq> []" and "bj_cancelledAt j = None"
  shows "run_job env (i, j) keys = bw_keys (bill env (upload_cost csv) (job_world j keys))"
proof -
  let ?w = "job_world j keys"
  have "row_table (bw_rows ?w)" "bj_cancelledAt (bw_job ?w) = None" "bw_rows ?w = []"
    using assms(4) by (simp_all add: job_world_def row_table_def)
  then obtain w' where "processBulkJob env i ?w = (Ended, w')"
      "bw_keys w' = bw_keys (bill env (length (unique_rows (base_rows csv ?w))) ?w)"
    using processBulkJob_calm [OF assms(1-3), of ?w i] by blast
  then show ?thesis using unique_base_rows [of ?w csv] by (simp add: run_job_def) (simp add: job_world_def)
qed

definition uploads :: "api_key \<Rightarrow> upload_file \<Rightarrow> string list \<Rightarrow> upload_world \<Rightarrow> upload_world" where
  "uploads key f ids w = fold (\<lambda>i w. snd (upload (\<lambda>_. True) key i (Some f) w)) ids w"

definition acceptable :: "api_key \<Rightarrow> upload_file \<Rightarrow> bool" where
  "acceptable key f \<longleftrightarrow> isCSVMimeType (or_else (uf_mimetype f) []) (original_name f) \<and> uf_content f \<noteq> [] \<and>
     csv_emails (uf_content f) \<noteq> [] \<and> length (csv_emails (uf_content f)) \<le> MAX_ROWS \<and>
     k_currentMonthUsage key + int (upload_cost (uf_content f)) \<le> getPlanLimit (k_plan key) (Some (k_monthlyLimit key))"

lemma upload_created:
  assumes "acceptable key f"
  shows "upload (\<lambda>_. True) key i (Some f) w =
    (Created (new_bulk_job (k_id key) i f (parseCsv (uf_content f))),
     w\<lparr>stored_files := stored_files w @ [(storage_path (k_id key) i f, uf_content f)],
       bulk_jobs := bulk_jobs w @ [(i, new_bulk_job (k_id key) i f (parseCsv (uf_content f)))],
       bulk_queue := bulk_queue w @ [i]\<rparr>)"
  using assms by (simp add: upload_def acceptable_def Let_def upload_cost_parsed) (simp add: parseCsv_rows number_rows_def)

lemma uploads_created:
  assumes "acceptable key f"
  shows "bulk_jobs (uploads key f ids w) = bulk_jobs w @ map (\<lambda>i. (i, new_bulk_job (k_id key) i f (parseCsv (uf_content f)))) ids \<and>
    bulk_queue (uploads key f ids w) = bulk_queue w @ ids"
  by (induction ids arbitrary: w) (simp_all add: uploads_def upload_created [OF assms])

text \<open>C27: the check of the quota looks at what has been billed, and a job is billed when it ends: any number of
  uploads that fit one by one are accepted before the first job ends, and all of them are verified and billed, so the usage can
  pass the limit by any amount.\<close>

theorem uploads_overshoot_quota:
  assumes "acceptable key f" and "calm env" and "be_download env = Inr (uf_content f)"
    and "valid_tenant_id (k_id key)" and "be_meter_up env 0" and "\<And>i. i \<in> set ids \<Longrightarrow> \<not> isFinderSourcedJob (storage_path (k_id key) i f)"
    and "keys (k_id key) = Some key" and "bulk_jobs w = []"
  shows "length (bulk_jobs (uploads key f ids w)) = length ids \<and>
    map_option k_currentMonthUsage (fold (run_job env) (bulk_jobs (uploads key f ids w)) keys (k_id key)) =
      Some (k_currentMonthUsage key + int (length ids) * int (upload_cost (uf_content f)))"
proof -
  let ?csv = "uf_content f" and ?k = "k_id key"
  let ?job = "\<lambda>i. new_bulk_job ?k i f (parseCsv ?csv)"
  have ne: "csv_emails ?csv \<noteq> []" using assms(1) by (simp add: acceptable_def)
  then have pos: "0 < upload_cost ?csv" by (simp add: upload_cost_def length_remdups_card_conv card_gt_0_iff)
  have step: "run_job env (i, ?job i) tab = tab(?k \<mapsto> row\<lparr>k_currentMonthUsage := k_currentMonthUsage row + int (upload_cost ?csv)\<rparr>)"
    if "tab ?k = Some row" "i \<in> set ids" for i tab row
  proof -
    have "run_job env (i, ?job i) tab = bw_keys (bill env (upload_cost ?csv) (job_world (?job i) tab))"
      by (rule run_job_bills [OF assms(2,3) ne]) (simp add: new_bulk_job_def)
    then show ?thesis using that pos assms(4,5,6)
      by (simp add: bill_def job_world_def new_bulk_job_def incrementUsageBy_def withTenant_up Let_def)
  qed
  have "tab ?k = Some row \<Longrightarrow> set is \<subseteq> set ids \<Longrightarrow>
      map_option k_currentMonthUsage (fold (run_job env) (map (\<lambda>i. (i, ?job i)) is) tab ?k) =
        Some (k_currentMonthUsage row + int (length is) * int (upload_cost ?csv))" for tab row "is"
  proof (induction "is" arbitrary: tab row)
    case (Cons i "is")
    define row' where "row' = row\<lparr>k_currentMonthUsage := k_currentMonthUsage row + int (upload_cost ?csv)\<rparr>"
    define tab' where "tab' = tab(?k \<mapsto> row')"
    have i: "i \<in> set ids" "set is \<subseteq> set ids" using Cons.prems(2) by simp_all
    have "run_job env (i, ?job i) tab = tab'"
      unfolding tab'_def row'_def using step [of tab row i] Cons.prems(1) i(1) by blast
    then have "map_option k_currentMonthUsage (fold (run_job env) (map (\<lambda>i. (i, ?job i)) (i # is)) tab ?k) =
        map_option k_currentMonthUsage (fold (run_job env) (map (\<lambda>i. (i, ?job i)) is) tab' ?k)" by simp
    also have "\<dots> = Some (k_currentMonthUsage row' + int (length is) * int (upload_cost ?csv))"
      by (rule Cons.IH) (simp add: tab'_def, rule i(2))
    also have "\<dots> = Some (k_currentMonthUsage row + int (length (i # is)) * int (upload_cost ?csv))"
      by (simp add: row'_def distrib_right)
    finally show ?case .
  qed simp
  from this [of keys key ids] assms(7) show ?thesis
    using conjunct1 [OF uploads_created [OF assms(1)], of ids w] assms(8) by simp
qed

text \<open>A customer file whose name begins with finder- is billed as a search of the Finder: as long as the
  Finder allowance lasts, its verifications leave the verification quota untouched.\<close>

theorem finder_named_upload_billed_to_finder:
  assumes "starts_with ''finder-'' (original_name f)" and "csv_emails (uf_content f) \<noteq> []"
    and "calm env" and "be_download env = Inr (uf_content f)" and "be_meter_up env = (\<lambda>_. True)" and "be_meter_later env = (\<lambda>t. t)"
    and "valid_tenant_id (k_id key)" and "keys (k_id key) = Some key"
    and "int (upload_cost (uf_content f)) \<le> finderRemaining (getFinderAffordability key)"
  shows "run_job env (i, new_bulk_job (k_id key) i f (parseCsv (uf_content f))) keys =
    keys(k_id key \<mapsto> key\<lparr>k_currentMonthFinderUsage := k_currentMonthFinderUsage key + int (upload_cost (uf_content f))\<rparr>)"
proof -
  let ?csv = "uf_content f" and ?j = "new_bulk_job (k_id key) i f (parseCsv (uf_content f))"
  obtain t where "original_name f = ''finder-'' @ t" using assms(1) by (auto simp: starts_with_iff)
  then have "storage_path (k_id key) i f = (''uploads/'' @ k_id key @ ''/'' @ i) @ ''/finder-'' @ t"
    by (simp add: storage_path_def)
  then have finder: "isFinderSourcedJob (storage_path (k_id key) i f)"
    unfolding isFinderSourcedJob_def has_sub_iff by blast
  have pos: "0 < upload_cost ?csv" using assms(2) by (simp add: upload_cost_def length_remdups_card_conv card_gt_0_iff)
  have "run_job env (i, ?j) keys = bw_keys (bill env (upload_cost ?csv) (job_world ?j keys))"
    by (rule run_job_bills [OF assms(3,4,2)]) (simp add: new_bulk_job_def)
  then show ?thesis using pos assms(5-9) finder
    by (simp add: bill_def job_world_def new_bulk_job_def incrementFinderUsage_def withTenant_up Let_def bill_finder_def)
qed

subsection \<open>The hypotheses can hold\<close>

definition sample_file :: "string \<Rightarrow> upload_file" where
  "sample_file name = \<lparr>uf_filename = Some name, uf_mimetype = None, uf_content = demo_csv\<rparr>"

lemma sample_cost: "upload_cost demo_csv = 2"
  by (simp add: upload_cost_def demo_csv_emails)

theorem uploads_overshoot_quota_witness:
  "map_option k_currentMonthUsage (fold (run_job (sample_env (\<lambda>r. EngineThrew ''down'') demo_csv))
     (bulk_jobs (uploads (free_key 997 100) (sample_file ''l.csv'') [''a'', ''b'', ''c'', ''d'']
       \<lparr>stored_files = [], bulk_jobs = [], bulk_queue = []\<rparr>))
     [''k1'' \<mapsto> free_key 997 100] ''k1'') = Some 1005"
proof -
  let ?w = "\<lparr>stored_files = [], bulk_jobs = [], bulk_queue = []\<rparr>" and ?f = "sample_file ''l.csv''"
  have "demo_csv \<noteq> []" by (simp add: demo_csv_def)
  moreover have "isCSVMimeType [] (original_name ?f)" by code_simp
  ultimately have "acceptable (free_key 997 100) ?f"
    by (simp add: acceptable_def sample_cost demo_csv_emails sample_file_def MAX_ROWS_def free_key_def getPlanLimit_def
      plan_lookup_def PLAN_LIMITS_def)
  moreover have "\<And>i. i \<in> set [''a'', ''b'', ''c'', ''d''] \<Longrightarrow> \<not> isFinderSourcedJob (storage_path (k_id (free_key 997 100)) i ?f)"
    by (auto simp: isFinderSourcedJob_def storage_path_def original_name_def sample_file_def free_key_def starts_with_def
      js_trim_def trim_start_def trim_end_def is_js_space_def)
  ultimately show ?thesis
    using uploads_overshoot_quota [of "free_key 997 100" ?f "sample_env (\<lambda>r. EngineThrew ''down'') demo_csv"
      "[''a'', ''b'', ''c'', ''d'']" "[''k1'' \<mapsto> free_key 997 100]" ?w]
    by (simp add: sample_calm sample_file_def sample_cost free_key_def valid_tenant_id_def is_alpha_def is_digit_def)
       (simp add: sample_env_def)
qed

theorem finder_named_upload_billed_to_finder_witness:
  "map_option k_currentMonthUsage (run_job (sample_env (\<lambda>r. EngineThrew ''down'') demo_csv)
     (''j'', new_bulk_job ''k1'' ''j'' (sample_file ''finder-list.csv'') (parseCsv demo_csv)) [''k1'' \<mapsto> free_key 5 100] ''k1'') = Some 5"
proof -
  have "starts_with ''finder-'' (original_name (sample_file ''finder-list.csv''))" by code_simp
  moreover have "2 \<le> finderRemaining (getFinderAffordability (free_key 5 100))" by code_simp
  ultimately show ?thesis
    using finder_named_upload_billed_to_finder [of "sample_file ''finder-list.csv''"
      "sample_env (\<lambda>r. EngineThrew ''down'') demo_csv" "free_key 5 100" "[''k1'' \<mapsto> free_key 5 100]" "''j''"]
    by (simp add: sample_calm sample_file_def sample_cost demo_csv_emails) (simp add: sample_env_def)
qed
end
