(* ===== verification/Sns.thy ===== *)
theory Sns
  imports JsMap
begin

text \<open>
  \<^verbatim>\<open>src/lib/snsVerify.ts\<close>: the signature of the messages Amazon SNS posts. The check of the RSA
  signature and the download of the certificate are parameters; a field that a message lacks is \<open>None\<close>.
\<close>

record sns_message =
  sns_Type :: "string option"
  sns_MessageId :: "string option"
  sns_TopicArn :: "string option"
  sns_Subject :: "string option"
  sns_Message :: "string option"
  sns_Timestamp :: "string option"
  sns_SignatureVersion :: "string option"
  sns_Signature :: "string option"
  sns_SigningCertURL :: "string option"
  sns_SubscribeURL :: "string option"
  sns_Token :: "string option"

text \<open>\<open>/^https:\/\/sns\.[a-z0-9-]+\.amazonaws\.com\/SimpleNotificationService-[a-zA-Z0-9]+\.pem$/\<close>. No
  character of a class is the dot that follows it, so that each \<open>+\<close> takes all it can.\<close>

definition after_prefix :: "string \<Rightarrow> string \<Rightarrow> string option" where
  "after_prefix p s = (if starts_with p s then Some (drop (length p) s) else None)"

definition after_class :: "(char \<Rightarrow> bool) \<Rightarrow> string \<Rightarrow> string option" where
  "after_class P s = (if takeWhile P s = [] then None else Some (dropWhile P s))"

definition CERT_URL_PATTERN :: "string \<Rightarrow> bool" where
  "CERT_URL_PATTERN url \<longleftrightarrow>
     Option.bind (Option.bind (Option.bind (after_prefix ''https://sns.'' url)
         (after_class (\<lambda>c. is_digit c \<or> (97 \<le> code c \<and> code c \<le> 122) \<or> c = CHR ''-'')))
       (after_prefix ''.amazonaws.com/SimpleNotificationService-''))
     (after_class (\<lambda>c. is_alpha c \<or> is_digit c)) = Some ''.pem''"

definition string_fields :: "sns_message \<Rightarrow> (string \<times> string option) list" where
  "string_fields msg =
     (if sns_Type msg \<in> {Some ''SubscriptionConfirmation'', Some ''UnsubscribeConfirmation''}
      then [(''Message'', sns_Message msg), (''MessageId'', sns_MessageId msg), (''SubscribeURL'', sns_SubscribeURL msg),
            (''Timestamp'', sns_Timestamp msg), (''Token'', sns_Token msg), (''TopicArn'', sns_TopicArn msg), (''Type'', sns_Type msg)]
      else [(''Message'', sns_Message msg), (''MessageId'', sns_MessageId msg)] @
           (if sns_Subject msg \<noteq> None then [(''Subject'', sns_Subject msg)] else []) @
           [(''Timestamp'', sns_Timestamp msg), (''TopicArn'', sns_TopicArn msg), (''Type'', sns_Type msg)])"

definition buildStringToSign :: "sns_message \<Rightarrow> string" where
  "buildStringToSign msg =
     concat (map (\<lambda>(k, v). k @ [CHR 0x0A] @ the v @ [CHR 0x0A]) (filter (\<lambda>(k, v). v \<noteq> None) (string_fields msg)))"

type_synonym cert_cache = "(string \<times> string) list"

definition CERT_CACHE_MAX_SIZE :: nat where "CERT_CACHE_MAX_SIZE = 100"

text \<open>\<open>None\<close> when the download throws or the reply is not ok.\<close>

definition fetchCert :: "(string \<Rightarrow> string option) \<Rightarrow> string \<Rightarrow> cert_cache \<Rightarrow> string option \<times> cert_cache" where
  "fetchCert fetch url cache =
     (if truthy (map_of cache url) then (map_of cache url, cache)
      else case fetch url of
        None \<Rightarrow> (None, cache)
      | Some pem \<Rightarrow> (Some pem, map_set url pem (evict_oldest CERT_CACHE_MAX_SIZE cache)))"

text \<open>\<open>rsa algorithm certificate data signature\<close>, \<open>None\<close> when the library throws.\<close>

type_synonym rsa_check = "string \<Rightarrow> string \<Rightarrow> string \<Rightarrow> string option \<Rightarrow> bool option"

definition verifySnsMessage ::
  "rsa_check \<Rightarrow> (string \<Rightarrow> string option) \<Rightarrow> sns_message \<Rightarrow> cert_cache \<Rightarrow> bool \<times> cert_cache" where
  "verifySnsMessage rsa fetch msg cache =
     (case sns_SigningCertURL msg of
        None \<Rightarrow> (False, cache)
      | Some url \<Rightarrow>
          if \<not> CERT_URL_PATTERN url then (False, cache)
          else if sns_SignatureVersion msg \<noteq> Some ''1'' \<and> sns_SignatureVersion msg \<noteq> Some ''2'' then (False, cache)
          else case fetchCert fetch url cache of
            (None, cache1) \<Rightarrow> (False, cache1)
          | (Some pem, cache1) \<Rightarrow>
              (or_else (rsa (if sns_SignatureVersion msg = Some ''2'' then ''RSA-SHA256'' else ''RSA-SHA1'') pem
                 (buildStringToSign msg) (sns_Signature msg)) False, cache1))"

subsection \<open>Certificates\<close>

definition trusted_certs :: "(string \<Rightarrow> string option) \<Rightarrow> cert_cache \<Rightarrow> bool" where
  "trusted_certs fetch cache \<longleftrightarrow> bounded_map CERT_CACHE_MAX_SIZE cache \<and>
     (\<forall>(url, pem) \<in> set cache. CERT_URL_PATTERN url \<and> fetch url = Some pem)"

lemma set_map_set: "set (map_set k v m) \<subseteq> insert (k, v) (set m)"
  by (induction k v m rule: map_set.induct) auto

lemma set_evict_oldest: "set (evict_oldest n c) \<subseteq> set c"
  by (auto simp: evict_oldest_def map_delete_def split: list.splits if_splits)

lemma fetchCert_trusted:
  assumes "trusted_certs fetch cache" and "CERT_URL_PATTERN url"
  shows "trusted_certs fetch (snd (fetchCert fetch url cache))"
    and "fst (fetchCert fetch url cache) = Some pem \<Longrightarrow> fetch url = Some pem"
proof -
  have pos: "0 < CERT_CACHE_MAX_SIZE" by (simp add: CERT_CACHE_MAX_SIZE_def)
  show "trusted_certs fetch (snd (fetchCert fetch url cache))"
    using assms map_set_bounded [OF pos] set_map_set [of url] set_evict_oldest [of CERT_CACHE_MAX_SIZE cache]
    by (fastforce simp: fetchCert_def trusted_certs_def split: option.splits)
  show "fst (fetchCert fetch url cache) = Some pem \<Longrightarrow> fetch url = Some pem"
    using assms map_of_SomeD [of cache url]
    by (fastforce simp: fetchCert_def trusted_certs_def split: option.splits if_splits)
qed

lemma verifySnsMessage_trusted:
  "trusted_certs fetch cache \<Longrightarrow> trusted_certs fetch (snd (verifySnsMessage rsa fetch msg cache))"
  using fetchCert_trusted(1)
  by (fastforce simp: verifySnsMessage_def split: option.splits prod.splits)

lemma verifySnsMessage_sound:
  assumes "trusted_certs fetch cache" and "fst (verifySnsMessage rsa fetch msg cache)"
  obtains url pem algo where "sns_SigningCertURL msg = Some url" "CERT_URL_PATTERN url" "fetch url = Some pem"
    "rsa algo pem (buildStringToSign msg) (sns_Signature msg) = Some True"
proof -
  obtain url where url: "sns_SigningCertURL msg = Some url" "CERT_URL_PATTERN url"
    using assms(2) by (auto simp: verifySnsMessage_def split: option.splits if_splits)
  obtain pem where pem: "fst (fetchCert fetch url cache) = Some pem"
    using assms(2) url by (auto simp: verifySnsMessage_def split: option.splits prod.splits if_splits)
  have "\<exists>algo. rsa algo pem (buildStringToSign msg) (sns_Signature msg) = Some True"
    using assms(2) url pem
    by (auto simp: verifySnsMessage_def or_else_def split: option.splits prod.splits if_splits)
  then show thesis using that url fetchCert_trusted(2) [OF assms(1) url(2) pem] by blast
qed

end
