(* ===== verification/Bounce.thy ===== *)
theory Bounce
  imports SmtpCache Webhooks ApiKeys
begin

text \<open>
  \<^verbatim>\<open>src/lib/bounceHandling.ts\<close>: the suppression list, the counting of soft bounces, the
  correction of a verdict by a hard bounce, and the alerts about the bounce and complaint rates of a key. All
  transports report through these functions. The state holds the tables they read and write; which
  operations fail is the argument \<open>up\<close>. A \<open>void\<close> call is taken to run where it is
  started. The rates are computed exactly instead of in doubles, and of an alert mail only what
  decides its text is kept.
\<close>

subsection \<open>State\<close>

record send_message =
  sm_id :: string
  sm_apiKeyId :: string
  sm_sesMessageId :: "string option"
  sm_smtp2goMessageId :: "string option"
  sm_status :: string
  sm_createdAt :: int

record monitor_row =
  mo_id :: string
  mo_email :: string
  mo_apiKeyId :: string
  mo_intervalHours :: int
  mo_lastStatus :: "string option"
  mo_notifyOnAnyChange :: bool
  mo_isActive :: bool
  mo_pausedAt :: "int option"
  mo_nextCheckAt :: int
  mo_lastCheckedAt :: "int option"
  mo_consecutiveFailures :: nat
  mo_failureReason :: "string option"

record soft_track =
  st_apiKeyId :: string
  st_bounceCount :: nat
  st_lastBounceAt :: int

record rate_alert =
  ra_to :: string
  ra_family :: string
  ra_level :: string
  ra_key :: string
  ra_sent :: nat
  ra_hits :: nat
  ra_at :: int

record send_notice =
  sn_apiKeyId :: string
  sn_event :: string
  sn_eventId :: string
  sn_to :: string
  sn_bounceType :: "string option"

record recheck_job =
  rj_jobId :: string
  rj_monitorId :: string
  rj_source :: string

record mail_world =
  ml_messages :: "send_message list"
  ml_events :: "(string \<times> string) list"
  ml_suppressed :: "string \<Rightarrow> (string \<times> string) option"
  ml_soft :: "string \<Rightarrow> soft_track option"
  ml_verdicts :: smtp_table
  ml_monitors :: "monitor_row list"
  ml_rechecks :: "recheck_job list"
  ml_audit :: "(string \<times> string \<times> int) list"
  ml_alerts :: "rate_alert list"
  ml_keys :: key_table
  ml_users :: "string \<Rightarrow> string option"
  ml_notices :: "send_notice list"

datatype mail_point = CreateEvent | SetStatus | WriteSuppression | ReadSuppression | WriteSoft | DropVerdict
  | FindMonitor | SetNextCheck | QueueRecheck | CountSent | FindAlert | FindKey | FindUser | SendAlert | WriteAlert
  | FindMessage

type_synonym mail_up = "mail_point \<Rightarrow> bool"

definition BOUNCE_WARN_PCT :: rat where "BOUNCE_WARN_PCT = 2"
definition BOUNCE_DANGER_PCT :: rat where "BOUNCE_DANGER_PCT = 5"
definition COMPLAINT_WARN_PCT :: rat where "COMPLAINT_WARN_PCT = 8 / 100"
definition COMPLAINT_DANGER_PCT :: rat where "COMPLAINT_DANGER_PCT = 3 / 10"
definition BOUNCE_WINDOW_MS :: int where "BOUNCE_WINDOW_MS = 24 * 60 * 60 * 1000"
definition BOUNCE_ALERT_COOLDOWN_MS :: int where "BOUNCE_ALERT_COOLDOWN_MS = 4 * 60 * 60 * 1000"
definition BOUNCE_MIN_SENT :: nat where "BOUNCE_MIN_SENT = 50"

subsection \<open>Suppression\<close>

definition suppress :: "mail_up \<Rightarrow> string \<Rightarrow> string \<Rightarrow> string \<Rightarrow> mail_world \<Rightarrow> mail_world" where
  "suppress up email reason key w =
     (if up WriteSuppression \<and> ml_suppressed w email = None
      then w\<lparr>ml_suppressed := (ml_suppressed w)(email \<mapsto> (reason, key))\<rparr> else w)"

definition soft_strike :: "int \<Rightarrow> string \<Rightarrow> soft_track option \<Rightarrow> soft_track" where
  "soft_strike now key t = (case t of
     None \<Rightarrow> \<lparr>st_apiKeyId = key, st_bounceCount = 1, st_lastBounceAt = now\<rparr>
   | Some s \<Rightarrow> s\<lparr>st_bounceCount := st_bounceCount s + 1, st_lastBounceAt := now\<rparr>)"

definition trackSoftBounce :: "mail_up \<Rightarrow> int \<Rightarrow> string \<Rightarrow> string \<Rightarrow> mail_world \<Rightarrow> mail_world" where
  "trackSoftBounce up now email key w =
     (if \<not> up ReadSuppression \<or> ml_suppressed w email \<noteq> None \<or> \<not> up WriteSoft then w
      else
        let track = soft_strike now key (ml_soft w email);
            w1 = w\<lparr>ml_soft := (ml_soft w)(email \<mapsto> track)\<rparr>
        in if st_bounceCount track \<ge> 3 then suppress up email ''soft_bounce'' key w1 else w1)"

subsection \<open>Alerts\<close>

definition alert_level :: "rat \<Rightarrow> rat \<Rightarrow> rat \<Rightarrow> string option" where
  "alert_level danger warn pct =
     (if pct \<ge> danger then Some ''critical'' else if pct \<ge> warn then Some ''warning'' else None)"

definition alert_action :: "string \<Rightarrow> string \<Rightarrow> string" where
  "alert_action family level = family @ ''.'' @ level"

definition recent_alert :: "string \<Rightarrow> string \<Rightarrow> int \<Rightarrow> mail_world \<Rightarrow> bool" where
  "recent_alert action key now w =
     list_ex (\<lambda>(a, k, t). a = action \<and> k = key \<and> t \<ge> now - BOUNCE_ALERT_COOLDOWN_MS) (ml_audit w)"

definition alert_recipient :: "mail_up \<Rightarrow> string \<Rightarrow> mail_world \<Rightarrow> string option" where
  "alert_recipient up key w =
     (if \<not> up FindKey then None
      else case ml_keys w key of
        None \<Rightarrow> None
      | Some k \<Rightarrow>
          let userId = (if k_ownerId k \<noteq> None then k_ownerId k else k_userId k) in
          if \<not> truthy userId \<or> \<not> up FindUser then None
          else if truthy (ml_users w (the userId)) then ml_users w (the userId) else None)"

text \<open>What \<open>checkBounceRate\<close> and \<open>checkComplaintRate\<close> do alike.\<close>

definition check_rate :: "string \<Rightarrow> string \<Rightarrow> rat \<Rightarrow> rat \<Rightarrow> mail_up \<Rightarrow> int \<Rightarrow> string \<Rightarrow> mail_world \<Rightarrow> mail_world" where
  "check_rate family status danger warn up now key w =
     (let recent = filter (\<lambda>m. sm_apiKeyId m = key \<and> sm_createdAt m \<ge> now - BOUNCE_WINDOW_MS) (ml_messages w);
          sent = length recent;
          hits = length (filter (\<lambda>m. sm_status m = status) recent)
      in if \<not> up CountSent \<or> sent < BOUNCE_MIN_SENT then w
         else case alert_level danger warn (of_nat hits / of_nat sent * 100) of
           None \<Rightarrow> w
         | Some level \<Rightarrow>
             if \<not> up FindAlert \<or> recent_alert (alert_action family level) key now w then w
             else case alert_recipient up key w of
               None \<Rightarrow> w
             | Some to \<Rightarrow>
                 if \<not> up SendAlert then w
                 else
                   let w1 = w\<lparr>ml_alerts := ml_alerts w @ [\<lparr>ra_to = to, ra_family = family, ra_level = level,
                     ra_key = key, ra_sent = sent, ra_hits = hits, ra_at = now\<rparr>]\<rparr>
                   in if up WriteAlert
                      then w1\<lparr>ml_audit := ml_audit w @ [(alert_action family level, key, now)]\<rparr> else w1)"

definition checkBounceRate :: "mail_up \<Rightarrow> int \<Rightarrow> string \<Rightarrow> mail_world \<Rightarrow> mail_world" where
  "checkBounceRate = check_rate ''bounce_rate'' ''bounced'' BOUNCE_DANGER_PCT BOUNCE_WARN_PCT"

definition checkComplaintRate :: "mail_up \<Rightarrow> int \<Rightarrow> string \<Rightarrow> mail_world \<Rightarrow> mail_world" where
  "checkComplaintRate = check_rate ''complaint_rate'' ''complained'' COMPLAINT_DANGER_PCT COMPLAINT_WARN_PCT"

subsection \<open>Correction of a verdict\<close>

definition set_monitor :: "string \<Rightarrow> (monitor_row \<Rightarrow> monitor_row) \<Rightarrow> monitor_row list \<Rightarrow> monitor_row list" where
  "set_monitor i f ms = map (\<lambda>m. if mo_id m = i then f m else m) ms"

definition queue_recheck :: "recheck_job \<Rightarrow> recheck_job list \<Rightarrow> recheck_job list" where
  "queue_recheck j js = (if rj_jobId j \<in> rj_jobId ` set js then js else js @ [j])"

definition correctOnGroundTruth :: "mail_up \<Rightarrow> int \<Rightarrow> string \<Rightarrow> string \<Rightarrow> mail_world \<Rightarrow> mail_world" where
  "correctOnGroundTruth up now email key w =
     (let w1 = checkBounceRate up now key w;
          lower = js_lower email;
          w2 = w1\<lparr>ml_verdicts := invalidateSmtpCache (up DropVerdict) lower (ml_verdicts w1)\<rparr>
      in if \<not> up FindMonitor then w2
         else case find (\<lambda>m. mo_email m = lower \<and> mo_apiKeyId m = key \<and> mo_isActive m \<and> mo_pausedAt m = None) (ml_monitors w2) of
           None \<Rightarrow> w2
         | Some m \<Rightarrow>
             if \<not> up SetNextCheck then w2
             else
               let w3 = w2\<lparr>ml_monitors := set_monitor (mo_id m) (\<lambda>r. r\<lparr>mo_nextCheckAt := now\<rparr>) (ml_monitors w2)\<rparr>
               in if \<not> up QueueRecheck then w3
                  else w3\<lparr>ml_rechecks := queue_recheck \<lparr>rj_jobId = ''recheck-'' @ mo_id m @ ''-'' @ show_int now,
                         rj_monitorId = mo_id m, rj_source = ''bounce_ground_truth''\<rparr> (ml_rechecks w3)\<rparr>)"

subsection \<open>The standing of an address\<close>

text \<open>What the tables say of an address: how many soft bounces it has had, or why it is blocked.\<close>

datatype standing = Strikes nat | Blocked string

datatype report = HardBounce string | SoftBounce string | Complained string

definition standing :: "string \<Rightarrow> mail_world \<Rightarrow> standing" where
  "standing e w = (case ml_suppressed w e of
     Some (reason, key) \<Rightarrow> Blocked reason
   | None \<Rightarrow> Strikes (case ml_soft w e of None \<Rightarrow> 0 | Some t \<Rightarrow> st_bounceCount t))"

text \<open>What a report means for it: the first reason stays, and the third soft bounce is one.\<close>

fun strike :: "string \<Rightarrow> report \<Rightarrow> standing \<Rightarrow> standing" where
  "strike e r (Blocked reason) = Blocked reason"
| "strike e (HardBounce a) (Strikes n) = (if a = e then Blocked ''hard_bounce'' else Strikes n)"
| "strike e (Complained a) (Strikes n) = (if a = e then Blocked ''complaint'' else Strikes n)"
| "strike e (SoftBounce a) (Strikes n) =
     (if a \<noteq> e then Strikes n else if n + 1 \<ge> 3 then Blocked ''soft_bounce'' else Strikes (n + 1))"

lemma fold_strike_Blocked [simp]: "fold (strike e) rs (Blocked reason) = Blocked reason"
  by (induction rs) auto

lemma fold_strike_soft:
  "fold (strike e) rs (Strikes n) = Strikes m \<Longrightarrow> m = n + count_list rs (SoftBounce e) \<and> (m = n \<or> m < 3)"
proof (induction rs arbitrary: n)
  case (Cons r rs)
  then show ?case by (cases r) (fastforce split: if_splits)+
qed simp

lemma fold_hard_bounce: "HardBounce e \<in> set rs \<Longrightarrow> \<exists>reason. fold (strike e) rs s = Blocked reason"
proof (induction rs arbitrary: s)
  case (Cons r rs)
  then show ?case by (cases s; cases r) auto
qed simp

named_theorems mail_frame "what the operations leave unchanged"

lemma check_rate_frame [mail_frame]:
  "ml_suppressed (check_rate family status danger warn up now key w) = ml_suppressed w"
  "ml_soft (check_rate family status danger warn up now key w) = ml_soft w"
  "ml_messages (check_rate family status danger warn up now key w) = ml_messages w"
  "ml_monitors (check_rate family status danger warn up now key w) = ml_monitors w"
  by (simp_all add: check_rate_def Let_def split: option.splits)

lemma check_frame [mail_frame]:
  "ml_suppressed (checkBounceRate up now key w) = ml_suppressed w"
  "ml_soft (checkBounceRate up now key w) = ml_soft w"
  "ml_messages (checkBounceRate up now key w) = ml_messages w"
  "ml_suppressed (checkComplaintRate up now key w) = ml_suppressed w"
  "ml_soft (checkComplaintRate up now key w) = ml_soft w"
  "ml_messages (checkComplaintRate up now key w) = ml_messages w"
  by (simp_all add: checkBounceRate_def checkComplaintRate_def mail_frame)

lemma correct_frame [mail_frame]:
  "ml_suppressed (correctOnGroundTruth up now email key w) = ml_suppressed w"
  "ml_soft (correctOnGroundTruth up now email key w) = ml_soft w"
  "ml_messages (correctOnGroundTruth up now email key w) = ml_messages w"
  by (simp_all add: correctOnGroundTruth_def Let_def mail_frame split: option.splits)

lemma correct_alerts [mail_frame]:
  "ml_alerts (correctOnGroundTruth up now email key w) = ml_alerts (checkBounceRate up now key w)"
  "ml_audit (correctOnGroundTruth up now email key w) = ml_audit (checkBounceRate up now key w)"
  by (simp_all add: correctOnGroundTruth_def Let_def split: option.splits)

lemma suppress_frame [mail_frame]:
  "ml_messages (suppress up email reason key w) = ml_messages w"
  "ml_soft (suppress up email reason key w) = ml_soft w"
  "ml_alerts (suppress up email reason key w) = ml_alerts w"
  "ml_audit (suppress up email reason key w) = ml_audit w"
  by (simp_all add: suppress_def)

lemma track_frame [mail_frame]:
  "ml_messages (trackSoftBounce up now email key w) = ml_messages w"
  "ml_alerts (trackSoftBounce up now email key w) = ml_alerts w"
  "ml_audit (trackSoftBounce up now email key w) = ml_audit w"
  by (simp_all add: trackSoftBounce_def Let_def mail_frame)

lemma suppress_keeps: "ml_suppressed w e = Some x \<Longrightarrow> ml_suppressed (suppress up email reason key w) e = Some x"
  by (auto simp: suppress_def)

lemma track_keeps: "ml_suppressed w e = Some x \<Longrightarrow> ml_suppressed (trackSoftBounce up now email key w) e = Some x"
  by (auto simp: trackSoftBounce_def Let_def suppress_def)

lemma standing_cong:
  "ml_suppressed w = ml_suppressed v \<Longrightarrow> ml_soft w = ml_soft v \<Longrightarrow> standing e w = standing e v"
  by (simp add: standing_def split: option.split)

lemma standing_suppress_hard:
  "standing e (suppress (\<lambda>_. True) email ''hard_bounce'' key w) = strike e (HardBounce email) (standing e w)"
  by (auto simp: standing_def suppress_def split: option.splits)

lemma standing_suppress_complaint:
  "standing e (suppress (\<lambda>_. True) email ''complaint'' key w) = strike e (Complained email) (standing e w)"
  by (auto simp: standing_def suppress_def split: option.splits)

lemma standing_track:
  "standing e (trackSoftBounce (\<lambda>_. True) now email key w) = strike e (SoftBounce email) (standing e w)"
  by (auto simp: standing_def trackSoftBounce_def soft_strike_def suppress_def Let_def split: option.splits)

subsection \<open>Alerts keep their distance\<close>

definition same_alert :: "rate_alert \<Rightarrow> rate_alert \<Rightarrow> bool" where
  "same_alert a b \<longleftrightarrow> ra_family a = ra_family b \<and> ra_level a = ra_level b \<and> ra_key a = ra_key b"

definition spaced_alerts :: "rate_alert list \<Rightarrow> bool" where
  "spaced_alerts xs \<longleftrightarrow> sorted_wrt (\<lambda>a b. same_alert a b \<longrightarrow> ra_at b - ra_at a > BOUNCE_ALERT_COOLDOWN_MS) xs"

definition audited :: "mail_world \<Rightarrow> bool" where
  "audited w \<longleftrightarrow> spaced_alerts (ml_alerts w) \<and>
     (\<forall>a \<in> set (ml_alerts w). (alert_action (ra_family a) (ra_level a), ra_key a, ra_at a) \<in> set (ml_audit w))"

lemma audited_cong: "ml_alerts w = ml_alerts v \<Longrightarrow> ml_audit w = ml_audit v \<Longrightarrow> audited w = audited v"
  by (simp add: audited_def)

lemma check_rate_cases:
  assumes "up WriteAlert"
  shows "check_rate family status danger warn up now key w = w \<or>
    (\<exists>to level n h. \<not> recent_alert (alert_action family level) key now w \<and>
      check_rate family status danger warn up now key w = w\<lparr>ml_alerts := ml_alerts w @ [\<lparr>ra_to = to, ra_family = family,
          ra_level = level, ra_key = key, ra_sent = n, ra_hits = h, ra_at = now\<rparr>],
        ml_audit := ml_audit w @ [(alert_action family level, key, now)]\<rparr>)"
  using assms unfolding check_rate_def Let_def
  by (simp split: option.split) blast

lemma check_rate_audited:
  assumes "up WriteAlert" and "audited w"
  shows "audited (check_rate family status danger warn up now key w)"
  using check_rate_cases [of up, OF assms(1), of family status danger warn now key w]
proof (elim disjE exE conjE)
  fix to level n h
  assume "\<not> recent_alert (alert_action family level) key now w"
    and "check_rate family status danger warn up now key w = w\<lparr>ml_alerts := ml_alerts w @ [\<lparr>ra_to = to, ra_family = family,
        ra_level = level, ra_key = key, ra_sent = n, ra_hits = h, ra_at = now\<rparr>],
      ml_audit := ml_audit w @ [(alert_action family level, key, now)]\<rparr>"
  with assms(2) show ?thesis
    by (fastforce simp: audited_def spaced_alerts_def sorted_wrt_append same_alert_def recent_alert_def list_ex_iff)
qed (simp add: assms(2))

lemma checks_audited:
  "up WriteAlert \<Longrightarrow> audited w \<Longrightarrow> audited (checkBounceRate up now key w)"
  "up WriteAlert \<Longrightarrow> audited w \<Longrightarrow> audited (checkComplaintRate up now key w)"
  by (simp_all add: checkBounceRate_def checkComplaintRate_def check_rate_audited)

end
