(* ===== verification/DeliveryEvents.thy ===== *)
theory DeliveryEvents
  imports Sns Bounce
begin

text \<open>
  The two routes through which a mail transport reports what became of a message:
  \<^verbatim>\<open>src/routes/send/events.ts\<close> (Amazon SES through SNS) and
  \<^verbatim>\<open>src/routes/send/smtp2goEvents.ts\<close>. The parsing of JSON is a parameter; an array that is missing
  is empty. The limit on requests per address runs before both and is not part of the theory. A reply is its
  status; an exception of a handler is answered with 500.
\<close>

subsection \<open>Amazon SES\<close>

record ses_event =
  se_messageId :: "string option"
  se_eventType :: "string option"
  se_notificationType :: "string option"
  se_bounceType :: "string option"
  se_bounced :: "string option list"
  se_complained :: "string option list"
  se_recipients :: "string list"

definition present :: "string option list \<Rightarrow> string list" where
  "present xs = map the (filter truthy xs)"

text \<open>The event row and the status of the message; \<open>False\<close> when one of the writes throws.\<close>

definition record_delivery :: "mail_up \<Rightarrow> string \<Rightarrow> string \<Rightarrow> mail_world \<Rightarrow> bool \<times> mail_world" where
  "record_delivery up i status w =
     (if \<not> up CreateEvent then (False, w)
      else
        let w1 = w\<lparr>ml_events := ml_events w @ [(i, status)]\<rparr>
        in if \<not> up SetStatus then (False, w1)
           else (True, w1\<lparr>ml_messages := map (\<lambda>m. if sm_id m = i then m\<lparr>sm_status := status\<rparr> else m) (ml_messages w)\<rparr>))"

definition notify :: "string \<Rightarrow> string \<Rightarrow> string \<Rightarrow> string \<Rightarrow> string option \<Rightarrow> mail_world \<Rightarrow> mail_world" where
  "notify key event i email bounceType w = w\<lparr>ml_notices := ml_notices w @
     [\<lparr>sn_apiKeyId = key, sn_event = event, sn_eventId = buildEventId event i, sn_to = email, sn_bounceType = bounceType\<rparr>]\<rparr>"

definition bounced_recipient ::
  "mail_up \<Rightarrow> int \<Rightarrow> string \<Rightarrow> string \<Rightarrow> string option \<Rightarrow> string \<Rightarrow> mail_world \<Rightarrow> mail_world" where
  "bounced_recipient up now i key bounceType email w =
     notify key ''email.bounced'' i email bounceType
       (if bounceType = Some ''Permanent'' then correctOnGroundTruth up now email key (suppress up email ''hard_bounce'' key w)
        else if bounceType = Some ''Transient'' then trackSoftBounce up now email key w
        else w)"

definition complained_recipient :: "mail_up \<Rightarrow> string \<Rightarrow> string \<Rightarrow> string \<Rightarrow> mail_world \<Rightarrow> mail_world" where
  "complained_recipient up i key email w =
     notify key ''email.complained'' i email None (suppress up email ''complaint'' key w)"

definition handleSesEvent ::
  "mail_up \<Rightarrow> int \<Rightarrow> string \<Rightarrow> string \<Rightarrow> string \<Rightarrow> ses_event \<Rightarrow> mail_world \<Rightarrow> bool \<times> mail_world" where
  "handleSesEvent up now i key eventType ev w =
     (if eventType = ''Bounce'' then
        (case record_delivery up i ''bounced'' w of
           (False, w1) \<Rightarrow> (False, w1)
         | (True, w1) \<Rightarrow> (True, fold (bounced_recipient up now i key (se_bounceType ev)) (present (se_bounced ev)) w1))
      else if eventType = ''Complaint'' then
        (case record_delivery up i ''complained'' w of
           (False, w1) \<Rightarrow> (False, w1)
         | (True, w1) \<Rightarrow> (True, checkComplaintRate up now key
             (fold (complained_recipient up i key) (present (se_complained ev)) w1)))
      else if eventType = ''Delivery'' then
        (case record_delivery up i ''delivered'' w of
           (False, w1) \<Rightarrow> (False, w1)
         | (True, w1) \<Rightarrow> (True, fold (\<lambda>email. notify key ''email.delivered'' i email None) (se_recipients ev) w1))
      else (True, w))"

record delivery_state =
  ds_certs :: cert_cache
  ds_visited :: "string list"
  ds_mail :: mail_world

definition event_type :: "ses_event \<Rightarrow> string option" where
  "event_type ev = (if se_eventType ev \<noteq> None then se_eventType ev else se_notificationType ev)"

definition receive_ses :: "mail_up \<Rightarrow> int \<Rightarrow> ses_event \<Rightarrow> mail_world \<Rightarrow> nat \<times> mail_world" where
  "receive_ses up now ev w =
     (if \<not> truthy (se_messageId ev) \<or> \<not> truthy (event_type ev) then (200, w)
      else if \<not> up FindMessage then (500, w)
      else case find (\<lambda>m. sm_sesMessageId m = se_messageId ev) (ml_messages w) of
        None \<Rightarrow> (200, w)
      | Some m \<Rightarrow>
          (case handleSesEvent up now (sm_id m) (sm_apiKeyId m) (the (event_type ev)) ev w of
             (ok, w1) \<Rightarrow> (if ok then 200 else 500, w1)))"

definition sendEventsRoute ::
  "rsa_check \<Rightarrow> (string \<Rightarrow> string option) \<Rightarrow> (string option \<Rightarrow> ses_event option) \<Rightarrow> mail_up \<Rightarrow> int \<Rightarrow>
    sns_message option \<Rightarrow> delivery_state \<Rightarrow> nat \<times> delivery_state" where
  "sendEventsRoute rsa fetch parse up now request st =
     (case request of
        None \<Rightarrow> (400, st)
      | Some msg \<Rightarrow>
          (case verifySnsMessage rsa fetch msg (ds_certs st) of
             (verified, certs) \<Rightarrow>
               let st1 = st\<lparr>ds_certs := certs\<rparr>
               in if \<not> verified then (401, st1)
                  else if sns_Type msg = Some ''SubscriptionConfirmation'' then
                    (200, if truthy (sns_SubscribeURL msg)
                          then st1\<lparr>ds_visited := ds_visited st1 @ [the (sns_SubscribeURL msg)]\<rparr> else st1)
                  else if sns_Type msg \<noteq> Some ''Notification'' then (200, st1)
                  else case parse (sns_Message msg) of
                    None \<Rightarrow> (200, st1)
                  | Some ev \<Rightarrow> (case receive_ses up now ev (ds_mail st1) of (r, w) \<Rightarrow> (r, st1\<lparr>ds_mail := w\<rparr>))))"

subsection \<open>SMTP2GO\<close>

record smtp2go_event =
  sg_event :: "string option"
  sg_rcpt :: "string option"
  sg_email_id :: "string option"
  sg_bounce :: "string option"

definition smtp2go_bounceType :: "smtp2go_event \<Rightarrow> string option" where
  "smtp2go_bounceType ev =
     (if sg_bounce ev = Some ''hard'' then Some ''Permanent''
      else if sg_bounce ev = Some ''soft'' then Some ''Transient'' else None)"

definition handleSmtp2goEvent ::
  "mail_up \<Rightarrow> int \<Rightarrow> string \<Rightarrow> string \<Rightarrow> smtp2go_event \<Rightarrow> mail_world \<Rightarrow> bool \<times> mail_world" where
  "handleSmtp2goEvent up now i key ev w =
     (let email = the (sg_rcpt ev); has_email = truthy (sg_rcpt ev)
      in if sg_event ev = Some ''bounce'' then
        (case record_delivery up i ''bounced'' w of
           (False, w1) \<Rightarrow> (False, w1)
         | (True, w1) \<Rightarrow> (True,
             if \<not> has_email then w1
             else notify key ''email.bounced'' i email (smtp2go_bounceType ev)
               (if sg_bounce ev = Some ''hard'' then correctOnGroundTruth up now email key (suppress up email ''hard_bounce'' key w1)
                else if sg_bounce ev = Some ''soft'' then trackSoftBounce up now email key w1
                else w1)))
      else if sg_event ev = Some ''spam'' then
        (case record_delivery up i ''complained'' w of
           (False, w1) \<Rightarrow> (False, w1)
         | (True, w1) \<Rightarrow> (True, checkComplaintRate up now key
             (if \<not> has_email then w1
              else notify key ''email.complained'' i email None (suppress up email ''complaint'' key w1))))
      else if sg_event ev = Some ''delivered'' then
        (case record_delivery up i ''delivered'' w of
           (False, w1) \<Rightarrow> (False, w1)
         | (True, w1) \<Rightarrow> (True, if \<not> has_email then w1 else notify key ''email.delivered'' i email None w1))
      else (True, w))"

definition receive_smtp2go :: "mail_up \<Rightarrow> int \<Rightarrow> smtp2go_event \<Rightarrow> mail_world \<Rightarrow> nat \<times> mail_world" where
  "receive_smtp2go up now ev w =
     (if \<not> truthy (sg_email_id ev) \<or> \<not> truthy (sg_event ev) then (200, w)
      else if \<not> up FindMessage then (500, w)
      else case find (\<lambda>m. sm_smtp2goMessageId m = sg_email_id ev) (ml_messages w) of
        None \<Rightarrow> (200, w)
      | Some m \<Rightarrow>
          (case handleSmtp2goEvent up now (sm_id m) (sm_apiKeyId m) ev w of
             (ok, w1) \<Rightarrow> (if ok then 200 else 500, w1)))"

definition smtp2goEventsRoute ::
  "string option \<Rightarrow> string \<Rightarrow> mail_up \<Rightarrow> int \<Rightarrow> smtp2go_event \<Rightarrow> mail_world \<Rightarrow> nat \<times> mail_world" where
  "smtp2goEventsRoute secret path_token up now ev w =
     (if \<not> truthy secret \<or> Some path_token \<noteq> secret then (401, w) else receive_smtp2go up now ev w)"

subsection \<open>A transport as a source of reports\<close>

text \<open>The ids under which the transports know the messages.\<close>

type_synonym message_ids = "(string option \<times> string option) list"

definition message_ids :: "mail_world \<Rightarrow> message_ids" where
  "message_ids w = map (\<lambda>m. (sm_sesMessageId m, sm_smtp2goMessageId m)) (ml_messages w)"

locale report_source =
  fixes receive :: "mail_up \<Rightarrow> int \<Rightarrow> 'e \<Rightarrow> mail_world \<Rightarrow> nat \<times> mail_world"
    and reports :: "'e \<Rightarrow> message_ids \<Rightarrow> report list"
  assumes ids: "message_ids (snd (receive up now ev w)) = message_ids w"
    and keeps: "ml_suppressed w e = Some x \<Longrightarrow> ml_suppressed (snd (receive up now ev w)) e = Some x"
    and step: "standing e (snd (receive (\<lambda>_. True) now ev w)) = fold (strike e) (reports ev (message_ids w)) (standing e w)"
    and alerts: "up WriteAlert \<Longrightarrow> audited w \<Longrightarrow> audited (snd (receive up now ev w))"
begin

lemma run_ids: "message_ids (fold (\<lambda>(up, now, ev) v. snd (receive up now ev v)) evs w) = message_ids w"
  by (induction evs arbitrary: w) (auto simp: ids)

lemma run_keeps:
  "ml_suppressed w e = Some x \<Longrightarrow> ml_suppressed (fold (\<lambda>(up, now, ev) v. snd (receive up now ev v)) evs w) e = Some x"
  by (induction evs arbitrary: w) (auto simp: keeps)

lemma run_standing:
  "standing e (fold (\<lambda>(now, ev) v. snd (receive (\<lambda>_. True) now ev v)) evs w) =
   fold (strike e) (concat (map (\<lambda>(now, ev). reports ev (message_ids w)) evs)) (standing e w)"
  by (induction evs arbitrary: w) (auto simp: ids step)

lemma run_alerts:
  "\<forall>(up, now, ev) \<in> set evs. up WriteAlert \<Longrightarrow> audited w \<Longrightarrow>
   audited (fold (\<lambda>(up, now, ev) v. snd (receive up now ev v)) evs w)"
  by (induction evs arbitrary: w) (auto simp: alerts)

end

definition ses_reports :: "ses_event \<Rightarrow> message_ids \<Rightarrow> report list" where
  "ses_reports ev known =
     (if \<not> truthy (se_messageId ev) \<or> se_messageId ev \<notin> fst ` set known then []
      else if event_type ev = Some ''Bounce'' then
        (if se_bounceType ev = Some ''Permanent'' then map HardBounce (present (se_bounced ev))
         else if se_bounceType ev = Some ''Transient'' then map SoftBounce (present (se_bounced ev)) else [])
      else if event_type ev = Some ''Complaint'' then map Complained (present (se_complained ev))
      else [])"

definition smtp2go_reports :: "smtp2go_event \<Rightarrow> message_ids \<Rightarrow> report list" where
  "smtp2go_reports ev known =
     (if \<not> truthy (sg_email_id ev) \<or> sg_email_id ev \<notin> snd ` set known \<or> \<not> truthy (sg_rcpt ev) then []
      else if sg_event ev = Some ''bounce'' then
        (if sg_bounce ev = Some ''hard'' then [HardBounce (the (sg_rcpt ev))]
         else if sg_bounce ev = Some ''soft'' then [SoftBounce (the (sg_rcpt ev))] else [])
      else if sg_event ev = Some ''spam'' then [Complained (the (sg_rcpt ev))]
      else [])"

subsection \<open>The two handlers agree\<close>

definition as_ses :: "smtp2go_event \<Rightarrow> ses_event" where
  "as_ses ev = \<lparr>se_messageId = sg_email_id ev,
     se_eventType = (if sg_event ev = Some ''bounce'' then Some ''Bounce''
       else if sg_event ev = Some ''spam'' then Some ''Complaint''
       else if sg_event ev = Some ''delivered'' then Some ''Delivery'' else Some ''Other''),
     se_notificationType = None, se_bounceType = smtp2go_bounceType ev, se_bounced = [sg_rcpt ev],
     se_complained = [sg_rcpt ev], se_recipients = present [sg_rcpt ev]\<rparr>"

text \<open>C16: the two transports treat the same report alike: SMTP2GO's handler does what the handler of SES does on
  the corresponding event with one recipient, whichever writes fail.\<close>

theorem transports_agree:
  "handleSmtp2goEvent up now i key ev w = handleSesEvent up now i key (the (event_type (as_ses ev))) (as_ses ev) w"
  by (simp add: handleSmtp2goEvent_def handleSesEvent_def as_ses_def event_type_def present_def bounced_recipient_def
      complained_recipient_def smtp2go_bounceType_def Let_def split: prod.split bool.split)

lemma as_ses_simps [simp]:
  "se_messageId (as_ses ev) = sg_email_id ev" "se_bounceType (as_ses ev) = smtp2go_bounceType ev"
  by (simp_all add: as_ses_def)

subsection \<open>The handlers report\<close>

lemma record_delivery_frame [mail_frame]:
  "ml_suppressed (snd (record_delivery up i status w)) = ml_suppressed w"
  "ml_soft (snd (record_delivery up i status w)) = ml_soft w"
  "ml_alerts (snd (record_delivery up i status w)) = ml_alerts w"
  "ml_audit (snd (record_delivery up i status w)) = ml_audit w"
  "message_ids (snd (record_delivery up i status w)) = message_ids w"
  by (auto simp: record_delivery_def message_ids_def Let_def)

lemma notify_frame [mail_frame]:
  "ml_suppressed (notify key event i email bt w) = ml_suppressed w" "ml_soft (notify key event i email bt w) = ml_soft w"
  "ml_alerts (notify key event i email bt w) = ml_alerts w" "ml_audit (notify key event i email bt w) = ml_audit w"
  "ml_messages (notify key event i email bt w) = ml_messages w"
  by (simp_all add: notify_def)

text \<open>A property of the state that every part of a handler keeps is kept by the handler.\<close>

lemma handleSesEvent_invariant:
  assumes "P w"
    and rec: "\<And>status v. P v \<Longrightarrow> P (snd (record_delivery up i status v))"
    and hard: "\<And>email v. P v \<Longrightarrow> P (correctOnGroundTruth up now email key (suppress up email ''hard_bounce'' key v))"
    and soft: "\<And>email v. P v \<Longrightarrow> P (trackSoftBounce up now email key v)"
    and complaint: "\<And>email v. P v \<Longrightarrow> P (suppress up email ''complaint'' key v)"
    and rate: "\<And>v. P v \<Longrightarrow> P (checkComplaintRate up now key v)"
    and told: "\<And>event email bt v. P v \<Longrightarrow> P (notify key event i email bt v)"
  shows "P (snd (handleSesEvent up now i key t ev w))"
proof -
  have b: "P (fold (bounced_recipient up now i key bt) es v)" if "P v" for bt es v
    by (rule fold_invariant [of _ P, OF _ that]) (auto simp: bounced_recipient_def intro!: told hard soft)
  have c: "P (fold (complained_recipient up i key) es v)" if "P v" for es v
    by (rule fold_invariant [of _ P, OF _ that]) (auto simp: complained_recipient_def intro!: told complaint)
  have d: "P (fold (\<lambda>email. notify key event i email None) es v)" if "P v" for es v event
    by (rule fold_invariant [of _ P, OF _ that]) (auto intro!: told)
  obtain o1 v1 o2 v2 o3 v3 where r: "record_delivery up i ''bounced'' w = (o1, v1)"
    "record_delivery up i ''complained'' w = (o2, v2)" "record_delivery up i ''delivered'' w = (o3, v3)" by fastforce
  then have "P v1" "P v2" "P v3"
    using rec [OF assms(1), of "''bounced''"] rec [OF assms(1), of "''complained''"] rec [OF assms(1), of "''delivered''"]
    by simp_all
  then show ?thesis
    by (simp add: handleSesEvent_def assms(1) r b c d rate split: bool.split)
qed

lemma receive_ses_invariant:
  assumes "P w" and "\<And>m. m \<in> set (ml_messages w) \<Longrightarrow> sm_sesMessageId m = se_messageId ev \<Longrightarrow>
      P (snd (handleSesEvent up now (sm_id m) (sm_apiKeyId m) (the (event_type ev)) ev w))"
  shows "P (snd (receive_ses up now ev w))"
  using assms by (auto simp: receive_ses_def case_prod_unfold dest!: find_SomeD split: option.split)

lemma receive_smtp2go_invariant:
  assumes "P w" and "\<And>m. m \<in> set (ml_messages w) \<Longrightarrow> sm_smtp2goMessageId m = sg_email_id ev \<Longrightarrow>
      P (snd (handleSmtp2goEvent up now (sm_id m) (sm_apiKeyId m) ev w))"
  shows "P (snd (receive_smtp2go up now ev w))"
  using assms by (auto simp: receive_smtp2go_def case_prod_unfold dest!: find_SomeD split: option.split)

lemma standing_notify [simp]: "standing e (notify key event i email bt w) = standing e w"
  by (rule standing_cong) (simp_all add: mail_frame)

lemma standing_correct: "standing e (correctOnGroundTruth up now email key w) = standing e w"
  by (rule standing_cong) (simp_all add: mail_frame)

lemma standing_complaint_check: "standing e (checkComplaintRate up now key w) = standing e w"
  by (rule standing_cong) (simp_all add: mail_frame)

lemma standing_record [simp]: "standing e (snd (record_delivery up i status w)) = standing e w"
  by (rule standing_cong) (simp_all add: mail_frame)

lemma standing_bounced:
  "standing e (bounced_recipient (\<lambda>_. True) now i key bt email w) =
     (if bt = Some ''Permanent'' then strike e (HardBounce email) (standing e w)
      else if bt = Some ''Transient'' then strike e (SoftBounce email) (standing e w) else standing e w)"
  by (simp add: bounced_recipient_def standing_correct standing_suppress_hard standing_track)

lemma standing_bounced_fold:
  "standing e (fold (bounced_recipient (\<lambda>_. True) now i key bt) es w) =
     fold (strike e) (if bt = Some ''Permanent'' then map HardBounce es
        else if bt = Some ''Transient'' then map SoftBounce es else []) (standing e w)"
  by (induction es arbitrary: w) (auto simp: standing_bounced)

lemma standing_complained_fold:
  "standing e (fold (complained_recipient (\<lambda>_. True) i key) es w) = fold (strike e) (map Complained es) (standing e w)"
  by (induction es arbitrary: w) (auto simp: complained_recipient_def standing_suppress_complaint)

lemma standing_delivered_fold:
  "standing e (fold (\<lambda>email. notify key event i email None) es w) = standing e w"
  by (induction es arbitrary: w) auto

lemma record_delivery_up: "record_delivery (\<lambda>_. True) i status w = (True, snd (record_delivery (\<lambda>_. True) i status w))"
  by (simp add: record_delivery_def)

lemma handleSesEvent_standing:
  "standing e (snd (handleSesEvent (\<lambda>_. True) now i key t ev w)) =
     fold (strike e) (if t = ''Bounce'' then
          (if se_bounceType ev = Some ''Permanent'' then map HardBounce (present (se_bounced ev))
           else if se_bounceType ev = Some ''Transient'' then map SoftBounce (present (se_bounced ev)) else [])
        else if t = ''Complaint'' then map Complained (present (se_complained ev)) else []) (standing e w)"
proof -
  obtain v1 v2 v3 where r: "record_delivery (\<lambda>_. True) i ''bounced'' w = (True, v1)"
    "record_delivery (\<lambda>_. True) i ''complained'' w = (True, v2)" "record_delivery (\<lambda>_. True) i ''delivered'' w = (True, v3)"
    using record_delivery_up by metis
  then have "standing e v1 = standing e w" "standing e v2 = standing e w" "standing e v3 = standing e w"
    using standing_record [of e "\<lambda>_. True" i _ w] by (metis snd_conv)+
  then show ?thesis
    by (simp add: handleSesEvent_def r standing_bounced_fold standing_complained_fold standing_complaint_check
        standing_delivered_fold)
qed

lemma find_known: "(\<exists>m \<in> set ms. f m = x) \<longleftrightarrow> List.find (\<lambda>m. f m = x) ms \<noteq> None"
  by (auto simp: find_None_iff_all)

lemma receive_ses_standing:
  "standing e (snd (receive_ses (\<lambda>_. True) now ev w)) = fold (strike e) (ses_reports ev (message_ids w)) (standing e w)"
proof (cases "List.find (\<lambda>m. sm_sesMessageId m = se_messageId ev) (ml_messages w)")
  case None
  then have "se_messageId ev \<notin> fst ` set (message_ids w)"
    by (auto simp: find_None_iff_all message_ids_def)
  then show ?thesis by (simp add: receive_ses_def ses_reports_def None)
next
  case (Some m)
  then have known: "se_messageId ev \<in> fst ` set (message_ids w)"
    by (force simp: message_ids_def dest!: find_SomeD)
  show ?thesis
  proof (cases "truthy (event_type ev)")
    case True
    then obtain t where "event_type ev = Some t" by (auto simp: truthy_def split: option.splits)
    then show ?thesis using known True
      by (simp add: receive_ses_def ses_reports_def Some case_prod_unfold handleSesEvent_standing)
  next
    case False
    then have "event_type ev \<noteq> Some ''Bounce''" "event_type ev \<noteq> Some ''Complaint''" by (auto simp: truthy_def)
    then show ?thesis using False by (simp add: receive_ses_def ses_reports_def)
  qed
qed

lemma receive_smtp2go_standing:
  "standing e (snd (receive_smtp2go (\<lambda>_. True) now ev w)) =
     fold (strike e) (smtp2go_reports ev (message_ids w)) (standing e w)"
proof (cases "List.find (\<lambda>m. sm_smtp2goMessageId m = sg_email_id ev) (ml_messages w)")
  case None
  then have "sg_email_id ev \<notin> snd ` set (message_ids w)"
    by (auto simp: find_None_iff_all message_ids_def)
  then show ?thesis by (simp add: receive_smtp2go_def smtp2go_reports_def None)
next
  case (Some m)
  then have known: "sg_email_id ev \<in> snd ` set (message_ids w)"
    by (force simp: message_ids_def dest!: find_SomeD)
  have "sg_event ev \<noteq> Some ''bounce'' \<and> sg_event ev \<noteq> Some ''spam''" if "\<not> truthy (sg_event ev)"
    using that by (auto simp: truthy_def)
  then show ?thesis using known
    by (auto simp: receive_smtp2go_def smtp2go_reports_def Some case_prod_unfold transports_agree handleSesEvent_standing
        as_ses_def event_type_def present_def smtp2go_bounceType_def)
qed

lemma handleSesEvent_ids: "message_ids (snd (handleSesEvent up now i key t ev w)) = message_ids w"
  by (rule handleSesEvent_invariant [where P = "\<lambda>v. message_ids v = message_ids w"])
    (simp_all add: mail_frame, simp_all add: message_ids_def mail_frame)

lemma handleSesEvent_keeps:
  "ml_suppressed w e = Some x \<Longrightarrow> ml_suppressed (snd (handleSesEvent up now i key t ev w)) e = Some x"
  by (rule handleSesEvent_invariant [where P = "\<lambda>v. ml_suppressed v e = Some x"])
    (simp_all add: mail_frame suppress_keeps track_keeps)

lemma handleSesEvent_audited:
  assumes "up WriteAlert" and "audited w"
  shows "audited (snd (handleSesEvent up now i key t ev w))"
proof (rule handleSesEvent_invariant [where P = audited])
  fix email v assume "audited v"
  then have "audited (checkBounceRate up now key (suppress up email ''hard_bounce'' key v))"
    by (intro checks_audited(1) assms(1)) (simp cong: audited_cong add: audited_def mail_frame)
  then show "audited (correctOnGroundTruth up now email key (suppress up email ''hard_bounce'' key v))"
    by (simp add: audited_def mail_frame)
qed (simp_all add: assms checks_audited, simp_all add: audited_def mail_frame)

interpretation ses: report_source receive_ses ses_reports
proof
  fix up now ev and w :: mail_world
  show "message_ids (snd (receive_ses up now ev w)) = message_ids w"
    by (rule receive_ses_invariant [where P = "\<lambda>v. message_ids v = message_ids w"]) (simp_all add: handleSesEvent_ids)
next
  fix up now ev e x and w :: mail_world assume "ml_suppressed w e = Some x"
  then show "ml_suppressed (snd (receive_ses up now ev w)) e = Some x"
    by (intro receive_ses_invariant [where P = "\<lambda>v. ml_suppressed v e = Some x"] handleSesEvent_keeps)
next
  fix now ev e and w :: mail_world
  show "standing e (snd (receive_ses (\<lambda>_. True) now ev w)) = fold (strike e) (ses_reports ev (message_ids w)) (standing e w)"
    by (rule receive_ses_standing)
next
  fix up now ev and w :: mail_world assume "up WriteAlert" "audited w"
  then show "audited (snd (receive_ses up now ev w))"
    by (intro receive_ses_invariant [where P = audited] handleSesEvent_audited)
qed

interpretation smtp2go: report_source receive_smtp2go smtp2go_reports
proof
  fix up now ev and w :: mail_world
  show "message_ids (snd (receive_smtp2go up now ev w)) = message_ids w"
    by (rule receive_smtp2go_invariant [where P = "\<lambda>v. message_ids v = message_ids w"])
      (simp_all add: transports_agree handleSesEvent_ids)
next
  fix up now ev e x and w :: mail_world assume "ml_suppressed w e = Some x"
  then show "ml_suppressed (snd (receive_smtp2go up now ev w)) e = Some x"
    by (intro receive_smtp2go_invariant [where P = "\<lambda>v. ml_suppressed v e = Some x"])
      (simp_all add: transports_agree handleSesEvent_keeps)
next
  fix now ev e and w :: mail_world
  show "standing e (snd (receive_smtp2go (\<lambda>_. True) now ev w)) =
      fold (strike e) (smtp2go_reports ev (message_ids w)) (standing e w)"
    by (rule receive_smtp2go_standing)
next
  fix up now ev and w :: mail_world assume "up WriteAlert" "audited w"
  then show "audited (snd (receive_smtp2go up now ev w))"
    by (intro receive_smtp2go_invariant [where P = audited]) (simp_all add: transports_agree handleSesEvent_audited)
qed

text \<open>Both transports at once.\<close>

datatype delivery_event = Ses ses_event | Smtp2go smtp2go_event

fun receive_event :: "mail_up \<Rightarrow> int \<Rightarrow> delivery_event \<Rightarrow> mail_world \<Rightarrow> nat \<times> mail_world" where
  "receive_event up now (Ses ev) w = receive_ses up now ev w"
| "receive_event up now (Smtp2go ev) w = receive_smtp2go up now ev w"

fun event_reports :: "delivery_event \<Rightarrow> message_ids \<Rightarrow> report list" where
  "event_reports (Ses ev) known = ses_reports ev known"
| "event_reports (Smtp2go ev) known = smtp2go_reports ev known"

interpretation mail: report_source receive_event event_reports
proof
  fix up now ev and w :: mail_world
  show "message_ids (snd (receive_event up now ev w)) = message_ids w"
    by (cases ev) (simp_all add: ses.ids smtp2go.ids)
next
  fix up now ev e x and w :: mail_world assume "ml_suppressed w e = Some x"
  then show "ml_suppressed (snd (receive_event up now ev w)) e = Some x"
    by (cases ev) (simp_all add: ses.keeps smtp2go.keeps)
next
  fix now ev e and w :: mail_world
  show "standing e (snd (receive_event (\<lambda>_. True) now ev w)) = fold (strike e) (event_reports ev (message_ids w)) (standing e w)"
    by (cases ev) (simp_all add: ses.step smtp2go.step)
next
  fix up now ev and w :: mail_world assume "up WriteAlert" "audited w"
  then show "audited (snd (receive_event up now ev w))"
    by (cases ev) (simp_all add: ses.alerts smtp2go.alerts)
qed

definition receive_all :: "(mail_up \<times> int \<times> delivery_event) list \<Rightarrow> mail_world \<Rightarrow> mail_world" where
  "receive_all evs w = fold (\<lambda>(up, now, ev) v. snd (receive_event up now ev v)) evs w"

definition all_reports :: "(int \<times> delivery_event) list \<Rightarrow> message_ids \<Rightarrow> report list" where
  "all_reports evs known = concat (map (\<lambda>(now, ev). event_reports ev known) evs)"

definition calm_events :: "(int \<times> delivery_event) list \<Rightarrow> (mail_up \<times> int \<times> delivery_event) list" where
  "calm_events evs = map (\<lambda>(now, ev). (\<lambda>_. True, now, ev)) evs"

lemma receive_all_calm:
  "receive_all (calm_events evs) w = fold (\<lambda>(now, ev) v. snd (receive_event (\<lambda>_. True) now ev v)) evs w"
  by (simp add: receive_all_def calm_events_def fold_map comp_def case_prod_unfold)

lemma receive_all_standing:
  "standing e (receive_all (calm_events evs) w) = fold (strike e) (all_reports evs (message_ids w)) (standing e w)"
  unfolding receive_all_calm all_reports_def by (rule mail.run_standing)

subsection \<open>What the reports do to an address\<close>

text \<open>C13: the events of both transports together treat an address as the list of reports they contain: the first
  hard bounce, the first complaint or the third soft bounce blocks it for that reason, the reason never
  changes, and nothing else does anything to it.\<close>

theorem suppression_refines_reports:
  "standing e (receive_all (calm_events evs) w) = fold (strike e) (all_reports evs (message_ids w)) (standing e w)"
  by (rule receive_all_standing)

text \<open>An address on the suppression list stays on it for the reason it got there, whatever events follow
  and whichever operations fail.\<close>

theorem suppression_permanent:
  assumes "ml_suppressed w e = Some x"
  shows "ml_suppressed (receive_all evs w) e = Some x"
  unfolding receive_all_def using assms by (rule mail.run_keeps)

text \<open>C34: three soft bounces block an address for good, however many deliveries and months lie between them: the
  counter is never set back.\<close>

theorem soft_bounces_need_not_be_consecutive:
  assumes "3 \<le> count_list (all_reports evs (message_ids w)) (SoftBounce e)"
  shows "\<exists>reason. standing e (receive_all (calm_events evs) w) = Blocked reason"
proof (cases "standing e (receive_all (calm_events evs) w)")
  case (Strikes m)
  then obtain n where n: "standing e w = Strikes n"
    unfolding receive_all_standing by (cases "standing e w") auto
  then show ?thesis
    using fold_strike_soft [of e "all_reports evs (message_ids w)" n m] Strikes assms
    unfolding receive_all_standing by auto
qed simp


subsection \<open>Who may report\<close>

text \<open>C29: the route trusts every message that Amazon signed: the topic it came from is compared with nothing, and
  the addresses in it need not be those the message was sent to. Whoever can publish to any topic and knows the
  id of one message thus puts any address on the list that stops all mail of all accounts to it.\<close>

theorem any_topic_suppresses_any_address:
  assumes "sns_Type msg = Some ''Notification''" and "sns_SigningCertURL msg = Some url" and "CERT_URL_PATTERN url"
    and "sns_SignatureVersion msg = Some ''2''" and "fetch url = Some pem" and "ds_certs st = []"
    and "rsa ''RSA-SHA256'' pem (buildStringToSign msg) (sns_Signature msg) = Some True"
    and "parse (sns_Message msg) = Some ev"
    and "truthy (se_messageId ev)" and "se_messageId ev \<in> sm_sesMessageId ` set (ml_messages (ds_mail st))"
    and "event_type ev = Some ''Bounce''" and "se_bounceType ev = Some ''Permanent''"
    and "Some e \<in> set (se_bounced ev)" and "e \<noteq> []"
  shows "\<exists>reason. standing e (ds_mail (snd (sendEventsRoute rsa fetch parse (\<lambda>_. True) now (Some msg) st))) = Blocked reason"
proof -
  have "fst (verifySnsMessage rsa fetch msg (ds_certs st))"
    using assms(2-7) by (simp add: verifySnsMessage_def fetchCert_def truthy_def or_else_def)
  then obtain certs where v: "verifySnsMessage rsa fetch msg (ds_certs st) = (True, certs)" by (metis prod.collapse)
  have "HardBounce e \<in> set (ses_reports ev (message_ids (ds_mail st)))"
    using assms(9-14) by (force simp: ses_reports_def message_ids_def present_def truthy_def)
  then have "\<exists>reason. fold (strike e) (ses_reports ev (message_ids (ds_mail st))) s = Blocked reason" for s
    by (rule fold_hard_bounce)
  then show ?thesis using assms(1,8) v
    by (simp add: sendEventsRoute_def case_prod_unfold ses.step)
qed

text \<open>SMTP2GO's route does nothing without the token of the configuration.\<close>

lemma smtp2go_token:
  "smtp2goEventsRoute secret path_token up now ev w =
     (if truthy secret \<and> secret = Some path_token then receive_smtp2go up now ev w else (401, w))"
  by (auto simp: smtp2goEventsRoute_def)

lemma sendEventsRoute_certs:
  "trusted_certs fetch (ds_certs st) \<Longrightarrow>
   trusted_certs fetch (ds_certs (snd (sendEventsRoute rsa fetch parse up now req st)))"
  using verifySnsMessage_trusted [of fetch "ds_certs st" rsa]
  by (auto simp: sendEventsRoute_def Let_def case_prod_unfold split: option.split)

subsection \<open>Witnesses\<close>

definition sample_mail :: mail_world where
  "sample_mail = \<lparr>ml_messages = [\<lparr>sm_id = ''m1'', sm_apiKeyId = ''k1'', sm_sesMessageId = Some ''s1'',
       sm_smtp2goMessageId = Some ''g1'', sm_status = ''sent'', sm_createdAt = 0\<rparr>],
     ml_events = [], ml_suppressed = (\<lambda>_. None), ml_soft = (\<lambda>_. None), ml_verdicts = (\<lambda>_. None), ml_monitors = [],
     ml_rechecks = [], ml_audit = [], ml_alerts = [], ml_keys = (\<lambda>_. None), ml_users = (\<lambda>_. None), ml_notices = []\<rparr>"

definition sample_ses :: "string \<Rightarrow> string \<Rightarrow> ses_event" where
  "sample_ses t bt = \<lparr>se_messageId = Some ''s1'', se_eventType = Some t, se_notificationType = None,
     se_bounceType = Some bt, se_bounced = [Some ''a@b.de''], se_complained = [], se_recipients = [''a@b.de'']\<rparr>"

lemma sample_ses_simps [simp]:
  "se_messageId (sample_ses t bt) = Some ''s1''" "event_type (sample_ses t bt) = Some t"
  "se_bounceType (sample_ses t bt) = Some bt" "se_bounced (sample_ses t bt) = [Some ''a@b.de'']"
  by (simp_all add: sample_ses_def event_type_def)

definition bounces_and_deliveries :: "(int \<times> delivery_event) list" where
  "bounces_and_deliveries = concat (map (\<lambda>t. [(t, Ses (sample_ses ''Bounce'' ''Transient'')),
     (t + 1, Ses (sample_ses ''Delivery'' []))]) [0, 1000, 2000])"

theorem soft_bounces_need_not_be_consecutive_witness:
  "\<exists>reason. standing ''a@b.de'' (receive_all (calm_events bounces_and_deliveries) sample_mail) = Blocked reason"
proof (rule soft_bounces_need_not_be_consecutive)
  show "3 \<le> count_list (all_reports bounces_and_deliveries (message_ids sample_mail)) (SoftBounce ''a@b.de'')"
    by (simp add: all_reports_def bounces_and_deliveries_def message_ids_def sample_mail_def ses_reports_def truthy_def present_def)
qed

theorem suppression_permanent_witness:
  "ml_suppressed (receive_all (calm_events bounces_and_deliveries)
     (sample_mail\<lparr>ml_suppressed := [''a@b.de'' \<mapsto> (''complaint'', ''k2'')]\<rparr>)) ''a@b.de'' = Some (''complaint'', ''k2'')"
  by (rule suppression_permanent) simp

definition loud_mail :: mail_world where
  "loud_mail = sample_mail\<lparr>ml_messages := map (\<lambda>n. \<lparr>sm_id = ''m'' @ show_nat n, sm_apiKeyId = ''k1'',
       sm_sesMessageId = Some (''s'' @ show_nat n), sm_smtp2goMessageId = None, sm_status = ''complained'',
       sm_createdAt = 0\<rparr>) [0..<50]\<rparr>"


definition forged :: sns_message where
  "forged = \<lparr>sns_Type = Some ''Notification'', sns_MessageId = Some ''1'', sns_TopicArn = Some ''arn:aws:sns:eu-west-1:666:mine'',
     sns_Subject = None, sns_Message = Some ''bounce'', sns_Timestamp = Some ''now'', sns_SignatureVersion = Some ''2'',
     sns_Signature = Some ''sig'',
     sns_SigningCertURL = Some ''https://sns.eu-west-1.amazonaws.com/SimpleNotificationService-0a.pem'',
     sns_SubscribeURL = None, sns_Token = None\<rparr>"

theorem any_topic_suppresses_any_address_witness:
  "\<exists>reason. standing ''a@b.de'' (ds_mail (snd (sendEventsRoute (\<lambda>alg pem data sig. Some (sig = Some ''sig''))
     (\<lambda>url. Some ''pem'') (\<lambda>m. if m = Some ''bounce'' then Some (sample_ses ''Bounce'' ''Permanent'') else None) (\<lambda>_. True) 0
     (Some forged) \<lparr>ds_certs = [], ds_visited = [], ds_mail = sample_mail\<rparr>))) = Blocked reason"
proof (rule any_topic_suppresses_any_address [where ev = "sample_ses ''Bounce'' ''Permanent''" and pem = "''pem''"])
  show "CERT_URL_PATTERN ''https://sns.eu-west-1.amazonaws.com/SimpleNotificationService-0a.pem''" by code_simp
qed (simp_all add: forged_def sample_mail_def truthy_def)

end
