(* ===== verification/Monitor.thy ===== *)
theory Monitor
  imports BulkJob Bounce
begin

text \<open>
  \<^verbatim>\<open>src/workers/monitorWorker.ts\<close>: the tick over the due monitors, the recheck of a single one, the
  check of a monitor under its lock, and the hourly reset of the meters. The state holds the tables and the
  locks; which operations on them fail is an argument, for each monitor. The verdict of the engine is an
  argument too (an outcome of \<open>verifyEmail\<close>). One check happens at one instant; the
  checks of a chunk, which the code runs at once, concern different monitors and are taken one after the other.
  The random part of a date is computed exactly instead of in doubles.
\<close>

subsection \<open>State\<close>

record monitor_check =
  mc_monitorId :: string
  mc_verificationId :: string
  mc_statusChanged :: bool
  mc_previousStatus :: "string option"
  mc_newStatus :: string
  mc_source :: string
  mc_checkedAt :: int
  mc_webhookSent :: bool

record status_notice =
  sc_apiKeyId :: string
  sc_eventId :: string
  sc_monitorId :: string
  sc_previousStatus :: "string option"
  sc_newStatus :: string

record monitor_world =
  mw_monitors :: "monitor_row list"
  mw_checks :: "monitor_check list"
  mw_locks :: "string \<Rightarrow> (string \<times> int) option"
  mw_keys :: key_table
  mw_verified :: "string list"
  mw_notices :: "status_notice list"

datatype monitor_point = TakeLock | ReadKey | SaveSkip | InsertCheck | SaveCheck | MarkSent | ReadFailures | SaveFailure
  | ReadLock | DropLock | FindRow

record monitor_env =
  mv_now :: int
  mv_up :: "string \<Rightarrow> monitor_point \<Rightarrow> bool"
  mv_random :: "string \<Rightarrow> rat"
  mv_verify :: "monitor_row \<Rightarrow> engine_end"
  mv_meter_up :: "string \<Rightarrow> bool"
  mv_process :: string
  mv_smtp_timeout :: int

datatype monitor_end = Finished | Rejected | Stuck

definition BATCH_SIZE :: nat where "BATCH_SIZE = 50"
definition MONITOR_CONCURRENCY :: nat where "MONITOR_CONCURRENCY = 5"
definition MAX_CONSECUTIVE_FAILURES :: nat where "MAX_CONSECUTIVE_FAILURES = 5"
definition JITTER_FACTOR :: rat where "JITTER_FACTOR = 1 / 10"
definition HOUR_IN_MS :: int where "HOUR_IN_MS = 3600 * 1000"

definition LOCK_TTL_MS :: "int \<Rightarrow> int" where
  "LOCK_TTL_MS smtp_timeout = (smtp_timeout + 8000) * 2"

text \<open>The date is after 1970, so that the conversion to a whole number rounds down.\<close>

definition calcNextCheckAt :: "rat \<Rightarrow> int \<Rightarrow> int \<Rightarrow> int" where
  "calcNextCheckAt random now intervalHours =
     (let baseMs = intervalHours * HOUR_IN_MS;
          jitterMs = of_int baseMs * JITTER_FACTOR;
          offsetMs = (random * 2 - 1) * jitterMs
      in \<lfloor>of_int now + of_int baseMs + offsetMs\<rfloor>)"

definition save_monitor :: "string \<Rightarrow> (monitor_row \<Rightarrow> monitor_row) \<Rightarrow> monitor_world \<Rightarrow> monitor_world" where
  "save_monitor i f w = w\<lparr>mw_monitors := set_monitor i f (mw_monitors w)\<rparr>"

definition find_monitor :: "string \<Rightarrow> monitor_world \<Rightarrow> monitor_row option" where
  "find_monitor i w = find (\<lambda>m. mo_id m = i) (mw_monitors w)"

subsection \<open>One check\<close>

datatype check_end = CheckDone | CheckThrew string | CheckHung

definition dispatchStatusChangeWebhooks ::
  "monitor_row \<Rightarrow> string \<Rightarrow> int \<Rightarrow> monitor_world \<Rightarrow> monitor_world" where
  "dispatchStatusChangeWebhooks m newStatus checkedAt w = w\<lparr>mw_notices := mw_notices w @
     [\<lparr>sc_apiKeyId = mo_apiKeyId m,
       sc_eventId = buildEventId ''email.status_changed'' (mo_id m @ '':'' @ iso_time checkedAt),
       sc_monitorId = mo_id m, sc_previousStatus = mo_lastStatus m, sc_newStatus = newStatus\<rparr>]\<rparr>"

definition mark_sent :: "string \<Rightarrow> int \<Rightarrow> monitor_world \<Rightarrow> monitor_world" where
  "mark_sent i checkedAt w = w\<lparr>mw_checks := map (\<lambda>c. if mc_monitorId c = i \<and> mc_checkedAt c \<ge> checkedAt
     then c\<lparr>mc_webhookSent := True\<rparr> else c) (mw_checks w)\<rparr>"

definition quota_exhausted :: "api_key \<Rightarrow> bool" where
  "quota_exhausted k \<longleftrightarrow> k_currentMonthUsage k \<ge> getPlanLimit (k_plan k) (Some (k_monthlyLimit k))"

text \<open>What follows a verdict: the row of the check, the row of the monitor, the notification. The writes throw
  when the monitor has been deleted.\<close>

definition record_check ::
  "monitor_env \<Rightarrow> string \<Rightarrow> monitor_row \<Rightarrow> verification_result \<Rightarrow> monitor_world \<Rightarrow> check_end \<times> monitor_world" where
  "record_check env source m v w =
     (let up = mv_up env (mo_id m);
          exists = (find_monitor (mo_id m) w \<noteq> None);
          newStatus = status_text (res_status v);
          changed = (Some newStatus \<noteq> mo_lastStatus m);
          checkedAt = mv_now env;
          nextCheckAt = calcNextCheckAt (mv_random env (mo_id m)) (mv_now env) (mo_intervalHours m)
      in if \<not> up InsertCheck \<or> \<not> exists then (CheckThrew ''monitorCheck.create'', w)
         else
           let w1 = w\<lparr>mw_checks := mw_checks w @ [\<lparr>mc_monitorId = mo_id m, mc_verificationId = res_id v,
             mc_statusChanged = changed, mc_previousStatus = mo_lastStatus m, mc_newStatus = newStatus,
             mc_source = source, mc_checkedAt = checkedAt, mc_webhookSent = False\<rparr>]\<rparr>
           in if \<not> up SaveCheck then (CheckThrew ''monitor.update'', w1)
              else
                let w2 = save_monitor (mo_id m) (\<lambda>r. r\<lparr>mo_lastCheckedAt := Some checkedAt, mo_nextCheckAt := nextCheckAt,
                  mo_lastStatus := Some newStatus, mo_consecutiveFailures := 0, mo_failureReason := None\<rparr>) w1
                in if \<not> (changed \<and> mo_notifyOnAnyChange m) then (CheckDone, w2)
                   else
                     let w3 = dispatchStatusChangeWebhooks m newStatus checkedAt w2
                     in if \<not> up MarkSent then (CheckThrew ''monitorCheck.updateMany'', w3)
                        else (CheckDone, mark_sent (mo_id m) checkedAt w3))"

definition check_monitor :: "monitor_env \<Rightarrow> string \<Rightarrow> monitor_row \<Rightarrow> monitor_world \<Rightarrow> check_end \<times> monitor_world" where
  "check_monitor env source m w =
     (let up = mv_up env (mo_id m); key = mw_keys w (mo_apiKeyId m)
      in if \<not> up ReadKey then (CheckThrew ''apiKey.findUnique'', w)
         else if (case key of None \<Rightarrow> False | Some k \<Rightarrow> quota_exhausted k) then
           (if \<not> up SaveSkip \<or> find_monitor (mo_id m) w = None then (CheckThrew ''monitor.update'', w)
            else (CheckDone, save_monitor (mo_id m) (\<lambda>r. r\<lparr>mo_nextCheckAt :=
              calcNextCheckAt (mv_random env (mo_id m)) (mv_now env) (mo_intervalHours m)\<rparr>) w))
         else
           let w1 = w\<lparr>mw_verified := mw_verified w @ [mo_email m]\<rparr>
           in case mv_verify env m of
                Never \<Rightarrow> (CheckHung, w1)
              | EngineThrew msg \<Rightarrow> (CheckThrew msg, w1)
              | Verdict v \<Rightarrow> record_check env source m v
                  (w1\<lparr>mw_keys := incrementUsageBy (mv_meter_up env (mo_id m)) (mo_apiKeyId m) 1 (mw_keys w1)\<rparr>))"

text \<open>The \<open>catch\<close> block; \<open>False\<close> when it throws itself.\<close>

definition failed_monitor :: "int \<Rightarrow> int \<Rightarrow> nat \<Rightarrow> string \<Rightarrow> monitor_row \<Rightarrow> monitor_row" where
  "failed_monitor now intervalHours newFailures msg r =
     (let backoffHours = min (intervalHours * 2 ^ newFailures) 24;
          r1 = r\<lparr>mo_nextCheckAt := now + backoffHours * HOUR_IN_MS, mo_consecutiveFailures := newFailures,
            mo_failureReason := Some (take 500 msg)\<rparr>
      in if newFailures \<ge> MAX_CONSECUTIVE_FAILURES then r1\<lparr>mo_pausedAt := Some now, mo_isActive := False\<rparr> else r1)"

definition check_failed :: "monitor_env \<Rightarrow> string \<Rightarrow> monitor_row \<Rightarrow> monitor_world \<Rightarrow> bool \<times> monitor_world" where
  "check_failed env msg m w =
     (if \<not> mv_up env (mo_id m) ReadFailures then (False, w)
      else
        let newFailures = (case find_monitor (mo_id m) w of None \<Rightarrow> 0 | Some fresh \<Rightarrow> mo_consecutiveFailures fresh) + 1
        in if \<not> mv_up env (mo_id m) SaveFailure \<or> find_monitor (mo_id m) w = None then (False, w)
           else (True, save_monitor (mo_id m) (failed_monitor (mv_now env) (mo_intervalHours m) newFailures msg) w))"

text \<open>The lock: \<open>SET NX PX\<close>, and a release only by its owner.\<close>

definition lock_value :: "monitor_env \<Rightarrow> string" where
  "lock_value env = ''worker:'' @ mv_process env @ '':'' @ show_int (mv_now env)"

definition locked :: "string \<Rightarrow> int \<Rightarrow> monitor_world \<Rightarrow> bool" where
  "locked i now w = (case mw_locks w i of None \<Rightarrow> False | Some (v, expires) \<Rightarrow> now < expires)"

definition take_lock :: "monitor_env \<Rightarrow> string \<Rightarrow> monitor_world \<Rightarrow> monitor_world" where
  "take_lock env i w = w\<lparr>mw_locks := (mw_locks w)(i \<mapsto> (lock_value env, mv_now env + LOCK_TTL_MS (mv_smtp_timeout env)))\<rparr>"

definition release_lock :: "monitor_env \<Rightarrow> string \<Rightarrow> bool \<Rightarrow> monitor_world \<Rightarrow> monitor_end \<times> monitor_world" where
  "release_lock env i ok w =
     (if \<not> mv_up env i ReadLock then (Rejected, w)
      else if locked i (mv_now env) w \<and> map_option fst (mw_locks w i) = Some (lock_value env) then
        (if \<not> mv_up env i DropLock then (Rejected, w)
         else (if ok then Finished else Rejected, w\<lparr>mw_locks := (mw_locks w)(i := None)\<rparr>))
      else (if ok then Finished else Rejected, w))"

definition processMonitor :: "monitor_env \<Rightarrow> string \<Rightarrow> monitor_row \<Rightarrow> monitor_world \<Rightarrow> monitor_end \<times> monitor_world" where
  "processMonitor env source m w =
     (if \<not> mv_up env (mo_id m) TakeLock then (Rejected, w)
      else if locked (mo_id m) (mv_now env) w then (Finished, w)
      else case check_monitor env source m (take_lock env (mo_id m) w) of
        (CheckHung, w1) \<Rightarrow> (Stuck, w1)
      | (CheckThrew msg, w1) \<Rightarrow> (case check_failed env msg m w1 of (ok, w2) \<Rightarrow> release_lock env (mo_id m) ok w2)
      | (CheckDone, w1) \<Rightarrow> release_lock env (mo_id m) True w1)"

subsection \<open>The jobs\<close>

definition due_monitors :: "int \<Rightarrow> monitor_world \<Rightarrow> monitor_row list" where
  "due_monitors now w = take BATCH_SIZE (sort_key mo_nextCheckAt
     (filter (\<lambda>m. mo_isActive m \<and> mo_pausedAt m = None \<and> mo_nextCheckAt m \<le> now) (mw_monitors w)))"

text \<open>\<open>Promise.allSettled\<close> over a chunk: it ends when every check of it has.\<close>

definition monitor_chunk :: "monitor_env \<Rightarrow> monitor_row list \<Rightarrow> monitor_world \<Rightarrow> bool \<times> monitor_world" where
  "monitor_chunk env chunk w = fold (\<lambda>m (ended, v). case processMonitor env ''scheduled'' m v of
     (e, v') \<Rightarrow> (ended \<and> e \<noteq> Stuck, v')) chunk (True, w)"

function monitor_chunks :: "monitor_env \<Rightarrow> monitor_row list \<Rightarrow> monitor_world \<Rightarrow> monitor_end \<times> monitor_world" where
  "monitor_chunks env due w =
     (if due = [] then (Finished, w)
      else case monitor_chunk env (take MONITOR_CONCURRENCY due) w of
        (ended, w1) \<Rightarrow> if ended then monitor_chunks env (drop MONITOR_CONCURRENCY due) w1 else (Stuck, w1))"
  by pat_completeness auto

termination
  by (relation "measure (\<lambda>(env, due, w). length due)") (auto simp: MONITOR_CONCURRENCY_def)

definition runMonitorTick :: "bool \<Rightarrow> monitor_env \<Rightarrow> monitor_world \<Rightarrow> monitor_end \<times> monitor_world" where
  "runMonitorTick list_up env w = (if \<not> list_up then (Rejected, w) else monitor_chunks env (due_monitors (mv_now env) w) w)"

definition runRecheckSingle :: "monitor_env \<Rightarrow> string \<Rightarrow> string \<Rightarrow> monitor_world \<Rightarrow> monitor_end \<times> monitor_world" where
  "runRecheckSingle env i source w =
     (if \<not> mv_up env i FindRow then (Rejected, w)
      else case find_monitor i w of
        None \<Rightarrow> (Finished, w)
      | Some m \<Rightarrow> if \<not> mo_isActive m then (Finished, w) else processMonitor env source m w)"

subsection \<open>The hourly reset\<close>

definition resetMonthlyUsage :: "bool \<Rightarrow> int \<Rightarrow> key_table \<Rightarrow> key_table" where
  "resetMonthlyUsage up now tab =
     (if \<not> up then tab
      else (\<lambda>i. map_option (\<lambda>k. if k_isActive k \<and> (case k_usageResetAt k of None \<Rightarrow> False | Some t \<Rightarrow> t \<le> now)
        then k\<lparr>k_currentMonthUsage := 0, k_usageResetAt := Some (next_month now)\<rparr> else k) (tab i)))"

subsection \<open>The shape of the tables\<close>

definition status_names :: "string list" where
  "status_names = [''valid'', ''invalid'', ''risky'', ''unknown'']"

text \<open>The intervals the routes accept.\<close>

definition VALID_INTERVALS :: "int list" where "VALID_INTERVALS = [1, 6, 12, 24, 48, 72, 168]"

definition monitor_ok :: "monitor_row \<Rightarrow> bool" where
  "monitor_ok m \<longleftrightarrow> (case mo_lastStatus m of None \<Rightarrow> True | Some s \<Rightarrow> s \<in> set status_names) \<and>
     (mo_isActive m \<longrightarrow> mo_pausedAt m = None \<and> mo_consecutiveFailures m < MAX_CONSECUTIVE_FAILURES) \<and>
     mo_intervalHours m \<in> set VALID_INTERVALS \<and>
     (case mo_failureReason m of None \<Rightarrow> True | Some s \<Rightarrow> length s \<le> 500)"

definition check_ok :: "monitor_check \<Rightarrow> bool" where
  "check_ok c \<longleftrightarrow> mc_newStatus c \<in> set status_names \<and>
     (case mc_previousStatus c of None \<Rightarrow> True | Some s \<Rightarrow> s \<in> set status_names) \<and>
     (mc_statusChanged c \<longleftrightarrow> Some (mc_newStatus c) \<noteq> mc_previousStatus c)"

definition monitor_tables :: "monitor_world \<Rightarrow> bool" where
  "monitor_tables w \<longleftrightarrow> list_all monitor_ok (mw_monitors w) \<and> list_all check_ok (mw_checks w) \<and>
     distinct (map mo_id (mw_monitors w)) \<and> distinct (map (\<lambda>m. (mo_apiKeyId m, mo_email m)) (mw_monitors w))"

lemma status_text_name [simp]: "status_text s \<in> set status_names"
  by (cases s) (simp_all add: status_text_def status_names_def)

lemma map_set_monitor:
  assumes "\<And>r. g (f r) = g r"
  shows "map g (set_monitor i f ms) = map g ms"
  by (simp add: set_monitor_def assms)

lemma save_monitor_tables:
  assumes "monitor_tables w" and "\<And>r. monitor_ok r \<Longrightarrow> r \<in> set (mw_monitors w) \<Longrightarrow> mo_id r = i \<Longrightarrow> monitor_ok (f r)"
    and "\<And>r. mo_id (f r) = mo_id r" "\<And>r. mo_apiKeyId (f r) = mo_apiKeyId r" "\<And>r. mo_email (f r) = mo_email r"
  shows "monitor_tables (save_monitor i f w)"
proof -
  let ?ms = "mw_monitors w"
  have "map mo_id (set_monitor i f ?ms) = map mo_id ?ms"
    "map (\<lambda>m. (mo_apiKeyId m, mo_email m)) (set_monitor i f ?ms) = map (\<lambda>m. (mo_apiKeyId m, mo_email m)) ?ms"
    by (rule map_set_monitor, simp add: assms(3-5))+
  moreover have "list_all monitor_ok (set_monitor i f ?ms)"
    using assms(1,2) by (auto simp: monitor_tables_def list_all_iff set_monitor_def)
  ultimately show ?thesis using assms(1) by (simp add: monitor_tables_def save_monitor_def)
qed

lemma tables_cong:
  "mw_monitors v = mw_monitors w \<Longrightarrow> mw_checks v = mw_checks w \<Longrightarrow> monitor_tables v = monitor_tables w"
  by (simp add: monitor_tables_def)

lemma find_monitor_mem: "find_monitor i w = Some m \<Longrightarrow> m \<in> set (mw_monitors w) \<and> mo_id m = i"
  by (auto simp: find_monitor_def dest: find_SomeD)

lemma find_by_id:
  "distinct (map mo_id (mw_monitors w)) \<Longrightarrow> m \<in> set (mw_monitors w) \<Longrightarrow> find_monitor (mo_id m) w = Some m"
  by (cases "find_monitor (mo_id m) w")
    (auto simp: find_monitor_def find_None_iff_all distinct_map inj_on_def dest!: find_SomeD)

lemma find_monitor_unique:
  "monitor_tables w \<Longrightarrow> m \<in> set (mw_monitors w) \<Longrightarrow> find_monitor (mo_id m) w = Some m"
  by (rule find_by_id) (simp add: monitor_tables_def)

lemma record_check_tables:
  assumes "monitor_tables w" and "monitor_ok m"
  shows "monitor_tables (snd (record_check env source m v w))"
proof -
  let ?st = "status_text (res_status v)"
  let ?c = "\<lparr>mc_monitorId = mo_id m, mc_verificationId = res_id v, mc_statusChanged = (Some ?st \<noteq> mo_lastStatus m),
      mc_previousStatus = mo_lastStatus m, mc_newStatus = ?st, mc_source = source, mc_checkedAt = mv_now env, mc_webhookSent = False\<rparr>"
  let ?f = "\<lambda>r. r\<lparr>mo_lastCheckedAt := Some (mv_now env),
      mo_nextCheckAt := calcNextCheckAt (mv_random env (mo_id m)) (mv_now env) (mo_intervalHours m),
      mo_lastStatus := Some ?st, mo_consecutiveFailures := 0, mo_failureReason := None\<rparr>"
  define w1 where "w1 = w\<lparr>mw_checks := mw_checks w @ [?c]\<rparr>"
  have 1: "monitor_tables w1"
    using assms by (auto simp: monitor_tables_def w1_def check_ok_def monitor_ok_def split: option.splits)
  then have 2: "monitor_tables (save_monitor (mo_id m) ?f w1)"
    by (rule save_monitor_tables) (simp_all add: monitor_ok_def MAX_CONSECUTIVE_FAILURES_def)
  define w3 where "w3 = dispatchStatusChangeWebhooks m ?st (mv_now env) (save_monitor (mo_id m) ?f w1)"
  have 3: "monitor_tables w3" using 2 by (simp add: w3_def dispatchStatusChangeWebhooks_def monitor_tables_def)
  then have "monitor_tables (mark_sent (mo_id m) (mv_now env) w3)"
    by (auto simp: monitor_tables_def mark_sent_def check_ok_def list_all_iff)
  with assms(1) 1 2 3 show ?thesis
    by (auto simp: record_check_def Let_def w1_def [symmetric] w3_def [symmetric])
qed

lemma check_monitor_tables:
  assumes "monitor_tables w" and "monitor_ok m"
  shows "monitor_tables (snd (check_monitor env source m w))"
proof -
  have "monitor_tables (save_monitor (mo_id m) (\<lambda>r. r\<lparr>mo_nextCheckAt := t\<rparr>) w)" for t
    using assms(1) by (rule save_monitor_tables) (simp_all add: monitor_ok_def)
  moreover have "monitor_tables (w\<lparr>mw_verified := vs\<rparr>)" "monitor_tables (w\<lparr>mw_verified := vs, mw_keys := ks\<rparr>)" for vs ks
    using assms(1) by (simp_all add: monitor_tables_def)
  ultimately show ?thesis
    using assms record_check_tables by (auto simp: check_monitor_def Let_def split: engine_end.split)
qed

lemma failed_monitor_ok:
  assumes "monitor_ok r" and "n = mo_consecutiveFailures r + 1"
  shows "monitor_ok (failed_monitor now h n msg r)"
  using assms by (auto simp: failed_monitor_def monitor_ok_def Let_def)

lemma check_failed_tables:
  assumes "monitor_tables w"
  shows "monitor_tables (snd (check_failed env msg m w))"
proof (cases "find_monitor (mo_id m) w")
  case (Some fresh)
  then have f: "fresh \<in> set (mw_monitors w)" "mo_id fresh = mo_id m" by (auto dest: find_monitor_mem)
  have "monitor_tables (save_monitor (mo_id m)
      (failed_monitor (mv_now env) (mo_intervalHours m) (mo_consecutiveFailures fresh + 1) msg) w)"
  proof (rule save_monitor_tables [OF assms])
    fix r assume r: "monitor_ok r" "r \<in> set (mw_monitors w)" "mo_id r = mo_id m"
    have "r = fresh" using find_monitor_unique [OF assms r(2)] Some r(3) by simp
    then show "monitor_ok (failed_monitor (mv_now env) (mo_intervalHours m) (mo_consecutiveFailures fresh + 1) msg r)"
      using r(1) by (simp add: failed_monitor_ok)
  qed (simp_all add: failed_monitor_def Let_def)
  then show ?thesis using assms Some by (simp add: check_failed_def)
qed (simp add: check_failed_def assms)

lemma processMonitor_tables:
  assumes "monitor_tables w" and "monitor_ok m"
  shows "monitor_tables (snd (processMonitor env source m w))"
proof -
  let ?w = "take_lock env (mo_id m) w"
  have rel: "monitor_tables (snd (release_lock env i ok v)) = monitor_tables v" for i ok v
    by (auto simp: release_lock_def monitor_tables_def)
  obtain e w1 where c: "check_monitor env source m ?w = (e, w1)" by fastforce
  have "monitor_tables w1"
    using check_monitor_tables [of ?w m env source] assms c by (simp add: take_lock_def monitor_tables_def)
  then show ?thesis using assms(1) c check_failed_tables [of w1 env _ m]
    by (auto simp: processMonitor_def rel split: check_end.split prod.split) (metis snd_conv)
qed

declare monitor_chunks.simps [simp del]

text \<open>What every check keeps, a tick and a recheck keep.\<close>

lemma monitor_chunk_invariant:
  assumes "P w" and "\<And>m v. m \<in> set chunk \<Longrightarrow> P v \<Longrightarrow> P (snd (processMonitor env ''scheduled'' m v))"
  shows "P (snd (monitor_chunk env chunk w))"
  unfolding monitor_chunk_def
  by (rule fold_invariant [where P = "\<lambda>p. P (snd p)"]) (simp_all add: assms case_prod_unfold)

lemma monitor_chunks_invariant:
  assumes "P w" and "\<And>m v. m \<in> set due \<Longrightarrow> P v \<Longrightarrow> P (snd (processMonitor env ''scheduled'' m v))"
  shows "P (snd (monitor_chunks env due w))"
  using assms
proof (induction env due w rule: monitor_chunks.induct)
  case (1 env due w)
  obtain ended w1 where c: "monitor_chunk env (take MONITOR_CONCURRENCY due) w = (ended, w1)" by fastforce
  have w1: "P w1"
    using monitor_chunk_invariant [of P w "take MONITOR_CONCURRENCY due" env] 1(2,3) c by (auto dest: in_set_takeD)
  have "P (snd (monitor_chunks env (drop MONITOR_CONCURRENCY due) w1))" if "due \<noteq> []" ended
    using 1(1) [OF that(1) c [symmetric] that(2) w1] 1(3) by (auto dest: in_set_dropD)
  then show ?case using 1(2) c w1 by (subst monitor_chunks.simps) auto
qed

lemma runMonitorTick_invariant:
  assumes "P w" and "\<And>m v. m \<in> set (mw_monitors w) \<Longrightarrow> P v \<Longrightarrow> P (snd (processMonitor env ''scheduled'' m v))"
  shows "P (snd (runMonitorTick list_up env w))"
proof -
  have "set (due_monitors (mv_now env) w) \<subseteq> set (mw_monitors w)"
    by (auto simp: due_monitors_def dest!: in_set_takeD)
  then show ?thesis
    using monitor_chunks_invariant [of P w "due_monitors (mv_now env) w" env] assms by (auto simp: runMonitorTick_def)
qed

lemma runMonitorTick_tables:
  assumes "monitor_tables w" shows "monitor_tables (snd (runMonitorTick list_up env w))"
proof (rule runMonitorTick_invariant [where P = monitor_tables, OF assms])
  fix m v assume "m \<in> set (mw_monitors w)" "monitor_tables v"
  moreover from this(1) have "monitor_ok m" using assms by (simp add: monitor_tables_def list_all_iff)
  ultimately show "monitor_tables (snd (processMonitor env ''scheduled'' m v))" by (simp add: processMonitor_tables)
qed

lemma runRecheckSingle_tables:
  assumes "monitor_tables w" shows "monitor_tables (snd (runRecheckSingle env i source w))"
proof (cases "find_monitor i w")
  case (Some m)
  then have "monitor_ok m" using assms by (auto simp: monitor_tables_def list_all_iff dest!: find_monitor_mem)
  then show ?thesis using assms Some by (simp add: runRecheckSingle_def processMonitor_tables)
qed (simp add: runRecheckSingle_def assms)

subsection \<open>A check that never ends\<close>

lemma processMonitor_verified:
  "\<exists>xs. mw_verified (snd (processMonitor env source m w)) = mw_verified w @ xs \<and> length xs \<le> 1"
proof -
  have rec: "mw_verified (snd (record_check env source m v u)) = mw_verified u" for v u
    by (simp add: record_check_def Let_def save_monitor_def dispatchStatusChangeWebhooks_def mark_sent_def)
  have chk: "\<exists>xs. mw_verified (snd (check_monitor env source m u)) = mw_verified u @ xs \<and> length xs \<le> 1" for u
    by (auto simp: check_monitor_def Let_def rec save_monitor_def split: engine_end.split)
  have fail: "mw_verified (snd (check_failed env msg m u)) = mw_verified u" for msg u
    by (simp add: check_failed_def save_monitor_def Let_def split: option.split)
  have rel: "mw_verified (snd (release_lock env i ok u)) = mw_verified u" for i ok u
    by (auto simp: release_lock_def)
  obtain e w1 where c: "check_monitor env source m (take_lock env (mo_id m) w) = (e, w1)" by fastforce
  then have "\<exists>xs. mw_verified w1 = mw_verified w @ xs \<and> length xs \<le> 1"
    using chk [of "take_lock env (mo_id m) w"] by (simp add: take_lock_def)
  then show ?thesis using c fail
    by (auto simp: processMonitor_def rel split: check_end.split prod.split) (metis snd_conv)
qed

lemma chunk_fold_stuck:
  "\<not> fst p \<Longrightarrow> \<not> fst (fold (\<lambda>m (ended, v). case processMonitor env ''scheduled'' m v of (e, v') \<Rightarrow> (ended \<and> e \<noteq> Stuck, v')) ms p)"
  by (induction ms arbitrary: p) (auto simp: case_prod_unfold)

lemma monitor_chunk_verified:
  "\<exists>xs. mw_verified (snd (monitor_chunk env chunk w)) = mw_verified w @ xs \<and> length xs \<le> length chunk"
proof -
  have "\<exists>xs. mw_verified (snd (fold (\<lambda>m (ended, v). case processMonitor env ''scheduled'' m v of
      (e, v') \<Rightarrow> (ended \<and> e \<noteq> Stuck, v')) chunk p)) = mw_verified (snd p) @ xs \<and> length xs \<le> length chunk" for p
  proof (induction chunk arbitrary: p)
    case (Cons m chunk)
    obtain xs where xs: "mw_verified (snd (processMonitor env ''scheduled'' m (snd p))) = mw_verified (snd p) @ xs" "length xs \<le> 1"
      using processMonitor_verified by blast
    from Cons [of "(fst p \<and> fst (processMonitor env ''scheduled'' m (snd p)) \<noteq> Stuck, snd (processMonitor env ''scheduled'' m (snd p)))"]
    obtain ys where "mw_verified (snd (fold (\<lambda>m (ended, v). case processMonitor env ''scheduled'' m v of
        (e, v') \<Rightarrow> (ended \<and> e \<noteq> Stuck, v')) (m # chunk) p)) = (mw_verified (snd p) @ xs) @ ys" "length ys \<le> length chunk"
      by (auto simp: case_prod_unfold xs(1))
    then show ?case using xs(2) by (intro exI [of _ "xs @ ys"]) simp
  qed simp
  from this [of "(True, w)"] show ?thesis by (simp add: monitor_chunk_def)
qed

text \<open>The queue: one job at a time, and one that does not end keeps the worker.\<close>

datatype monitor_job = MonitorTick bool monitor_env | RecheckSingle monitor_env string string

fun processJob :: "monitor_job \<Rightarrow> monitor_world \<Rightarrow> monitor_end \<times> monitor_world" where
  "processJob (RecheckSingle env i source) w = runRecheckSingle env i source w"
| "processJob (MonitorTick list_up env) w = runMonitorTick list_up env w"

fun monitor_worker :: "monitor_job list \<Rightarrow> monitor_world \<Rightarrow> monitor_end \<times> monitor_world" where
  "monitor_worker [] w = (Finished, w)"
| "monitor_worker (j # js) w = (case processJob j w of (e, w1) \<Rightarrow> if e = Stuck then (Stuck, w1) else monitor_worker js w1)"

text \<open>C32: when the engine never answers for the first due monitor, the tick makes at most the five checks of its first
  chunk and then neither it nor any later job ever runs again: all monitors of all accounts stand still.\<close>

theorem hung_check_stops_all_monitoring:
  assumes "due_monitors (mv_now env) w = m # ms" and "mv_verify env m = Never" and "\<And>p. mv_up env (mo_id m) p"
    and "\<not> locked (mo_id m) (mv_now env) w" and "\<And>k. mw_keys w (mo_apiKeyId m) = Some k \<Longrightarrow> \<not> quota_exhausted k"
  shows "\<exists>w1 xs. monitor_worker (MonitorTick True env # js) w = (Stuck, w1) \<and>
    mw_verified w1 = mw_verified w @ xs \<and> length xs \<le> MONITOR_CONCURRENCY"
proof -
  have stuck: "fst (processMonitor env ''scheduled'' m w) = Stuck"
    using assms(2-5) by (auto simp: processMonitor_def check_monitor_def take_lock_def split: option.split)
  let ?chunk = "m # take 4 ms"
  have chunk: "take MONITOR_CONCURRENCY (m # ms) = ?chunk" by (simp add: MONITOR_CONCURRENCY_def)
  obtain v where "processMonitor env ''scheduled'' m w = (Stuck, v)" using stuck by (metis prod.collapse)
  then have "\<not> fst (monitor_chunk env ?chunk w)"
    using chunk_fold_stuck [of "(False, v)"] by (simp add: monitor_chunk_def)
  then obtain w1 where c: "monitor_chunk env ?chunk w = (False, w1)" by (metis (full_types) prod.collapse)
  then obtain xs where xs: "mw_verified w1 = mw_verified w @ xs" "length xs \<le> length ?chunk"
    using monitor_chunk_verified [of env ?chunk w] by auto
  have "processJob (MonitorTick True env) w = (Stuck, w1)"
    using assms(1) c chunk by (simp add: runMonitorTick_def monitor_chunks.simps [of env "m # ms"])
  then show ?thesis using xs by (auto simp: MONITOR_CONCURRENCY_def)
qed

subsection \<open>What the engine cannot do\<close>

definition not_worse :: "monitor_row \<Rightarrow> monitor_row \<Rightarrow> bool" where
  "not_worse r r' \<longleftrightarrow> mo_id r' = mo_id r \<and> mo_isActive r' = mo_isActive r \<and> mo_pausedAt r' = mo_pausedAt r \<and>
     mo_consecutiveFailures r' \<le> mo_consecutiveFailures r"

lemma not_worse_save:
  assumes "list_all2 not_worse rs (mw_monitors w)" and "\<And>r. not_worse r (f r)"
  shows "list_all2 not_worse rs (mw_monitors (save_monitor i f w))"
  using assms(1) unfolding save_monitor_def set_monitor_def
  by (auto simp: list_all2_map2 elim!: list_all2_mono) (use assms(2) in \<open>force simp: not_worse_def\<close>)

lemma not_worse_find:
  assumes "list_all2 not_worse rs (mw_monitors w)" and "m \<in> set rs"
  shows "find_monitor (mo_id m) w \<noteq> None"
proof -
  obtain r where "r \<in> set (mw_monitors w)" "not_worse m r"
    using assms by (auto simp: list_all2_conv_all_nth in_set_conv_nth) blast
  then show ?thesis by (auto simp: find_monitor_def find_None_iff_all not_worse_def)
qed

lemma processMonitor_not_worse:
  assumes "\<And>p. mv_up env (mo_id m) p" and "\<And>msg. mv_verify env m \<noteq> EngineThrew msg"
    and "list_all2 not_worse rs (mw_monitors w)" and "m \<in> set rs"
  shows "list_all2 not_worse rs (mw_monitors (snd (processMonitor env source m w)))"
proof -
  let ?w = "take_lock env (mo_id m) w"
  have found: "find_monitor (mo_id m) v \<noteq> None" if "mw_monitors v = mw_monitors w" for v
    using not_worse_find [OF _ assms(4), of v] assms(3) that by simp
  have rel: "mw_monitors (snd (release_lock env i ok v)) = mw_monitors v" for i ok v
    by (auto simp: release_lock_def)
  have rec: "fst (record_check env source m u v) = CheckDone \<and>
      list_all2 not_worse rs (mw_monitors (snd (record_check env source m u v)))" if "mw_monitors v = mw_monitors w" for u v
    using assms(1) found [OF that] that assms(3)
    by (auto simp: record_check_def Let_def dispatchStatusChangeWebhooks_def mark_sent_def intro!: not_worse_save)
      (simp_all add: not_worse_def)
  have "fst (check_monitor env source m ?w) \<in> {CheckDone, CheckHung} \<and>
      list_all2 not_worse rs (mw_monitors (snd (check_monitor env source m ?w)))"
    using assms found [of ?w] rec
    by (auto simp: check_monitor_def Let_def take_lock_def not_worse_def intro!: not_worse_save split: engine_end.split)
  then obtain e v where "check_monitor env source m ?w = (e, v)" "e \<in> {CheckDone, CheckHung}"
    "list_all2 not_worse rs (mw_monitors v)" by (metis prod.collapse)
  then show ?thesis using assms(1,3) by (auto simp: processMonitor_def rel)
qed

text \<open>C33: no failure of the verification engine ever counts against a monitor: the engine turns each of them into a
  verdict, so that with a database that works a tick never raises a failure counter and never pauses a monitor,
  whatever the network does.\<close>

theorem engine_failures_never_pause:
  assumes "\<And>i p. mv_up env i p"
    and "\<And>m. \<exists>eenv cfg t finish inp ew. mv_verify env m = engine_end_of (verifyEmail eenv cfg t finish inp ew)"
  shows "list_all2 not_worse (mw_monitors w) (mw_monitors (snd (runMonitorTick True env w)))"
proof (rule runMonitorTick_invariant [where P = "\<lambda>v. list_all2 not_worse (mw_monitors w) (mw_monitors v)"])
  show "list_all2 not_worse (mw_monitors w) (mw_monitors w)"
    by (simp add: list_all2_same not_worse_def)
  fix m and v :: monitor_world assume "m \<in> set (mw_monitors w)" "list_all2 not_worse (mw_monitors w) (mw_monitors v)"
  moreover have "mv_verify env m \<noteq> EngineThrew msg" for msg
  proof -
    have "engine_end_of oc \<noteq> EngineThrew msg" if "\<And>e. oc \<noteq> Throw e" for oc
      using that by (cases oc) (auto simp: engine_end_of_def)
    then show ?thesis using assms(2) [of m] verifyEmail_no_throw by metis
  qed
  ultimately show "list_all2 not_worse (mw_monitors w) (mw_monitors (snd (processMonitor env ''scheduled'' m v)))"
    using assms(1) by (simp add: processMonitor_not_worse)
qed

subsection \<open>Quota and reset\<close>

text \<open>A monitor counts the plan's limit without the credits the account has bought: at a usage where requests
  still pass, its checks are skipped.\<close>

theorem monitors_ignore_credits:
  assumes "mw_keys w (mo_apiKeyId m) = Some k" and "k_currentMonthUsage k \<ge> getPlanLimit (k_plan k) (Some (k_monthlyLimit k))"
    and "k_currentMonthUsage k < getPlanLimit (k_plan k) (Some (k_monthlyLimit k)) + k_extraVerificationCredits k"
    and "\<And>p. mv_up env (mo_id m) p"
  shows "m_outcome (quota_reply now k) = Pass \<and> mw_verified (snd (processMonitor env source m w)) = mw_verified w"
proof -
  have "mw_verified (snd (release_lock env i ok u)) = mw_verified u" for i ok u
    by (auto simp: release_lock_def)
  moreover have "mw_verified (snd (check_failed env msg m u)) = mw_verified u" for msg u
    by (simp add: check_failed_def save_monitor_def Let_def split: option.split)
  ultimately show ?thesis using assms
    by (auto simp: quota_reply_def verification_limit_def Let_def processMonitor_def check_monitor_def quota_exhausted_def
        take_lock_def save_monitor_def split: prod.split check_end.split dest!: arg_cong [where f = snd])
qed


text \<open>A date lies within ten percent of the interval.\<close>

lemma next_check_within:
  assumes "0 \<le> random" "random < 1" and "0 < h"
  shows "now + h * 3240000 \<le> calcNextCheckAt random now h" and "calcNextCheckAt random now h < now + h * 3960000"
proof -
  have "of_int now + of_int (h * HOUR_IN_MS) + (random * 2 - 1) * (of_int (h * HOUR_IN_MS) * JITTER_FACTOR) =
      of_int (now + h * 3240000) + random * of_int (h * 720000)"
    by (simp add: HOUR_IN_MS_def JITTER_FACTOR_def field_simps)
  then have "calcNextCheckAt random now h = \<lfloor>of_int (now + h * 3240000) + random * of_int (h * 720000)\<rfloor>"
    by (simp only: calcNextCheckAt_def Let_def)
  moreover have "0 \<le> random * of_int (h * 720000)" "random * of_int (h * 720000) < of_int (h * 720000)"
    using assms by simp_all
  ultimately show "now + h * 3240000 \<le> calcNextCheckAt random now h" "calcNextCheckAt random now h < now + h * 3960000"
    by linarith+
qed

subsection \<open>The history of a monitor\<close>

definition history :: "string \<Rightarrow> monitor_world \<Rightarrow> monitor_check list" where
  "history i w = filter (\<lambda>c. mc_monitorId c = i) (mw_checks w)"

fun chained :: "string option \<Rightarrow> monitor_check list \<Rightarrow> bool" where
  "chained prev [] \<longleftrightarrow> True"
| "chained prev (c # cs) \<longleftrightarrow> mc_previousStatus c = prev \<and> mc_statusChanged c = (Some (mc_newStatus c) \<noteq> prev) \<and>
     chained (Some (mc_newStatus c)) cs"

definition end_status :: "monitor_check list \<Rightarrow> string option" where
  "end_status cs = (if cs = [] then None else Some (mc_newStatus (last cs)))"

definition told :: "string \<Rightarrow> monitor_world \<Rightarrow> (string option \<times> string) list" where
  "told i w = map (\<lambda>n. (sc_previousStatus n, sc_newStatus n)) (filter (\<lambda>n. sc_monitorId n = i) (mw_notices w))"

definition changes :: "monitor_check list \<Rightarrow> (string option \<times> string) list" where
  "changes cs = map (\<lambda>c. (mc_previousStatus c, mc_newStatus c)) (filter mc_statusChanged cs)"

definition exact_row :: "monitor_world \<Rightarrow> monitor_row \<Rightarrow> bool" where
  "exact_row w r \<longleftrightarrow> chained None (history (mo_id r) w) \<and> end_status (history (mo_id r) w) = mo_lastStatus r \<and>
     (mo_notifyOnAnyChange r \<longrightarrow> told (mo_id r) w = changes (history (mo_id r) w))"

text \<open>What a check leaves alone: the rows of the other monitors, their history and what was told of them.\<close>

definition untouched :: "string \<Rightarrow> monitor_world \<Rightarrow> monitor_world \<Rightarrow> bool" where
  "untouched i w w' \<longleftrightarrow> map mo_id (mw_monitors w') = map mo_id (mw_monitors w) \<and>
     (\<forall>j. j \<noteq> i \<longrightarrow> find_monitor j w' = find_monitor j w \<and> map mc_newStatus (history j w') = map mc_newStatus (history j w) \<and>
       chained None (history j w') = chained None (history j w) \<and> changes (history j w') = changes (history j w) \<and>
       told j w' = told j w)"

definition exact_tables :: "monitor_world \<Rightarrow> bool" where
  "exact_tables w \<longleftrightarrow> distinct (map mo_id (mw_monitors w)) \<and> (\<forall>r \<in> set (mw_monitors w). exact_row w r)"

lemma chained_append: "chained p (cs @ [c]) \<longleftrightarrow> chained p cs \<and>
    mc_previousStatus c = (if cs = [] then p else Some (mc_newStatus (last cs))) \<and>
    mc_statusChanged c = (Some (mc_newStatus c) \<noteq> mc_previousStatus c)"
  by (induction p cs rule: chained.induct) auto

lemma end_status_cong: "map mc_newStatus cs = map mc_newStatus ds \<Longrightarrow> end_status cs = end_status ds"
  by (cases cs rule: rev_cases; cases ds rule: rev_cases) (auto simp: end_status_def)

lemma find_set_monitor:
  assumes "\<And>r. mo_id (f r) = mo_id r"
  shows "List.find (\<lambda>m. mo_id m = j) (set_monitor i f ms) =
    (if j = i then map_option f (List.find (\<lambda>m. mo_id m = j) ms) else List.find (\<lambda>m. mo_id m = j) ms)"
  by (induction ms) (auto simp: set_monitor_def assms)

lemma find_save_monitor:
  assumes "\<And>r. mo_id (f r) = mo_id r"
  shows "find_monitor j (save_monitor i f w) = (if j = i then map_option f (find_monitor j w) else find_monitor j w)"
  using find_set_monitor [OF assms] by (simp add: find_monitor_def save_monitor_def)

text \<open>The flag of the notification changes no column the history is read from.\<close>

lemma mark_sent_views:
  "history j (mark_sent i t w) = map (\<lambda>c. if mc_monitorId c = i \<and> mc_checkedAt c \<ge> t then c\<lparr>mc_webhookSent := True\<rparr> else c) (history j w)"
proof -
  let ?g = "\<lambda>c. if mc_monitorId c = i \<and> mc_checkedAt c \<ge> t then c\<lparr>mc_webhookSent := True\<rparr> else c"
  have "filter (\<lambda>c. mc_monitorId c = j) (map ?g cs) = map ?g (filter (\<lambda>c. mc_monitorId c = j) cs)" for cs
    by (induction cs) auto
  then show ?thesis by (simp add: history_def mark_sent_def)
qed

lemma flag_views:
  fixes g :: "monitor_check \<Rightarrow> monitor_check"
  assumes "\<And>c. mc_newStatus (g c) = mc_newStatus c" "\<And>c. mc_previousStatus (g c) = mc_previousStatus c"
    "\<And>c. mc_statusChanged (g c) = mc_statusChanged c"
  shows "map mc_newStatus (map g cs) = map mc_newStatus cs" "chained p (map g cs) = chained p cs"
    "changes (map g cs) = changes cs"
proof -
  show "map mc_newStatus (map g cs) = map mc_newStatus cs" by (simp add: assms)
  show "chained p (map g cs) = chained p cs" by (induction p cs rule: chained.induct) (auto simp: assms)
  show "changes (map g cs) = changes cs" by (simp add: changes_def filter_map comp_def assms)
qed

definition same_history :: "monitor_world \<Rightarrow> monitor_world \<Rightarrow> bool" where
  "same_history w w' \<longleftrightarrow> (\<forall>j. map mc_newStatus (history j w') = map mc_newStatus (history j w) \<and>
     chained None (history j w') = chained None (history j w) \<and> changes (history j w') = changes (history j w))"

lemma mark_sent_same: "same_history w (mark_sent i t w)"
  unfolding same_history_def mark_sent_views by (intro allI conjI flag_views) simp_all

definition advances :: "string \<Rightarrow> monitor_world \<Rightarrow> monitor_world \<Rightarrow> bool" where
  "advances i w w' \<longleftrightarrow> untouched i w w' \<and> (\<exists>r. find_monitor i w' = Some r \<and> exact_row w' r)"

lemma advances_cong:
  assumes "mw_monitors u = mw_monitors v" "mw_checks u = mw_checks v" "mw_notices u = mw_notices v"
  shows "advances i w u = advances i w v" and "advances i u w = advances i v w"
  using assms by (simp_all add: advances_def untouched_def exact_row_def find_monitor_def history_def told_def)

lemma advances_refl: "find_monitor i w = Some m \<Longrightarrow> exact_row w m \<Longrightarrow> advances i w w"
  by (simp add: advances_def untouched_def)

lemma save_ids:
  assumes "\<And>r. mo_id (f r) = mo_id r"
  shows "map mo_id (mw_monitors (save_monitor i f w)) = map mo_id (mw_monitors w)"
  using map_set_monitor [of mo_id f i, OF assms] by (simp add: save_monitor_def)

lemma save_advances:
  assumes "find_monitor i w = Some m" and "exact_row w m" and "\<And>r. mo_id (f r) = mo_id r"
    "\<And>r. mo_lastStatus (f r) = mo_lastStatus r" "\<And>r. mo_notifyOnAnyChange (f r) = mo_notifyOnAnyChange r"
  shows "advances i w (save_monitor i f w)"
proof -
  have same: "history j (save_monitor i f w) = history j w" "told j (save_monitor i f w) = told j w" for j
    by (simp_all add: history_def told_def save_monitor_def)
  have "map mo_id (mw_monitors (save_monitor i f w)) = map mo_id (mw_monitors w)"
    by (rule save_ids) (rule assms(3))
  then show ?thesis using assms
    by (auto simp: advances_def untouched_def find_save_monitor same exact_row_def)
qed

lemma record_check_advances:
  assumes "\<And>p. mv_up env (mo_id m) p" and "find_monitor (mo_id m) w = Some m" and "exact_row w m"
  shows "fst (record_check env source m v w) = CheckDone \<and> advances (mo_id m) w (snd (record_check env source m v w))"
proof -
  let ?st = "status_text (res_status v)" and ?i = "mo_id m"
  let ?ch = "Some ?st \<noteq> mo_lastStatus m"
  let ?f = "\<lambda>r. r\<lparr>mo_lastCheckedAt := Some (mv_now env),
      mo_nextCheckAt := calcNextCheckAt (mv_random env ?i) (mv_now env) (mo_intervalHours m),
      mo_lastStatus := Some ?st, mo_consecutiveFailures := 0, mo_failureReason := None\<rparr>"
  let ?c = "\<lparr>mc_monitorId = ?i, mc_verificationId = res_id v, mc_statusChanged = ?ch, mc_previousStatus = mo_lastStatus m,
      mc_newStatus = ?st, mc_source = source, mc_checkedAt = mv_now env, mc_webhookSent = False\<rparr>"
  define w2 where "w2 = save_monitor ?i ?f (w\<lparr>mw_checks := mw_checks w @ [?c]\<rparr>)"
  define w3 where "w3 = dispatchStatusChangeWebhooks m ?st (mv_now env) w2"
  define w4 where "w4 = mark_sent ?i (mv_now env) w3"
  have res: "record_check env source m v w = (CheckDone, if ?ch \<and> mo_notifyOnAnyChange m then w4 else w2)"
    using assms(1,2) by (simp add: record_check_def Let_def w2_def w3_def w4_def)
  have h2: "history j w2 = (if j = ?i then history j w @ [?c] else history j w)" for j
    by (auto simp: w2_def history_def save_monitor_def)
  have ids: "map mo_id (mw_monitors w2) = map mo_id (mw_monitors w)"
    unfolding w2_def by (subst save_ids) simp_all
  have f2: "find_monitor j w2 = (if j = ?i then Some (?f m) else find_monitor j w)" for j
    using assms(2) by (simp add: w2_def find_save_monitor) (simp add: find_monitor_def)
  have t2: "told j w2 = told j w" for j by (simp add: w2_def told_def save_monitor_def)
  have old: "chained None (history ?i w)" "end_status (history ?i w) = mo_lastStatus m"
    "mo_notifyOnAnyChange m \<Longrightarrow> told ?i w = changes (history ?i w)"
    using assms(3) by (simp_all add: exact_row_def)
  have chain: "chained None (history ?i w2)" "end_status (history ?i w2) = Some ?st"
    "changes (history ?i w2) = changes (history ?i w) @ (if ?ch then [(mo_lastStatus m, ?st)] else [])"
    using old(1,2) by (auto simp: h2 chained_append end_status_def changes_def)
  have u2: "untouched ?i w w2" by (simp add: untouched_def ids f2 h2 t2)
  show ?thesis
  proof (cases "?ch \<and> mo_notifyOnAnyChange m")
    case False
    then have "exact_row w2 (?f m)" using chain old(3) by (auto simp: exact_row_def t2)
    then show ?thesis using u2 f2 res by (simp only: if_not_P [OF False]) (simp add: advances_def)
  next
    case True
    have same3: "history j w3 = history j w2" "find_monitor j w3 = find_monitor j w2"
      "told j w3 = told j w @ (if j = ?i then [(mo_lastStatus m, ?st)] else [])" "mw_monitors w3 = mw_monitors w2" for j
      by (auto simp: w3_def dispatchStatusChangeWebhooks_def history_def find_monitor_def told_def w2_def save_monitor_def)
    have same4: "find_monitor j w4 = find_monitor j w2" "told j w4 = told j w3" "mw_monitors w4 = mw_monitors w2" for j
      using same3 by (simp_all add: w4_def mark_sent_def find_monitor_def told_def)
    have views: "map mc_newStatus (history j w4) = map mc_newStatus (history j w2) \<and>
        chained None (history j w4) = chained None (history j w2) \<and> changes (history j w4) = changes (history j w2)" for j
      using mark_sent_same [of w3 ?i "mv_now env"] same3(1) by (simp add: same_history_def w4_def)
    then have ends: "end_status (history ?i w4) = Some ?st" using end_status_cong chain(2) by metis
    have "exact_row w4 (?f m)"
      using True chain old(3) views [of ?i] ends by (simp add: exact_row_def same4 same3)
    moreover have "untouched ?i w w4"
      using u2 views by (simp add: untouched_def same4 same3 f2)
    ultimately show ?thesis using res True by (simp add: advances_def same4 f2)
  qed
qed

lemma processMonitor_advances:
  assumes up: "\<And>p. mv_up env (mo_id m) p" and found: "find_monitor (mo_id m) w = Some m" and exact: "exact_row w m"
  shows "advances (mo_id m) w (snd (processMonitor env source m w))"
proof -
  let ?i = "mo_id m" and ?w = "take_lock env (mo_id m) w"
  have lock: "mw_monitors ?w = mw_monitors w" "mw_checks ?w = mw_checks w" "mw_notices ?w = mw_notices w"
    by (simp_all add: take_lock_def)
  have rel: "advances ?i w (snd (release_lock env j ok v)) = advances ?i w v" for j ok v
    by (rule advances_cong) (auto simp: release_lock_def)
  have like: "find_monitor ?i v = Some m \<and> exact_row v m \<and> advances ?i w v"
    if "mw_monitors v = mw_monitors w" "mw_checks v = mw_checks w" "mw_notices v = mw_notices w" for v
    using that found exact advances_cong(1) [OF that] advances_refl [OF found exact]
    by (simp add: find_monitor_def exact_row_def history_def told_def)
  have saved: "advances ?i w (save_monitor ?i f v)"
    if "mw_monitors v = mw_monitors w" "mw_checks v = mw_checks w" "mw_notices v = mw_notices w"
      "\<And>r. mo_id (f r) = mo_id r" "\<And>r. mo_lastStatus (f r) = mo_lastStatus r"
      "\<And>r. mo_notifyOnAnyChange (f r) = mo_notifyOnAnyChange r" for f v
    using save_advances [of ?i v m f] like [OF that(1-3)] that(4-6) advances_cong(2) [OF that(1-3)] by simp
  have failed: "advances ?i w (snd (check_failed env msg m v))"
    if "mw_monitors v = mw_monitors w" "mw_checks v = mw_checks w" "mw_notices v = mw_notices w" for msg v
    using like [OF that] up saved [OF that] by (simp add: check_failed_def failed_monitor_def Let_def)
  have recorded: "fst (record_check env source m u v) = CheckDone \<and> advances ?i w (snd (record_check env source m u v))"
    if "mw_monitors v = mw_monitors w" "mw_checks v = mw_checks w" "mw_notices v = mw_notices w" for u v
    using record_check_advances [OF up, of v source u] like [OF that] advances_cong(2) [OF that] by simp
  have chk: "case check_monitor env source m ?w of
      (CheckThrew msg, v) \<Rightarrow> mw_monitors v = mw_monitors w \<and> mw_checks v = mw_checks w \<and> mw_notices v = mw_notices w
    | (_, v) \<Rightarrow> advances ?i w v"
  proof (cases "case mw_keys ?w (mo_apiKeyId m) of None \<Rightarrow> False | Some k \<Rightarrow> quota_exhausted k")
    case True
    have "find_monitor ?i ?w = Some m" using found lock by (simp add: find_monitor_def)
    then show ?thesis using True up saved [OF lock] by (simp add: check_monitor_def Let_def)
  next
    case False
    let ?v = "?w\<lparr>mw_verified := mw_verified ?w @ [mo_email m]\<rparr>"
    let ?b = "?v\<lparr>mw_keys := incrementUsageBy (mv_meter_up env ?i) (mo_apiKeyId m) 1 (mw_keys ?v)\<rparr>"
    have v: "advances ?i w ?v" using like [of ?v] lock by simp
    have b: "\<exists>y. record_check env source m u ?b = (CheckDone, y) \<and> advances ?i w y" for u
    proof -
      obtain e y where y: "record_check env source m u ?b = (e, y)" by fastforce
      have "mw_monitors ?b = mw_monitors w" "mw_checks ?b = mw_checks w" "mw_notices ?b = mw_notices w" using lock by simp_all
      from recorded [OF this, of u] show ?thesis unfolding y by simp
    qed
    have c: "check_monitor env source m ?w = (case mv_verify env m of Never \<Rightarrow> (CheckHung, ?v)
        | EngineThrew msg \<Rightarrow> (CheckThrew msg, ?v) | Verdict u \<Rightarrow> record_check env source m u ?b)"
      using up False by (simp add: check_monitor_def Let_def)
    show ?thesis
    proof (cases "mv_verify env m")
      case (Verdict u)
      then show ?thesis using b [of u] by (auto simp: c)
    qed (simp_all add: c v lock)
  qed
  obtain e v where e: "check_monitor env source m ?w = (e, v)" by fastforce
  show ?thesis
  proof (cases e)
    case (CheckThrew msg)
    obtain ok x where x: "check_failed env msg m v = (ok, x)" by fastforce
    have "advances ?i w x" using failed [of v msg] chk e CheckThrew x by simp
    then show ?thesis using up advances_refl [OF found exact] e CheckThrew x by (simp add: processMonitor_def rel)
  qed (use chk e up advances_refl [OF found exact] in \<open>simp_all add: processMonitor_def rel\<close>)
qed

text \<open>A tick is a sequence of checks of the first due monitors.\<close>

lemma monitor_chunk_fold:
  "snd (fold (\<lambda>m (ended, v). case processMonitor env ''scheduled'' m v of (e, v') \<Rightarrow> (ended \<and> e \<noteq> Stuck, v')) chunk p) =
   fold (\<lambda>m v. snd (processMonitor env ''scheduled'' m v)) chunk (snd p)"
  by (induction chunk arbitrary: p) (auto simp: case_prod_unfold)

lemma monitor_chunks_prefix:
  "\<exists>k. snd (monitor_chunks env due w) = fold (\<lambda>m v. snd (processMonitor env ''scheduled'' m v)) (take k due) w"
proof (induction env due w rule: monitor_chunks.induct)
  case (1 env due w)
  let ?n = MONITOR_CONCURRENCY and ?f = "\<lambda>m v. snd (processMonitor env ''scheduled'' m v)"
  obtain ended w1 where c: "monitor_chunk env (take ?n due) w = (ended, w1)" by fastforce
  then have w1: "w1 = fold ?f (take ?n due) w"
    using monitor_chunk_fold [of env "take ?n due" "(True, w)"] by (simp add: monitor_chunk_def)
  show ?case
  proof (cases "due = [] \<or> \<not> ended")
    case True
    then show ?thesis using c w1 by (subst monitor_chunks.simps) (auto intro: exI [of _ "?n"])
  next
    case False
    then obtain k where "snd (monitor_chunks env (drop ?n due) w1) = fold ?f (take k (drop ?n due)) w1"
      using 1 [OF _ c [symmetric]] by auto
    then show ?thesis using False c w1
      by (subst monitor_chunks.simps) (auto intro!: exI [of _ "?n + k"] simp: take_add)
  qed
qed

lemma advances_exact:
  assumes "exact_tables w" and "advances i w w'"
  shows "exact_tables w'"
proof -
  have ids: "map mo_id (mw_monitors w') = map mo_id (mw_monitors w)" using assms(2) by (simp add: advances_def untouched_def)
  then have dist: "distinct (map mo_id (mw_monitors w'))" using assms(1) by (simp add: exact_tables_def)
  have "exact_row w' r" if r: "r \<in> set (mw_monitors w')" for r
  proof (cases "mo_id r = i")
    case True
    then show ?thesis using assms(2) find_by_id [OF dist r] by (auto simp: advances_def)
  next
    case False
    then have "find_monitor (mo_id r) w = Some r" using assms(2) find_by_id [OF dist r] by (simp add: advances_def untouched_def)
    then have "exact_row w r" using assms(1) by (auto simp: exact_tables_def dest: find_monitor_mem)
    moreover have u: "map mc_newStatus (history (mo_id r) w') = map mc_newStatus (history (mo_id r) w)"
      "chained None (history (mo_id r) w') = chained None (history (mo_id r) w)"
      "changes (history (mo_id r) w') = changes (history (mo_id r) w)" "told (mo_id r) w' = told (mo_id r) w"
      using False assms(2) by (simp_all add: advances_def untouched_def)
    ultimately show ?thesis using end_status_cong [OF u(1)] by (simp add: exact_row_def)
  qed
  then show ?thesis using dist by (simp add: exact_tables_def)
qed

lemma fold_exact:
  assumes "\<And>i p. mv_up env i p" and "exact_tables w" and "distinct (map mo_id ms)"
    and "\<And>m. m \<in> set ms \<Longrightarrow> find_monitor (mo_id m) w = Some m"
  shows "exact_tables (fold (\<lambda>m v. snd (processMonitor env source m v)) ms w)"
  using assms(2-4)
proof (induction ms arbitrary: w)
  case (Cons m ms)
  let ?w = "snd (processMonitor env source m w)"
  have m: "find_monitor (mo_id m) w = Some m" using Cons.prems(3) by simp
  then have "exact_row w m" using Cons.prems(1) by (auto simp: exact_tables_def dest: find_monitor_mem)
  then have a: "advances (mo_id m) w ?w" using processMonitor_advances [OF assms(1) m] by simp
  have "find_monitor (mo_id r) ?w = Some r" if "r \<in> set ms" for r
  proof -
    have "mo_id r \<noteq> mo_id m" using Cons.prems(2) that by (auto simp: image_iff)
    then show ?thesis using a Cons.prems(3) that by (simp add: advances_def untouched_def)
  qed
  then show ?case using Cons.IH [OF advances_exact [OF Cons.prems(1) a]] Cons.prems(2) by simp
qed simp

fun calm_job :: "monitor_job \<Rightarrow> bool" where
  "calm_job (MonitorTick list_up env) \<longleftrightarrow> list_up \<and> (\<forall>i p. mv_up env i p)"
| "calm_job (RecheckSingle env i source) \<longleftrightarrow> (\<forall>i p. mv_up env i p)"

lemma processJob_exact:
  assumes "calm_job j" and "exact_tables w"
  shows "exact_tables (snd (processJob j w))"
proof (cases j)
  case (MonitorTick list_up env)
  let ?due = "due_monitors (mv_now env) w"
  have sub: "set ?due \<subseteq> set (mw_monitors w)" by (auto simp: due_monitors_def dest!: in_set_takeD)
  have "distinct (map mo_id (mw_monitors w))" using assms(2) by (simp add: exact_tables_def)
  then have find: "find_monitor (mo_id m) w = Some m" if "m \<in> set ?due" for m using find_by_id sub that by blast
  have dist: "distinct (map mo_id ?due)"
    using assms(2) by (auto simp: exact_tables_def due_monitors_def distinct_map take_map [symmetric] inj_on_def
        dest!: in_set_takeD intro: distinct_take)
  obtain k where k: "snd (runMonitorTick True env w) = fold (\<lambda>m v. snd (processMonitor env ''scheduled'' m v)) (take k ?due) w"
    using monitor_chunks_prefix by (force simp: runMonitorTick_def)
  have "exact_tables (fold (\<lambda>m v. snd (processMonitor env ''scheduled'' m v)) (take k ?due) w)"
    using assms MonitorTick dist find
    by (intro fold_exact) (auto simp: take_map [symmetric] dest: in_set_takeD)
  then show ?thesis using MonitorTick assms(1) k by simp
next
  case (RecheckSingle env i source)
  show ?thesis
  proof (cases "find_monitor i w")
    case (Some m)
    then have i: "mo_id m = i" by (auto dest: find_monitor_mem)
    have "exact_tables (snd (processMonitor env source m w))"
      using fold_exact [of env w "[m]" source] assms RecheckSingle Some i by simp
    then show ?thesis using RecheckSingle Some assms(2) by (simp add: runRecheckSingle_def)
  qed (simp add: RecheckSingle runRecheckSingle_def assms(2))
qed


subsection \<open>Witnesses\<close>

definition sample_monitor :: monitor_row where
  "sample_monitor = \<lparr>mo_id = ''m1'', mo_email = ''a@b.de'', mo_apiKeyId = ''k1'', mo_intervalHours = 24, mo_lastStatus = None,
     mo_notifyOnAnyChange = True, mo_isActive = True, mo_pausedAt = None, mo_nextCheckAt = 0, mo_lastCheckedAt = None,
     mo_consecutiveFailures = 0, mo_failureReason = None\<rparr>"

definition monitored :: "api_key \<Rightarrow> monitor_world" where
  "monitored k = \<lparr>mw_monitors = [sample_monitor], mw_checks = [], mw_locks = (\<lambda>_. None), mw_keys = [''k1'' \<mapsto> k],
     mw_verified = [], mw_notices = []\<rparr>"

definition calm_env :: "(monitor_row \<Rightarrow> engine_end) \<Rightarrow> monitor_env" where
  "calm_env verify = \<lparr>mv_now = 5, mv_up = (\<lambda>_ _. True), mv_random = (\<lambda>_. 1 / 2), mv_verify = verify,
     mv_meter_up = (\<lambda>_. True), mv_process = ''1'', mv_smtp_timeout = 15000\<rparr>"

lemma monitored_simps [simp]:
  "mw_monitors (monitored k) = [sample_monitor]" "mw_keys (monitored k) = [''k1'' \<mapsto> k]" "mw_locks (monitored k) i = None"
  "mw_checks (monitored k) = []" "mw_notices (monitored k) = []" "mw_verified (monitored k) = []"
  "mv_now (calm_env v) = 5" "mv_up (calm_env v) = (\<lambda>_ _. True)" "mv_verify (calm_env v) = v"
  "mo_id sample_monitor = ''m1''" "mo_apiKeyId sample_monitor = ''k1''" "mo_lastStatus sample_monitor = None"
  by (simp_all add: monitored_def calm_env_def sample_monitor_def)

lemma sample_due: "due_monitors 5 (monitored k) = [sample_monitor]"
  by (simp add: due_monitors_def BATCH_SIZE_def) (simp add: sample_monitor_def)

theorem hung_check_stops_all_monitoring_witness:
  "\<exists>w1 xs. monitor_worker (MonitorTick True (calm_env (\<lambda>_. Never)) # [RecheckSingle (calm_env (\<lambda>_. Never)) ''m1'' ''x''])
     (monitored (free_key 5 100)) = (Stuck, w1) \<and>
     mw_verified w1 = mw_verified (monitored (free_key 5 100)) @ xs \<and> length xs \<le> MONITOR_CONCURRENCY"
proof (rule hung_check_stops_all_monitoring [where m = sample_monitor and ms = "[]"])
  show "\<not> quota_exhausted k" if "mw_keys (monitored (free_key 5 100)) (mo_apiKeyId sample_monitor) = Some k" for k
    using that by (auto simp: quota_exhausted_def) (simp add: free_key_def getPlanLimit_def plan_lookup_def PLAN_LIMITS_def or_else_def)
qed (simp_all add: sample_due locked_def)

theorem engine_failures_never_pause_witness:
  "list_all2 not_worse (mw_monitors (monitored (free_key 5 100)))
     (mw_monitors (snd (runMonitorTick True
        (calm_env (\<lambda>m. engine_end_of (verifyEmail plain_env plain_cfg 0 7 (plain_input (mo_email m)) plain_world)))
        (monitored (free_key 5 100)))))"
proof (rule engine_failures_never_pause)
  fix m
  show "\<exists>eenv cfg t finish inp ew.
      mv_verify (calm_env (\<lambda>m. engine_end_of (verifyEmail plain_env plain_cfg 0 7 (plain_input (mo_email m)) plain_world))) m =
        engine_end_of (verifyEmail eenv cfg t finish inp ew)"
    by (simp only: monitored_simps) blast
qed simp

theorem monitors_ignore_credits_witness:
  "m_outcome (quota_reply 5 ((free_key 1000 100)\<lparr>k_extraVerificationCredits := 500\<rparr>)) = Pass \<and>
   mw_verified (snd (processMonitor (calm_env (\<lambda>_. Never)) ''scheduled'' sample_monitor
     (monitored ((free_key 1000 100)\<lparr>k_extraVerificationCredits := 500\<rparr>)))) =
   mw_verified (monitored ((free_key 1000 100)\<lparr>k_extraVerificationCredits := 500\<rparr>))"
  by (rule monitors_ignore_credits)
    (simp_all, simp_all add: free_key_def getPlanLimit_def plan_lookup_def PLAN_LIMITS_def or_else_def)


definition sample_jobs :: "monitor_job list" where
  "sample_jobs = [MonitorTick True (calm_env (\<lambda>_. EngineThrew ''down'')), RecheckSingle (calm_env (\<lambda>_. Never)) ''m1'' ''manual_recheck'']"


end
