(* ===== verification/MonitorRoutes.thy ===== *)
theory MonitorRoutes
  imports Monitor
begin

text \<open>
  The routes of \<^verbatim>\<open>src/routes/monitor/index.ts\<close> that change a monitor (create, update, delete, recheck), and
  what they and the worker of \<open>Monitor\<close> keep together. The check of an e-mail address by the schema
  library is a parameter; tags are left out. The foreign key of the checks
  (\<^verbatim>\<open>prisma/schema.prisma\<close>, \<^verbatim>\<open>scripts/database-setup.sql\<close>) has no cascade, so that the database
  refuses to delete a monitor that has checks.
\<close>

subsection \<open>The routes\<close>

record monitor_input =
  mi_email :: string
  mi_intervalHours :: int
  mi_notifyOnAnyChange :: bool

record monitor_update =
  mu_intervalHours :: "int option"
  mu_isActive :: "bool option"
  mu_tags :: bool
  mu_notifyOnAnyChange :: "bool option"

datatype monitor_reply = Created monitor_row | Changed monitor_row | Removed | Enqueued recheck_job | BadInput string | Missing | Crashed

definition create_input_ok :: "(string \<Rightarrow> bool) \<Rightarrow> monitor_input \<Rightarrow> bool" where
  "create_input_ok is_email inp \<longleftrightarrow> is_email (mi_email inp) \<and> length (mi_email inp) \<le> 254 \<and>
     mi_intervalHours inp \<in> set VALID_INTERVALS"

definition reactivated :: "int \<Rightarrow> monitor_input \<Rightarrow> monitor_row \<Rightarrow> monitor_row" where
  "reactivated now inp r = r\<lparr>mo_isActive := True, mo_intervalHours := mi_intervalHours inp,
     mo_notifyOnAnyChange := mi_notifyOnAnyChange inp, mo_nextCheckAt := now + mi_intervalHours inp * HOUR_IN_MS,
     mo_pausedAt := None, mo_failureReason := None, mo_consecutiveFailures := 0\<rparr>"

definition new_monitor :: "int \<Rightarrow> string \<Rightarrow> string \<Rightarrow> string \<Rightarrow> monitor_input \<Rightarrow> monitor_row" where
  "new_monitor now i key email inp = \<lparr>mo_id = i, mo_email = email, mo_apiKeyId = key,
     mo_intervalHours = mi_intervalHours inp, mo_lastStatus = None, mo_notifyOnAnyChange = mi_notifyOnAnyChange inp,
     mo_isActive = True, mo_pausedAt = None, mo_nextCheckAt = now + mi_intervalHours inp * HOUR_IN_MS,
     mo_lastCheckedAt = None, mo_consecutiveFailures = 0, mo_failureReason = None\<rparr>"

text \<open>\<open>i\<close> is the id the database generates; the insertion fails when it is taken.\<close>

definition create_monitor ::
  "(string \<Rightarrow> bool) \<Rightarrow> bool \<Rightarrow> int \<Rightarrow> string \<Rightarrow> api_key \<Rightarrow> monitor_input \<Rightarrow> monitor_world \<Rightarrow> monitor_reply \<times> monitor_world" where
  "create_monitor is_email up now i key inp w =
     (let email = js_lower (js_trim (mi_email inp));
          own = filter (\<lambda>m. mo_apiKeyId m = k_id key) (mw_monitors w)
      in if \<not> create_input_ok is_email inp then (BadInput ''body'', w)
         else if \<not> up then (Crashed, w)
         else if int (length own) \<ge> getMonitorLimit (k_plan key) then (BadInput ''limit'', w)
         else case find (\<lambda>m. mo_email m = email) own of
           Some existing \<Rightarrow>
             if mo_isActive existing \<and> mo_pausedAt existing = None then (BadInput ''email'', w)
             else (Changed (reactivated now inp existing), save_monitor (mo_id existing) (reactivated now inp) w)
         | None \<Rightarrow>
             if find_monitor i w \<noteq> None then (Crashed, w)
             else let m = new_monitor now i (k_id key) email inp
                  in (Created m, w\<lparr>mw_monitors := mw_monitors w @ [m]\<rparr>))"

definition own_monitor :: "string \<Rightarrow> string \<Rightarrow> monitor_world \<Rightarrow> monitor_row option" where
  "own_monitor key i w = (case find_monitor i w of None \<Rightarrow> None | Some m \<Rightarrow> if mo_apiKeyId m = key then Some m else None)"

definition updated_row :: "int \<Rightarrow> monitor_update \<Rightarrow> int \<Rightarrow> monitor_row \<Rightarrow> monitor_row" where
  "updated_row now u newInterval r =
     (let r1 = (case mu_intervalHours u of None \<Rightarrow> r | Some h \<Rightarrow> r\<lparr>mo_intervalHours := h\<rparr>);
          r2 = (case mu_notifyOnAnyChange u of None \<Rightarrow> r1 | Some b \<Rightarrow> r1\<lparr>mo_notifyOnAnyChange := b\<rparr>);
          r3 = (case mu_isActive u of
                  None \<Rightarrow> r2
                | Some False \<Rightarrow> r2\<lparr>mo_isActive := False\<rparr>
                | Some True \<Rightarrow> r2\<lparr>mo_isActive := True, mo_pausedAt := None, mo_consecutiveFailures := 0,
                    mo_failureReason := None, mo_nextCheckAt := now + newInterval * HOUR_IN_MS\<rparr>)
      in if mu_intervalHours u \<noteq> None \<and> mu_isActive u = None
         then r3\<lparr>mo_nextCheckAt := now + newInterval * HOUR_IN_MS\<rparr> else r3)"

definition update_monitor ::
  "(nat \<Rightarrow> bool) \<Rightarrow> int \<Rightarrow> string \<Rightarrow> string \<Rightarrow> monitor_update \<Rightarrow> monitor_world \<Rightarrow> monitor_reply \<times> monitor_world" where
  "update_monitor up now key i u w =
     (if (case mu_intervalHours u of None \<Rightarrow> False | Some h \<Rightarrow> h \<notin> set VALID_INTERVALS) then (BadInput ''intervalHours'', w)
      else if mu_intervalHours u = None \<and> mu_isActive u = None \<and> \<not> mu_tags u \<and> mu_notifyOnAnyChange u = None
      then (BadInput ''body'', w)
      else if \<not> up 0 then (Crashed, w)
      else case own_monitor key i w of
        None \<Rightarrow> (Missing, w)
      | Some m \<Rightarrow>
          if \<not> up 1 then (Crashed, w)
          else let f = updated_row now u (or_else (mu_intervalHours u) (mo_intervalHours m))
               in (Changed (f m), save_monitor i f w))"

definition delete_monitor :: "(nat \<Rightarrow> bool) \<Rightarrow> string \<Rightarrow> string \<Rightarrow> monitor_world \<Rightarrow> monitor_reply \<times> monitor_world" where
  "delete_monitor up key i w =
     (if \<not> up 0 then (Crashed, w)
      else case own_monitor key i w of
        None \<Rightarrow> (Missing, w)
      | Some m \<Rightarrow>
          if \<not> up 1 \<or> history i w \<noteq> [] then (Crashed, w)
          else (Removed, w\<lparr>mw_monitors := filter (\<lambda>m. mo_id m \<noteq> i) (mw_monitors w)\<rparr>))"

definition recheck_monitor :: "(nat \<Rightarrow> bool) \<Rightarrow> int \<Rightarrow> string \<Rightarrow> string \<Rightarrow> monitor_world \<Rightarrow> monitor_reply \<times> monitor_world" where
  "recheck_monitor up now key i w =
     (if \<not> up 0 then (Crashed, w)
      else case own_monitor key i w of
        None \<Rightarrow> (Missing, w)
      | Some m \<Rightarrow>
          if \<not> mo_isActive m then (BadInput ''isActive'', w)
          else if \<not> up 1 then (Crashed, w)
          else
            let w1 = save_monitor i (\<lambda>r. r\<lparr>mo_nextCheckAt := now\<rparr>) w
            in if \<not> up 2 then (Crashed, w1)
               else (Enqueued \<lparr>rj_jobId = ''recheck-'' @ i @ ''-'' @ show_int now, rj_monitorId = i,
                 rj_source = ''manual_recheck''\<rparr>, w1))"

subsection \<open>Everything that happens to the monitors\<close>

datatype monitor_action =
    WorkerJob monitor_job
  | CreateMonitor "string \<Rightarrow> bool" bool int string api_key monitor_input
  | UpdateMonitor "nat \<Rightarrow> bool" int string string monitor_update
  | DeleteMonitor "nat \<Rightarrow> bool" string string
  | RequestRecheck "nat \<Rightarrow> bool" int string string

fun perform :: "monitor_action \<Rightarrow> monitor_world \<Rightarrow> monitor_world" where
  "perform (WorkerJob j) w = snd (processJob j w)"
| "perform (CreateMonitor is_email up now i key inp) w = snd (create_monitor is_email up now i key inp w)"
| "perform (UpdateMonitor up now key i u) w = snd (update_monitor up now key i u w)"
| "perform (DeleteMonitor up key i) w = snd (delete_monitor up key i w)"
| "perform (RequestRecheck up now key i) w = snd (recheck_monitor up now key i w)"

lemma processJob_tables: "monitor_tables w \<Longrightarrow> monitor_tables (snd (processJob j w))"
  by (cases j) (simp_all add: runMonitorTick_tables runRecheckSingle_tables)

lemma create_monitor_tables:
  assumes "monitor_tables w"
  shows "monitor_tables (snd (create_monitor is_email up now i key inp w))"
proof -
  let ?email = "js_lower (js_trim (mi_email inp))"
  let ?own = "filter (\<lambda>m. mo_apiKeyId m = k_id key) (mw_monitors w)"
  let ?m = "new_monitor now i (k_id key) ?email inp"
  have re: "monitor_tables (save_monitor j (reactivated now inp) w)" if "create_input_ok is_email inp" for j
    using assms by (rule save_monitor_tables)
      (use that in \<open>auto simp: reactivated_def monitor_ok_def create_input_ok_def MAX_CONSECUTIVE_FAILURES_def\<close>)
  have new: "monitor_tables (w\<lparr>mw_monitors := mw_monitors w @ [?m]\<rparr>)"
    if "create_input_ok is_email inp" "find (\<lambda>m. mo_email m = ?email) ?own = None" "find_monitor i w = None"
    using assms that
    by (auto simp: monitor_tables_def new_monitor_def monitor_ok_def create_input_ok_def MAX_CONSECUTIVE_FAILURES_def
        find_None_iff_all find_monitor_def)
  show ?thesis using assms re new
    by (auto simp: create_monitor_def Let_def split: option.split)
qed

lemma update_monitor_tables:
  assumes "monitor_tables w"
  shows "monitor_tables (snd (update_monitor up now key i u w))"
proof -
  have "monitor_tables (save_monitor i (updated_row now u h) w)"
    if "mu_intervalHours u = None \<or> the (mu_intervalHours u) \<in> set VALID_INTERVALS" for h
    using assms
  proof (rule save_monitor_tables)
    fix r assume "monitor_ok r"
    then show "monitor_ok (updated_row now u h r)"
      using that
      by (cases "mu_intervalHours u"; cases "mu_notifyOnAnyChange u"; cases "mu_isActive u"; cases "the (mu_isActive u)")
        (simp_all add: updated_row_def monitor_ok_def MAX_CONSECUTIVE_FAILURES_def)
  qed (simp_all add: updated_row_def Let_def split: option.split bool.split)
  then show ?thesis using assms by (auto simp: update_monitor_def Let_def split: option.split)
qed

lemma delete_monitor_tables:
  assumes "monitor_tables w"
  shows "monitor_tables (snd (delete_monitor up key i w))"
  using assms
  by (auto simp: delete_monitor_def monitor_tables_def list_all_iff distinct_map_filter split: option.split)

lemma recheck_monitor_tables: "monitor_tables w \<Longrightarrow> monitor_tables (snd (recheck_monitor up now key i w))"
  by (auto simp: recheck_monitor_def Let_def monitor_ok_def intro!: save_monitor_tables split: option.split)

text \<open>C15: the tables of the monitors keep their shape through every sequence of ticks, rechecks and requests, whichever
  operations fail: ids and pairs of key and address are unique, statuses are the four names, an active monitor is
  not paused and has fewer than five failures, intervals are among the seven accepted ones, and a check
  is marked as a change exactly when it is one.\<close>

theorem monitor_tables_typed:
  assumes "monitor_tables w"
  shows "monitor_tables (fold perform acts w)"
proof (rule fold_invariant [where P = monitor_tables])
  fix a v assume "monitor_tables v"
  then show "monitor_tables (perform a v)"
    by (cases a) (simp_all add: processJob_tables create_monitor_tables update_monitor_tables delete_monitor_tables
        recheck_monitor_tables)
qed (rule assms)

subsection \<open>What the worker never removes\<close>

definition row_keys :: "monitor_world \<Rightarrow> (string \<times> string) list" where
  "row_keys w = map (\<lambda>m. (mo_id m, mo_apiKeyId m)) (mw_monitors w)"

definition keeps_rows :: "monitor_world \<Rightarrow> monitor_world \<Rightarrow> bool" where
  "keeps_rows w w' \<longleftrightarrow> row_keys w' = row_keys w \<and> mc_monitorId ` set (mw_checks w) \<subseteq> mc_monitorId ` set (mw_checks w')"

lemma keeps_rows_refl [simp]: "keeps_rows w w"
  by (simp add: keeps_rows_def)

lemma keeps_rows_trans: "keeps_rows u v \<Longrightarrow> keeps_rows v w \<Longrightarrow> keeps_rows u w"
  by (auto simp: keeps_rows_def)

lemma keeps_rows_same: "mw_monitors v = mw_monitors w \<Longrightarrow> mw_checks v = mw_checks w \<Longrightarrow> keeps_rows w v"
  by (simp add: keeps_rows_def row_keys_def)

lemma keeps_rows_save:
  assumes "\<And>r. mo_id (f r) = mo_id r" "\<And>r. mo_apiKeyId (f r) = mo_apiKeyId r"
  shows "keeps_rows w (save_monitor i f w)"
proof -
  have "row_keys (save_monitor i f w) = row_keys w"
    using map_set_monitor [of "\<lambda>m. (mo_id m, mo_apiKeyId m)" f i] assms by (simp add: row_keys_def save_monitor_def)
  then show ?thesis by (simp add: keeps_rows_def save_monitor_def)
qed

lemma keeps_rows_mark: "keeps_rows w (mark_sent i t w)"
proof -
  have "map mc_monitorId (mw_checks (mark_sent i t w)) = map mc_monitorId (mw_checks w)" by (simp add: mark_sent_def)
  then have "set (map mc_monitorId (mw_checks (mark_sent i t w))) = set (map mc_monitorId (mw_checks w))" by (rule arg_cong)
  then show ?thesis by (simp add: keeps_rows_def row_keys_def) (simp add: mark_sent_def)
qed

lemma record_check_keeps: "keeps_rows w (snd (record_check env source m v w))"
proof -
  have add: "keeps_rows u (u\<lparr>mw_checks := mw_checks u @ [c]\<rparr>)" for u c by (auto simp: keeps_rows_def row_keys_def)
  have disp: "keeps_rows u (dispatchStatusChangeWebhooks m st t u)" for u st t
    by (simp add: dispatchStatusChangeWebhooks_def keeps_rows_same)
  show ?thesis
    by (auto simp: record_check_def Let_def intro!: keeps_rows_trans [OF _ keeps_rows_mark] keeps_rows_trans [OF _ disp]
        keeps_rows_trans [OF add keeps_rows_save] add)
qed

lemma processMonitor_keeps: "keeps_rows w (snd (processMonitor env source m w))"
proof -
  let ?w = "take_lock env (mo_id m) w"
  have lock: "keeps_rows w ?w" by (simp add: take_lock_def keeps_rows_same)
  have rel: "keeps_rows u (snd (release_lock env i ok u))" for u i ok by (auto simp: release_lock_def intro: keeps_rows_same)
  have fail: "keeps_rows u (snd (check_failed env msg m u))" for u msg
    by (auto simp: check_failed_def Let_def failed_monitor_def intro!: keeps_rows_save split: option.split)
  have chk: "keeps_rows u (snd (check_monitor env source m u))" for u
    by (auto simp: check_monitor_def Let_def keeps_rows_same intro!: keeps_rows_save keeps_rows_trans [OF _ record_check_keeps]
        split: engine_end.split option.split)
  obtain e v where e: "check_monitor env source m ?w = (e, v)" by fastforce
  then have v: "keeps_rows w v" using keeps_rows_trans [OF lock chk [of ?w]] by simp
  have "keeps_rows w (snd (case check_failed env msg m v of (ok, x) \<Rightarrow> release_lock env (mo_id m) ok x))" for msg
    using keeps_rows_trans [OF v fail [of v msg]] keeps_rows_trans [OF _ rel] by (simp add: case_prod_unfold)
  then show ?thesis using v keeps_rows_trans [OF v rel] e
    by (auto simp: processMonitor_def split: check_end.split)
qed

lemma processJob_keeps: "keeps_rows w (snd (processJob j w))"
proof (cases j)
  case (MonitorTick list_up env)
  have "keeps_rows w (snd (runMonitorTick list_up env w))"
    by (rule runMonitorTick_invariant [where P = "keeps_rows w"]) (auto intro: keeps_rows_trans processMonitor_keeps)
  then show ?thesis by (simp add: MonitorTick)
next
  case (RecheckSingle env i source)
  then show ?thesis by (auto simp: runRecheckSingle_def processMonitor_keeps split: option.split)
qed

lemma update_keeps: "keeps_rows w (snd (update_monitor up now key i u w))"
  by (auto simp: update_monitor_def Let_def updated_row_def intro!: keeps_rows_save split: option.split bool.split)

lemma recheck_keeps: "keeps_rows w (snd (recheck_monitor up now key i w))"
  by (auto simp: recheck_monitor_def Let_def intro!: keeps_rows_save split: option.split)

lemma history_empty: "history i w = [] \<longleftrightarrow> i \<notin> mc_monitorId ` set (mw_checks w)"
  by (auto simp: history_def filter_empty_conv)


text \<open>No sequence of jobs and requests takes an account over the number of monitors of its plan.\<close>

theorem monitor_cap_kept:
  assumes "int (count_list (map snd (row_keys w)) key) \<le> getMonitorLimit plan"
    and "\<And>is_email up now i k inp. CreateMonitor is_email up now i k inp \<in> set acts \<Longrightarrow> k_id k = key \<Longrightarrow> k_plan k = plan"
  shows "int (count_list (map snd (row_keys (fold perform acts w))) key) \<le> getMonitorLimit plan"
proof (rule fold_invariant [where P = "\<lambda>v. int (count_list (map snd (row_keys v)) key) \<le> getMonitorLimit plan"])
  fix a v assume a: "a \<in> set acts" and v: "int (count_list (map snd (row_keys v)) key) \<le> getMonitorLimit plan"
  have keep: "int (count_list (map snd (row_keys v')) key) \<le> getMonitorLimit plan" if "keeps_rows v v'" for v'
    using v that by (simp add: keeps_rows_def)
  have own: "count_list (map snd (row_keys v)) k = length (filter (\<lambda>m. mo_apiKeyId m = k) (mw_monitors v))" for k
    by (simp add: row_keys_def count_list_eq_length_filter filter_map comp_def eq_commute)
  show "int (count_list (map snd (row_keys (perform a v))) key) \<le> getMonitorLimit plan"
  proof (cases a)
    case (CreateMonitor is_email cup now j k inp)
    have "keeps_rows v (save_monitor j' (reactivated now inp) v)" for j'
      by (rule keeps_rows_save) (simp_all add: reactivated_def)
    moreover have "k_id k = key \<Longrightarrow> k_plan k = plan" using assms(2) a CreateMonitor by blast
    ultimately show ?thesis using v keep own
      by (auto simp: CreateMonitor create_monitor_def Let_def row_keys_def new_monitor_def split: option.split)
  next
    case (DeleteMonitor dup k j)
    have less: "count_list (map g (filter Q ms)) x \<le> count_list (map g ms) x" for g :: "monitor_row \<Rightarrow> string" and Q ms x
      by (induction ms) auto
    have "map snd (row_keys u) = map mo_apiKeyId (mw_monitors u)" for u by (simp add: row_keys_def)
    then show ?thesis using v less [of mo_apiKeyId "\<lambda>m. mo_id m \<noteq> j" "mw_monitors v" key]
      by (auto simp: DeleteMonitor delete_monitor_def split: option.split)
  qed (auto intro!: keep processJob_keeps update_keeps recheck_keeps)
qed (rule assms(1))

subsection \<open>Witnesses\<close>

definition sample_request :: monitor_input where
  "sample_request = \<lparr>mi_email = ''b@b.de'', mi_intervalHours = 6, mi_notifyOnAnyChange = True\<rparr>"

definition sample_actions :: "monitor_action list" where
  "sample_actions = [WorkerJob (MonitorTick True (calm_env (\<lambda>_. Never))),
     CreateMonitor (\<lambda>_. True) True 7 ''m2'' (free_key 5 100) sample_request,
     DeleteMonitor (\<lambda>_. True) ''k1'' ''m1'', RequestRecheck (\<lambda>_. True) 9 ''k1'' ''m2'']"

theorem monitor_tables_typed_witness: "monitor_tables (fold perform sample_actions (monitored (free_key 5 100)))"
  by (rule monitor_tables_typed)
    (simp add: monitor_tables_def, simp add: sample_monitor_def monitor_ok_def VALID_INTERVALS_def MAX_CONSECUTIVE_FAILURES_def)

definition checked_once :: monitor_world where
  "checked_once = (monitored (free_key 5 100))\<lparr>mw_checks := [\<lparr>mc_monitorId = ''m1'', mc_verificationId = ''v'',
     mc_statusChanged = True, mc_previousStatus = None, mc_newStatus = ''valid'', mc_source = ''scheduled'', mc_checkedAt = 1,
     mc_webhookSent = True\<rparr>]\<rparr>"


theorem monitor_cap_kept_witness:
  "int (count_list (map snd (row_keys (fold perform sample_actions (monitored (free_key 5 100))))) ''k1'') \<le>
     getMonitorLimit (Some ''free'')"
proof (rule monitor_cap_kept)
  show "k_plan k = Some ''free''" if "CreateMonitor is_email up now i k inp \<in> set sample_actions" "k_id k = ''k1''"
    for is_email up now i k inp
    using that by (auto simp: sample_actions_def free_key_def)
qed (simp add: row_keys_def getMonitorLimit_def plan_lookup_def PLAN_MONITOR_LIMITS_def or_else_def)

end
