(* ===== verification/Spec2Isabelle.thy ===== *)
theory Spec2Isabelle
  imports
    Engine BotDetection Limiter
    Auth UsageMeter RateLimit ErrorHandler
    WebhookWorker
    Campaign Tracking Sequences
    BulkUpload
    DeliveryEvents MonitorRoutes
begin

text \<open>
  A model of the core of \<^verbatim>\<open>continuum-api\<close> (TypeScript, \<^verbatim>\<open>src/\<close>), the service that
  verifies e-mail addresses, meters and limits the use of its API keys, and delivers signed
  webhooks, sends mail campaigns and outreach sequences, verifies uploaded lists, and watches addresses
  over time, with the theorems that make these parts correct and those that show where they are not.

  \<^bold>\<open>The program.\<close> An HTTP request first passes the rate limiter
  (\<^verbatim>\<open>plugins/rateLimit.ts\<close>), the API key authentication (\<^verbatim>\<open>plugins/auth.ts\<close>) and a monthly quota
  (\<^verbatim>\<open>plugins/usageMeter.ts\<close>); what a handler throws becomes a reply in
  \<^verbatim>\<open>plugins/errorHandler.ts\<close>. The verification engine (\<^verbatim>\<open>engine/index.ts\<close>) runs the checks of an
  address in a fixed order, each with an early exit: syntax, domain and local part, disposable and toxic
  domains, look-alikes, MX records, the SMTP verdict (shared table, paid provider or own probe),
  deliverability records, and the decision table of \<^verbatim>\<open>engine/scorer.ts\<close>; it stores one row and
  returns it. Events go to \<^verbatim>\<open>lib/webhooks.ts\<close>, which inserts a delivery per subscribed webhook and
  queues a job; \<^verbatim>\<open>workers/webhookWorker.ts\<close> sends it, retries with a growing delay and
  gives up after a fixed number of attempts. An uploaded list becomes a job of
  \<^verbatim>\<open>workers/bulkWorker.ts\<close>, which asks the engine for each address and exports the verdicts;
  \<^verbatim>\<open>workers/monitorWorker.ts\<close> asks it again and again for the monitored ones. What the mail
  transports report of a message goes through \<^verbatim>\<open>routes/send/\<close> to the suppression list of
  \<^verbatim>\<open>lib/bounceHandling.ts\<close>, which also corrects cached verdicts and triggers rechecks.

  \<^bold>\<open>Theories\<close> (all paths below \<^verbatim>\<open>src/src/\<close>).

    \<^item> \<open>Prelude\<close>: the JavaScript string and array operations the code uses; \<open>Regex\<close>: the
      regular expressions of its \<open>test\<close> calls; \<open>Calendar\<close>: the \<open>Date\<close> arithmetic of the
      meters; \<open>TtlCache\<close> and \<open>JsMap\<close>: the interfaces of an expiring cache and of a bounded
      \<open>Map\<close> with expiring entries.
    \<^item> \<open>Syntax\<close> (\<^verbatim>\<open>engine/syntax.ts\<close>) and \<open>Domain\<close> (\<^verbatim>\<open>engine/domain.ts\<close>): every
      function, with an independent grammar of addresses that \<open>checkSyntax\<close> decides.
    \<^item> \<open>Disposable\<close>, \<open>RoleAccount\<close>, \<open>Lookalike\<close>, \<open>Toxic\<close> (the files of
      \<^verbatim>\<open>engine/\<close> with these names): the tables, the matchers, the reloading of the block list and the
      two-row edit distance.
    \<^item> \<open>Mx\<close> (\<^verbatim>\<open>engine/mx.ts\<close>): lookup, retry and cache.
    \<^item> \<open>SmtpDialogue\<close> and \<open>SmtpProbe\<close> (\<^verbatim>\<open>engine/smtp.ts\<close>): \<open>probeAddress\<close> as a state
      machine over socket events; the local and the relayed probe, the catch-all table and
      the circuit breaker of the relay. \<open>SmtpCache\<close> (\<^verbatim>\<open>engine/smtpCache.ts\<close>): the shared verdict
      table and the providers with their retry loops.
    \<^item> \<open>Deliverability\<close> (\<^verbatim>\<open>engine/deliverability.ts\<close>), \<open>Scorer\<close>
      (\<^verbatim>\<open>engine/scorer.ts\<close>), \<open>Engine\<close> (\<^verbatim>\<open>engine/index.ts\<close>) and
      \<open>BotDetection\<close> (\<^verbatim>\<open>engine/botDetection.ts\<close>).
    \<^item> \<open>Limiter\<close> (\<^verbatim>\<open>lib/concurrencyLimiter.ts\<close>): the rolling pool as a step relation.
    \<^item> \<open>ApiKeys\<close> (the record and the table of keys, \<^verbatim>\<open>lib/tenantContext.ts\<close>), \<open>Auth\<close>
      (\<^verbatim>\<open>plugins/auth.ts\<close>), \<open>UsageMeter\<close> (\<^verbatim>\<open>plugins/usageMeter.ts\<close>), \<open>RateLimit\<close>
      (\<^verbatim>\<open>plugins/rateLimit.ts\<close>), \<open>ErrorHandler\<close> (\<^verbatim>\<open>plugins/errorHandler.ts\<close>).
    \<^item> \<open>Campaign\<close> (\<^verbatim>\<open>workers/campaignWorker.ts\<close> and four routes of
      \<^verbatim>\<open>routes/campaigns/index.ts\<close>): the audience, the chunks, the reasons to stop, the meter.
      \<open>Mailboxes\<close> (\<^verbatim>\<open>lib/espMatch.ts\<close>) and \<open>Sequences\<close>
      (\<^verbatim>\<open>workers/sequenceWorker.ts\<close>): the tick over the due enrollments. \<open>Tracking\<close>
      (\<^verbatim>\<open>routes/track/index.ts\<close>): opens and clicks.
    \<^item> \<open>Csv\<close> (the parser of \<^verbatim>\<open>routes/bulk-jobs/index.ts\<close> and the export of
      \<^verbatim>\<open>workers/bulkWorker.ts\<close>), \<open>BulkJob\<close> (\<^verbatim>\<open>workers/bulkWorker.ts\<close>: an attempt, its
      resumption, the failure handler and the start-up sweep) and \<open>BulkUpload\<close> (the upload).
    \<^item> \<open>Sns\<close> (\<^verbatim>\<open>lib/snsVerify.ts\<close>), \<open>Bounce\<close>
      (\<^verbatim>\<open>lib/bounceHandling.ts\<close>) and \<open>DeliveryEvents\<close> (\<^verbatim>\<open>routes/send/events.ts\<close>,
      \<^verbatim>\<open>routes/send/smtp2goEvents.ts\<close>): what the two mail transports report.
    \<^item> \<open>Monitor\<close> (\<^verbatim>\<open>workers/monitorWorker.ts\<close>: ticks, rechecks, locks, the hourly reset) and
      \<open>MonitorRoutes\<close> (the routes of \<^verbatim>\<open>routes/monitor/index.ts\<close> that write).
    \<^item> \<open>WebhookSign\<close> (\<^verbatim>\<open>lib/crypto.ts\<close>), \<open>Webhooks\<close> (\<^verbatim>\<open>lib/webhooks.ts\<close> and the pure
      parts of the worker) and \<open>WebhookWorker\<close> (\<^verbatim>\<open>workers/webhookWorker.ts\<close>).

  \<^bold>\<open>State and effects.\<close> A module variable, a \<open>Map\<close>, a database table or a queue is a
  component of an explicit state that an operation takes and returns. A table is a list of rows or a map; a
  \<open>Map\<close> is an association list in insertion order, since the code evicts its oldest entry. Whether a
  database transaction, a query or a queue operation succeeds is an argument (a Boolean, or one for each
  of them), so that every \<open>catch\<close> is a branch of the model. Errors are values: an \<open>Inl\<close>, a
  \<open>None\<close> or a constructor of an outcome type; a promise that never settles is an outcome of its own. Time
  is an argument in milliseconds.

  \<^bold>\<open>Parameters.\<close> DNS replies, HTTP replies of the providers and of the endpoints, TCP
  reachability, random numbers, the HMAC digest, the key hash and the session verification are
  arguments. Redis is a record of its commands over a state of its own with the documented
  laws \<open>redis_laws\<close>; a concrete in-memory instance satisfies them.

  \<^bold>\<open>Conventions.\<close> Strings are lists of 8-bit characters, read as the code units 0 to 255. Numbers that
  stay integral are \<open>int\<close> or \<open>nat\<close>; the jitter of the retry delays is computed exactly in the reals
  instead of in doubles. The time zone of the process is UTC. Bytes that the code combines bit by bit
  are \<open>8 word\<close>.

  \<^bold>\<open>Lemmas.\<close> The locale \<open>ttl_cache\<close> is proved once and interpreted by the MX cache, the
  catch-all table, the verdict table, the deliverability cache and the key cache (the two
  \<open>Map\<close>s through \<open>bounded_map_cache\<close>); \<open>task_pool\<close> is interpreted by the limiter, and
  \<open>report_source\<close> by the two mail transports and by both together. Each
  component has its functional behaviour on every branch, the invariant of its state, and where the
  code has a contract, the refinement of it (the grammar of addresses, the edit distance, the
  signature comparison, the CSV file, the standing of an address, a bulk job that is never interrupted).

  \<^bold>\<open>Bounds and fuel.\<close> No definition of the program is fuelled without a proof that the fuel is
  enough: the delivery of a webhook is run for as many jobs as it has attempts left, the ordered
  runner for as many completions as it has tasks, and the retry loops recurse on the attempts that remain.
  The dialogue recurses on the list of socket events, the chunks of a bulk job and of a tick on the rows that remain.

  \<^bold>\<open>Not modelled.\<close> Request schemas, the HTML and text of mails, logging, timings of the stages,
  process start-up and the SMTP relay server; the rendering of mails and the choice of their transport; the
  routes that only read jobs, monitors and their history; the alarm about provider credits; phone and IP
  intelligence; the other workers and routes, which are mostly database queries and calls of mail, AI and CRM
  services; encryption of stored secrets.
\<close>

end
